theory Spec2Isabelle
  imports Complex_Main "HOL-Library.Word" "HOL-Library.AList"
begin

unbundle bit_operations_syntax

section \<open>Machine arithmetic of gl.c\<close>

text \<open>
  A C \<open>int\<close> is a 32-bit word; \<open>sint\<close> reads it as two's complement and the
  arithmetic wraps around.
\<close>

type_synonym c_int = "32 word"

subsection \<open>Single precision\<close>

text \<open>
  A C \<open>float\<close> is an IEEE 754 binary32 value, every operation rounding its exact
  result to the nearest value, ties to even (no excess precision, and no fusing of a
  multiplication with an addition). \<open>Finite a\<close> is the finite value \<open>a\<close>;
  \<open>NonFinite\<close> stands for an infinity or a NaN, and the model also gives it for
  every operation on one, so that it is only an upper bound on such values (a division
  of a finite value by an infinity is 0 in C). Which of them it is is not tracked, and
  neither is the sign of a zero.

  \<open>rnd32 x\<close> is the rounding of the real \<open>x\<close>: the unit in the last place of \<open>x\<close>
  is \<open>pow2 q\<close> for the least \<open>q\<close> from \<open>-149\<close> (the subnormal spacing) with
  \<open>\<bar>x\<bar> < pow2 (q + 24)\<close>; a result of magnitude \<open>2 ^ 128\<close> or more overflows.
\<close>

datatype float = Finite real | NonFinite

definition pow2 :: "int \<Rightarrow> real" where
  "pow2 q = (if 0 \<le> q then 2 ^ nat q else 1 / 2 ^ nat (- q))"

definition round_even :: "real \<Rightarrow> int" where
  "round_even x =
     (let f = \<lfloor>x\<rfloor>; r = x - of_int f
      in if r < 1 / 2 then f
         else if 1 / 2 < r then f + 1
         else if even f then f else f + 1)"

fun ulp_exp :: "nat \<Rightarrow> int \<Rightarrow> real \<Rightarrow> int option" where
  "ulp_exp 0 q a = None"
| "ulp_exp (Suc k) q a = (if a < pow2 (q + 24) then Some q else ulp_exp k (q + 1) a)"

definition rnd32 :: "real \<Rightarrow> float" where
  "rnd32 x =
     (case ulp_exp 254 (- 149) \<bar>x\<bar> of
        None \<Rightarrow> NonFinite
      | Some q \<Rightarrow>
          (let y = of_int (round_even (x / pow2 q)) * pow2 q
           in if 2 ^ 128 \<le> \<bar>y\<bar> then NonFinite else Finite y))"

text \<open>A value of the type is a binary32 value when rounding leaves it alone.\<close>

fun is_f32 :: "float \<Rightarrow> bool" where
  "is_f32 (Finite a) = (rnd32 a = Finite a)"
| "is_f32 NonFinite = True"

text \<open>A decimal literal with the suffix \<open>f\<close>, such as \<open>0.1f\<close>.\<close>

definition flit :: "real \<Rightarrow> float" where
  "flit x = rnd32 x"

fun fadd :: "float \<Rightarrow> float \<Rightarrow> float" where
  "fadd (Finite a) (Finite b) = rnd32 (a + b)"
| "fadd _ _ = NonFinite"

fun fsub :: "float \<Rightarrow> float \<Rightarrow> float" where
  "fsub (Finite a) (Finite b) = rnd32 (a - b)"
| "fsub _ _ = NonFinite"

fun fmul :: "float \<Rightarrow> float \<Rightarrow> float" where
  "fmul (Finite a) (Finite b) = rnd32 (a * b)"
| "fmul _ _ = NonFinite"

fun fdiv :: "float \<Rightarrow> float \<Rightarrow> float" where
  "fdiv (Finite a) (Finite b) = (if b = 0 then NonFinite else rnd32 (a / b))"
| "fdiv _ _ = NonFinite"

fun fneg :: "float \<Rightarrow> float" where
  "fneg (Finite a) = Finite (- a)"
| "fneg NonFinite = NonFinite"

text \<open>\<open>ceilf\<close> and \<open>floorf\<close> are exact: they round to an integral value.\<close>

fun ceilf :: "float \<Rightarrow> float" where
  "ceilf (Finite a) = Finite (of_int \<lceil>a\<rceil>)"
| "ceilf NonFinite = NonFinite"

fun floorf :: "float \<Rightarrow> float" where
  "floorf (Finite a) = Finite (of_int \<lfloor>a\<rfloor>)"
| "floorf NonFinite = NonFinite"

text \<open>The conversion \<open>(float)i\<close> of an \<open>int\<close>.\<close>

definition i2f :: "c_int \<Rightarrow> float" where
  "i2f i = rnd32 (of_int (sint i))"

text \<open>
  The conversion \<open>(int)x\<close> truncates towards zero. Where the truncated value does
  not fit an \<open>int\<close> (or \<open>x\<close> is not finite) C leaves the conversion undefined;
  the hardware then delivers some value without trapping, which the model takes as the
  parameter \<open>oor\<close>.
\<close>

fun f2i :: "c_int \<Rightarrow> float \<Rightarrow> c_int" where
  "f2i oor (Finite a) =
     (let t = (if 0 \<le> a then \<lfloor>a\<rfloor> else \<lceil>a\<rceil>)
      in if - (2 ^ 31) \<le> t \<and> t < 2 ^ 31 then word_of_int t else oor)"
| "f2i oor NonFinite = oor"

section \<open>Declarations of the headers\<close>

text \<open>
  The headers \<open>fosphor.h\<close>, \<open>private.h\<close> and \<open>gl.h\<close> are not part of the
  sources at hand. Their constants are parameters of the model: the FFT length and the
  bit masks of the render options. \<open>cast_oor\<close> is the value the platform delivers for
  an out-of-range conversion to \<open>int\<close>.
\<close>

record config =
  FOSPHOR_FFT_LEN :: c_int
  FRO_LIVE :: c_int
  FRO_MAX_HOLD :: c_int
  FRO_HISTO :: c_int
  FRO_WATERFALL :: c_int
  FRO_LABEL_PWR :: c_int
  FRO_LABEL_FREQ :: c_int
  cast_oor :: c_int

text \<open>The error numbers of \<open>errno.h\<close> (Linux).\<close>

definition ENOENT :: c_int where
  "ENOENT = 2"

definition ENOMEM :: c_int where
  "ENOMEM = 12"

text \<open>
  \<open>enum fosphor_gl_id\<close>. A C enumeration also holds every other \<open>int\<close>;
  \<open>GL_ID_OTHER n\<close> is a value \<open>n\<close> that is none of the three enumerators.
\<close>

datatype fosphor_gl_id =
    GL_ID_TEX_WATERFALL
  | GL_ID_TEX_HISTOGRAM
  | GL_ID_VBO_SPECTRUM
  | GL_ID_OTHER int

text \<open>
  \<open>struct fosphor_gl_state\<close>. A pointer is \<open>None\<close> (NULL) or the address of a
  live or freed object; a \<open>GLuint\<close> object name is a natural number, \<open>0\<close> naming no
  object.
\<close>

record fosphor_gl_state =
  init_complete :: c_int
  font :: "nat option"
  cmap_ctx :: "nat option"
  cmap_waterfall :: nat
  cmap_histogram :: nat
  tex_waterfall :: nat
  tex_histogram :: nat
  vbo_spectrum :: nat

text \<open>
  The fields of \<open>struct fosphor\<close> that gl.c reads: \<open>self->gl\<close>, \<open>self->power\<close>
  and \<open>self->frequency\<close>. The two frequencies are doubles that are only passed on.
\<close>

record fosphor =
  gl :: "nat option"
  power_db_ref :: c_int
  power_db_per_div :: c_int
  power_scale :: float
  power_offset :: float
  frequency_center :: real
  frequency_span :: real

text \<open>
  The fields of \<open>struct fosphor_render\<close> that gl.c reads. The private fields
  \<open>_x\<close>, \<open>_y_wf\<close>, ... of the source are written \<open>priv_x\<close>, \<open>priv_y_wf\<close>, ...;
  an array of two floats is a pair.
\<close>

record fosphor_render =
  options :: c_int
  freq_start :: float
  freq_stop :: float
  wf_span :: float
  priv_wf_pos :: c_int
  priv_x_div :: float
  priv_y_histo_div :: float
  priv_x :: "float \<times> float"
  priv_y_histo :: "float \<times> float"
  priv_y_wf :: "float \<times> float"
  priv_x_label :: float
  priv_y_label :: float

section \<open>The graphics library and the collaborators as a recording backend\<close>

text \<open>
  gl.c acts on the world only through OpenGL, the C allocator and its collaborators
  (font renderer, colormap stage, resource loader, axis formatter). The model runs it
  against a backend that records every call in order and keeps the books of what is
  resident: the allocated state structures, the texture and buffer objects, the fonts
  and the colormap contexts.
\<close>

datatype gl_enum =
    GL_TEXTURE_2D | GL_TEXTURE_MAG_FILTER | GL_TEXTURE_MIN_FILTER | GL_LINEAR
  | GL_TEXTURE_WRAP_S | GL_TEXTURE_WRAP_T | GL_REPEAT | GL_CLAMP_TO_EDGE
  | GL_R32F | GL_RED | GL_FLOAT | GL_ARRAY_BUFFER | GL_WRITE_ONLY | GL_DYNAMIC_DRAW
  | GL_QUADS | GL_LINES | GL_LINE_STRIP | GL_BLEND | GL_SRC_ALPHA
  | GL_ONE_MINUS_SRC_ALPHA | GL_LINE_SMOOTH | GL_VERTEX_ARRAY

datatype glf_align = GLF_RIGHT | GLF_CENTER

datatype cmap_mode = GL_CMAP_MODE_BILINEAR

datatype cmap_gen = Fosphor_gl_cmap_waterfall | Fosphor_gl_cmap_histogram

text \<open>
  The calls of object creation and release carry the object they return or are given.
  \<open>GlTexSubImage2D\<close> and \<open>GlTexImage2D\<close> leave out their data pointer (the zeroed
  16 by 16 tile, and NULL).
\<close>

datatype call =
    Malloc "nat option"
  | Memset_state nat
  | Free nat
  | Glf_alloc int "nat option"
  | Resource_get string bool
  | Glf_load_face_mem "nat option" c_int
  | Glf_free "nat option"
  | Fosphor_gl_cmap_init "nat option"
  | Fosphor_gl_cmap_generate cmap_gen int c_int nat
  | Fosphor_gl_cmap_release "nat option"
  | GlGenTextures nat
  | GlGenBuffers nat
  | GlDeleteTextures nat
  | GlDeleteBuffers nat
  | GlBindTexture gl_enum nat
  | GlTexParameteri gl_enum gl_enum gl_enum
  | GlTexImage2D gl_enum int gl_enum int int int gl_enum gl_enum
  | GlTexSubImage2D gl_enum int int int int int gl_enum gl_enum
  | GlBindBuffer gl_enum nat
  | GlBufferData gl_enum int gl_enum
  | GlMapBuffer gl_enum gl_enum bool
  | Memset_mapped int
  | GlUnmapBuffer gl_enum
  | Fosphor_gl_cmap_enable "nat option" nat nat float float cmap_mode
  | Fosphor_gl_cmap_disable
  | GlBegin gl_enum
  | GlEnd
  | GlTexCoord2f float float
  | GlVertex2f float float
  | GlColor3f float float float
  | GlColor4f float float float float
  | GlPushMatrix
  | GlPopMatrix
  | GlTranslatef float float float
  | GlScalef float float float
  | GlVertexPointer int gl_enum int int
  | GlEnable gl_enum
  | GlDisable gl_enum
  | GlBlendFunc gl_enum gl_enum
  | GlLineWidth float
  | GlEnableClientState gl_enum
  | GlDisableClientState gl_enum
  | GlDrawArrays gl_enum c_int c_int
  | Freq_axis_build real real
  | Freq_axis_render int
  | Glf_begin "nat option" float float float
  | Glf_printf_d "nat option" float glf_align float glf_align c_int
  | Glf_printf_s "nat option" float glf_align float glf_align
  | Glf_end
  | GlFinish

record world =
  heap :: "(nat \<times> fosphor_gl_state) list"
  textures :: "nat list"
  buffers :: "nat list"
  fonts :: "nat list"
  cmap_ctxs :: "nat list"
  calls :: "call list"

text \<open>What stops a call before it returns: an access through a pointer that is
  NULL or freed, and \<open>abort()\<close>.\<close>

datatype fault = Segfault | Abort

definition emit :: "call list \<Rightarrow> world \<Rightarrow> world" where
  "emit cs w = w\<lparr>calls := calls w @ cs\<rparr>"

text \<open>A new address or object name: one above every one in use, never 0.\<close>

definition fresh :: "nat list \<Rightarrow> nat" where
  "fresh used = Suc (fold max used 0)"

text \<open>Reading and writing \<open>*gl\<close>.\<close>

definition deref :: "world \<Rightarrow> nat option \<Rightarrow> fosphor_gl_state option" where
  "deref w p = (case p of None \<Rightarrow> None | Some a \<Rightarrow> map_of (heap w) a)"

definition store :: "nat \<Rightarrow> (fosphor_gl_state \<Rightarrow> fosphor_gl_state) \<Rightarrow> world \<Rightarrow> world" where
  "store a f w = w\<lparr>heap := AList.map_entry a f (heap w)\<rparr>"

definition zero_state :: fosphor_gl_state where
  "zero_state =
     \<lparr>init_complete = 0, font = None, cmap_ctx = None, cmap_waterfall = 0,
      cmap_histogram = 0, tex_waterfall = 0, tex_histogram = 0, vbo_spectrum = 0\<rparr>"

subsection \<open>OpenGL objects\<close>

text \<open>
  \<open>glGenTextures(1, &n)\<close> and \<open>glGenBuffers(1, &n)\<close> return an unused name and
  mark it used. \<open>glDeleteTextures\<close> and \<open>glDeleteBuffers\<close> silently ignore 0 and
  names that are not in use.
\<close>

definition glGenTextures :: "world \<Rightarrow> nat \<times> world" where
  "glGenTextures w =
     (let n = fresh (textures w)
      in (n, emit [GlGenTextures n] (w\<lparr>textures := textures w @ [n]\<rparr>)))"

definition glGenBuffers :: "world \<Rightarrow> nat \<times> world" where
  "glGenBuffers w =
     (let n = fresh (buffers w)
      in (n, emit [GlGenBuffers n] (w\<lparr>buffers := buffers w @ [n]\<rparr>)))"

definition glDeleteTextures :: "nat \<Rightarrow> world \<Rightarrow> world" where
  "glDeleteTextures n w =
     emit [GlDeleteTextures n]
       (if n = 0 then w else w\<lparr>textures := removeAll n (textures w)\<rparr>)"

definition glDeleteBuffers :: "nat \<Rightarrow> world \<Rightarrow> world" where
  "glDeleteBuffers n w =
     emit [GlDeleteBuffers n]
       (if n = 0 then w else w\<lparr>buffers := removeAll n (buffers w)\<rparr>)"

subsection \<open>The collaborators\<close>

text \<open>
  The font renderer (\<open>glf_alloc\<close>, \<open>glf_load_face_mem\<close>, \<open>glf_free\<close>), the
  colormap stage (\<open>fosphor_gl_cmap_init\<close>, \<open>fosphor_gl_cmap_generate\<close>,
  \<open>fosphor_gl_cmap_release\<close>) and the resource loader (\<open>resource_get\<close>) are code
  of the repository that is not among the sources at hand. Whether one of their steps
  succeeds is not gl.c's to decide: the outcomes are a parameter of the model.
  \<open>resource_get\<close> hands out the bytes of an embedded resource and
  \<open>glf_load_face_mem\<close> reads them into the font; neither makes an object of its own,
  and the log keeps their outcome and leaves out the bytes.
\<close>

record init_outcome =
  malloc_ok :: bool
  glf_alloc_ok :: bool
  resource_found :: bool
  glf_load_rv :: c_int
  cmap_init_ok :: bool
  gen_waterfall_rv :: c_int
  gen_waterfall_partial :: bool
  gen_histogram_rv :: c_int
  gen_histogram_partial :: bool

text \<open>
  \<open>malloc(sizeof(struct fosphor_gl_state))\<close>. The memory it returns holds anything;
  gl.c zeroes the structure before it reads any of it, and the model has the new
  structure zeroed from the start.
\<close>

definition malloc_state :: "bool \<Rightarrow> world \<Rightarrow> nat option \<times> world" where
  "malloc_state ok w =
     (if ok then
        (let a = fresh (map fst (heap w))
         in (Some a, emit [Malloc (Some a)] (w\<lparr>heap := heap w @ [(a, zero_state)]\<rparr>)))
      else (None, emit [Malloc None] w))"

definition free_state :: "nat \<Rightarrow> world \<Rightarrow> world" where
  "free_state a w = emit [Free a] (w\<lparr>heap := AList.delete a (heap w)\<rparr>)"

text \<open>
  Modelled from the spec: \<open>glf_alloc\<close> makes a font object, owned by the caller, or
  returns NULL.
\<close>

definition glf_alloc :: "bool \<Rightarrow> int \<Rightarrow> world \<Rightarrow> nat option \<times> world" where
  "glf_alloc ok sz w =
     (if ok then
        (let p = fresh (fonts w)
         in (Some p, emit [Glf_alloc sz (Some p)] (w\<lparr>fonts := fonts w @ [p]\<rparr>)))
      else (None, emit [Glf_alloc sz None] w))"

text \<open>
  Modelled from the spec: \<open>glf_free\<close> releases the font. Teardown is safe on a
  partially initialised state, so the release of NULL does nothing.
\<close>

definition glf_free :: "nat option \<Rightarrow> world \<Rightarrow> world" where
  "glf_free p w =
     emit [Glf_free p]
       (case p of None \<Rightarrow> w | Some a \<Rightarrow> w\<lparr>fonts := removeAll a (fonts w)\<rparr>)"

text \<open>
  Modelled from the spec: \<open>fosphor_gl_cmap_init\<close> makes the context of the colormap
  stage, or returns NULL.
\<close>

definition fosphor_gl_cmap_init :: "bool \<Rightarrow> world \<Rightarrow> nat option \<times> world" where
  "fosphor_gl_cmap_init ok w =
     (if ok then
        (let p = fresh (cmap_ctxs w)
         in (Some p, emit [Fosphor_gl_cmap_init (Some p)] (w\<lparr>cmap_ctxs := cmap_ctxs w @ [p]\<rparr>)))
      else (None, emit [Fosphor_gl_cmap_init None] w))"

text \<open>
  Modelled from the spec: \<open>fosphor_gl_cmap_release\<close> releases the context; the
  release of NULL does nothing.
\<close>

definition fosphor_gl_cmap_release :: "nat option \<Rightarrow> world \<Rightarrow> world" where
  "fosphor_gl_cmap_release p w =
     emit [Fosphor_gl_cmap_release p]
       (case p of None \<Rightarrow> w | Some a \<Rightarrow> w\<lparr>cmap_ctxs := removeAll a (cmap_ctxs w)\<rparr>)"

text \<open>
  Modelled from the spec: \<open>fosphor_gl_cmap_generate(&id, gen, n)\<close> generates a LUT
  of \<open>n\<close> entries as a texture and returns \<open>rv\<close>. It has made the texture and
  written its name to \<open>id\<close> when it succeeds (\<open>rv = 0\<close>), and when it fails after
  the texture was made (\<open>partial\<close>). The result is \<open>rv\<close> and the name written, 0
  for none (the caller's field is then left as it is).
\<close>

definition fosphor_gl_cmap_generate ::
  "c_int \<Rightarrow> bool \<Rightarrow> cmap_gen \<Rightarrow> int \<Rightarrow> world \<Rightarrow> (c_int \<times> nat) \<times> world" where
  "fosphor_gl_cmap_generate rv partial gen n w =
     (if rv = 0 \<or> partial then
        (let t = fresh (textures w)
         in ((rv, t), emit [Fosphor_gl_cmap_generate gen n rv t] (w\<lparr>textures := textures w @ [t]\<rparr>)))
      else ((rv, 0), emit [Fosphor_gl_cmap_generate gen n rv 0] w))"

section \<open>Helpers of gl.c\<close>

text \<open>
  \<open>gl_tex2d_float_clear\<close>: the texture is zeroed in tiles of 16 by 16, the tiles of
  the last column and row cut to the texture. The inner loop runs over \<open>x\<close>, the outer
  one over \<open>y\<close>. The counters are mathematical integers: they stay below
  \<open>width + 16\<close> and \<open>height + 16\<close>.
\<close>

function tex_clear_x :: "int \<Rightarrow> int \<Rightarrow> int \<Rightarrow> int \<Rightarrow> call list" where
  "tex_clear_x width height y x =
     (if x < width then
        (let cw = (if x + 16 > width then width - x else 16);
             ch = (if y + 16 > height then height - y else 16)
         in GlTexSubImage2D GL_TEXTURE_2D 0 x y cw ch GL_RED GL_FLOAT
              # tex_clear_x width height y (x + 16))
      else [])"
  by pat_completeness auto
termination
  by (relation "measure (\<lambda>(width, height, y, x). nat (width - x))") auto

function tex_clear_y :: "int \<Rightarrow> int \<Rightarrow> int \<Rightarrow> call list" where
  "tex_clear_y width height y =
     (if y < height then
        tex_clear_x width height y 0 @ tex_clear_y width height (y + 16)
      else [])"
  by pat_completeness auto
termination
  by (relation "measure (\<lambda>(width, height, y). nat (height - y))") auto

declare tex_clear_x.simps [simp del]

declare tex_clear_y.simps [simp del]

definition gl_tex2d_float_clear :: "nat \<Rightarrow> int \<Rightarrow> int \<Rightarrow> world \<Rightarrow> world" where
  "gl_tex2d_float_clear tex_id width height w =
     emit (GlBindTexture GL_TEXTURE_2D tex_id # tex_clear_y width height 0) w"

text \<open>
  \<open>gl_vbo_clear\<close>: \<open>glMapBuffer\<close> returns NULL when the driver cannot map the
  buffer (\<open>map_ok\<close> is false), and the helper aborts.
\<close>

definition gl_vbo_clear :: "bool \<Rightarrow> nat \<Rightarrow> int \<Rightarrow> world \<Rightarrow> fault + world" where
  "gl_vbo_clear map_ok vbo_id sz w =
     (let w1 = emit [GlBindBuffer GL_ARRAY_BUFFER vbo_id,
                     GlMapBuffer GL_ARRAY_BUFFER GL_WRITE_ONLY map_ok] w
      in if \<not> map_ok then Inl Abort
         else Inr (emit [Memset_mapped sz, GlUnmapBuffer GL_ARRAY_BUFFER] w1))"

text \<open>
  \<open>gl_deferred_init\<close>. \<open>len\<close> is \<open>2 * sizeof(float) * 2 * FOSPHOR_FFT_LEN\<close> with
  \<open>sizeof(float) = 4\<close>.
\<close>

definition gl_deferred_init :: "config \<Rightarrow> bool \<Rightarrow> fosphor \<Rightarrow> world \<Rightarrow> fault + world" where
  "gl_deferred_init c map_ok self w =
     (case gl self of
        None \<Rightarrow> Inl Segfault
      | Some a \<Rightarrow>
         (case map_of (heap w) a of
            None \<Rightarrow> Inl Segfault
          | Some g \<Rightarrow>
             if init_complete g \<noteq> 0 then Inr w
             else
               (let n = sint (FOSPHOR_FFT_LEN c);
                    w1 = store a (\<lambda>g. g\<lparr>init_complete := 1\<rparr>) w;
                    (t1, w2) = glGenTextures w1;
                    w3 = store a (\<lambda>g. g\<lparr>tex_waterfall := t1\<rparr>) w2;
                    w4 = emit
                      [GlBindTexture GL_TEXTURE_2D t1,
                       GlTexParameteri GL_TEXTURE_2D GL_TEXTURE_MAG_FILTER GL_LINEAR,
                       GlTexParameteri GL_TEXTURE_2D GL_TEXTURE_MIN_FILTER GL_LINEAR,
                       GlTexParameteri GL_TEXTURE_2D GL_TEXTURE_WRAP_S GL_REPEAT,
                       GlTexParameteri GL_TEXTURE_2D GL_TEXTURE_WRAP_T GL_REPEAT,
                       GlTexImage2D GL_TEXTURE_2D 0 GL_R32F n 1024 0 GL_RED GL_FLOAT] w3;
                    w5 = gl_tex2d_float_clear t1 n 1024 w4;
                    (t2, w6) = glGenTextures w5;
                    w7 = store a (\<lambda>g. g\<lparr>tex_histogram := t2\<rparr>) w6;
                    w8 = emit
                      [GlBindTexture GL_TEXTURE_2D t2,
                       GlTexParameteri GL_TEXTURE_2D GL_TEXTURE_MAG_FILTER GL_LINEAR,
                       GlTexParameteri GL_TEXTURE_2D GL_TEXTURE_MIN_FILTER GL_LINEAR,
                       GlTexParameteri GL_TEXTURE_2D GL_TEXTURE_WRAP_S GL_REPEAT,
                       GlTexParameteri GL_TEXTURE_2D GL_TEXTURE_WRAP_T GL_CLAMP_TO_EDGE,
                       GlTexImage2D GL_TEXTURE_2D 0 GL_R32F n 128 0 GL_RED GL_FLOAT] w7;
                    w9 = gl_tex2d_float_clear t2 n 128 w8;
                    (b, w10) = glGenBuffers w9;
                    w11 = store a (\<lambda>g. g\<lparr>vbo_spectrum := b\<rparr>) w10;
                    len = 2 * 4 * 2 * n;
                    w12 = emit
                      [GlBindBuffer GL_ARRAY_BUFFER b,
                       GlBufferData GL_ARRAY_BUFFER len GL_DYNAMIC_DRAW] w11
                in gl_vbo_clear map_ok b len w12)))"

section \<open>The exposed functions of gl.c\<close>

text \<open>
  \<open>fosphor_gl_release\<close>. It reads the fields of \<open>*gl\<close>, so a pointer to a freed
  structure is a fault.
\<close>

definition fosphor_gl_release :: "fosphor \<Rightarrow> world \<Rightarrow> fault + fosphor \<times> world" where
  "fosphor_gl_release self w =
     (case gl self of
        None \<Rightarrow> Inr (self, w)
      | Some a \<Rightarrow>
         (case map_of (heap w) a of
            None \<Rightarrow> Inl Segfault
          | Some g \<Rightarrow>
             (let w1 = glDeleteBuffers (vbo_spectrum g) w;
                  w2 = glDeleteTextures (tex_histogram g) w1;
                  w3 = glDeleteTextures (tex_waterfall g) w2;
                  w4 = glDeleteTextures (cmap_histogram g) w3;
                  w5 = glDeleteTextures (cmap_waterfall g) w4;
                  w6 = fosphor_gl_cmap_release (cmap_ctx g) w5;
                  w7 = glf_free (font g) w6;
                  w8 = free_state a w7
              in Inr (self\<lparr>gl := None\<rparr>, w8))))"

text \<open>The label \<open>error:\<close> of \<open>fosphor_gl_init\<close>: release, then return \<open>rv\<close>.\<close>

definition init_error ::
  "c_int \<Rightarrow> fosphor \<Rightarrow> world \<Rightarrow> fault + c_int \<times> fosphor \<times> world" where
  "init_error rv self w =
     (case fosphor_gl_release self w of
        Inl f \<Rightarrow> Inl f
      | Inr (self', w') \<Rightarrow> Inr (rv, self', w'))"

text \<open>
  \<open>fosphor_gl_init\<close>, with the outcomes \<open>oc\<close> of the steps that can fail. The result
  is the value returned, \<open>self\<close> and the world.
\<close>

definition fosphor_gl_init ::
  "init_outcome \<Rightarrow> fosphor \<Rightarrow> world \<Rightarrow> fault + c_int \<times> fosphor \<times> world" where
  "fosphor_gl_init oc self w =
     (case malloc_state (malloc_ok oc) w of
        (None, w1) \<Rightarrow> Inr (- ENOMEM, self, w1)
      | (Some a, w1) \<Rightarrow>
         (let self1 = self\<lparr>gl := Some a\<rparr>;
              w2 = emit [Memset_state a] (store a (\<lambda>g. zero_state) w1);
              (f, w3) = glf_alloc (glf_alloc_ok oc) 8 w2;
              w4 = store a (\<lambda>g. g\<lparr>font := f\<rparr>) w3
          in if f = None then init_error (- ENOMEM) self1 w4
             else
               (let w5 = emit [Resource_get ''DroidSansMonoDotted.ttf'' (resource_found oc)] w4
                in if \<not> resource_found oc then init_error (- ENOENT) self1 w5
                   else
                     (let rv = glf_load_rv oc;
                          w6 = emit [Glf_load_face_mem f rv] w5
                      in if rv \<noteq> 0 then init_error rv self1 w6
                         else
                           (let (cm, w7) = fosphor_gl_cmap_init (cmap_init_ok oc) w6;
                                w8 = store a (\<lambda>g. g\<lparr>cmap_ctx := cm\<rparr>) w7;
                                rv1 = (if cm = None then 1 else 0);
                                ((r2, t1), w9) =
                                  fosphor_gl_cmap_generate (gen_waterfall_rv oc)
                                    (gen_waterfall_partial oc) Fosphor_gl_cmap_waterfall 256 w8;
                                w10 = (if t1 = 0 then w9
                                       else store a (\<lambda>g. g\<lparr>cmap_waterfall := t1\<rparr>) w9);
                                rv2 = rv1 OR r2;
                                ((r3, t2), w11) =
                                  fosphor_gl_cmap_generate (gen_histogram_rv oc)
                                    (gen_histogram_partial oc) Fosphor_gl_cmap_histogram 256 w10;
                                w12 = (if t2 = 0 then w11
                                       else store a (\<lambda>g. g\<lparr>cmap_histogram := t2\<rparr>) w11);
                                rv3 = rv2 OR r3
                            in if rv3 \<noteq> 0 then init_error rv3 self1 w12
                               else Inr (0, self1, w12))))))"

text \<open>\<open>fosphor_gl_get_shared_id\<close>. The result is the name returned and the world.\<close>

definition fosphor_gl_get_shared_id ::
  "config \<Rightarrow> bool \<Rightarrow> fosphor \<Rightarrow> world \<Rightarrow> fosphor_gl_id \<Rightarrow> fault + nat \<times> world" where
  "fosphor_gl_get_shared_id c map_ok self w ident =
     (case gl_deferred_init c map_ok self w of
        Inl f \<Rightarrow> Inl f
      | Inr w' \<Rightarrow>
         (case ident of
            GL_ID_TEX_WATERFALL \<Rightarrow>
              (case deref w' (gl self) of
                 None \<Rightarrow> Inl Segfault | Some g \<Rightarrow> Inr (tex_waterfall g, w'))
          | GL_ID_TEX_HISTOGRAM \<Rightarrow>
              (case deref w' (gl self) of
                 None \<Rightarrow> Inl Segfault | Some g \<Rightarrow> Inr (tex_histogram g, w'))
          | GL_ID_VBO_SPECTRUM \<Rightarrow>
              (case deref w' (gl self) of
                 None \<Rightarrow> Inl Segfault | Some g \<Rightarrow> Inr (vbo_spectrum g, w'))
          | GL_ID_OTHER n \<Rightarrow> Inr (0, w')))"

subsection \<open>Drawing\<close>

text \<open>
  \<open>fosphor_gl_draw\<close> in its five parts, each giving the calls it issues. A part
  that reads a field of \<open>*gl\<close> faults when \<open>self->gl\<close> is NULL or freed; \<open>gp\<close> is
  the structure \<open>self->gl\<close> points to, if any. \<open>tw\<close> and \<open>bw\<close> are the texel and
  the bin width.
\<close>

definition draw_waterfall ::
  "config \<Rightarrow> fosphor \<Rightarrow> fosphor_gl_state option \<Rightarrow> fosphor_render \<Rightarrow> float
     \<Rightarrow> fault + call list" where
  "draw_waterfall c self gp render tw =
     (if options render AND FRO_WATERFALL c \<noteq> 0 then
        (let x0 = fst (priv_x render); x1 = snd (priv_x render);
             y0 = fst (priv_y_wf render); y1 = snd (priv_y_wf render);
             u0 = fadd (fadd (flit (1 / 2)) tw) (fmul (fsub (flit 1) tw) (freq_start render));
             u1 = fadd (fadd (flit (1 / 2)) tw) (fmul (fsub (flit 1) tw) (freq_stop render));
             v1 = fdiv (i2f (priv_wf_pos render)) (flit 1024);
             v0 = fsub v1 (wf_span render)
         in case gp of
              None \<Rightarrow> Inl Segfault
            | Some g \<Rightarrow>
                Inr [Fosphor_gl_cmap_enable (cmap_ctx g) (tex_waterfall g) (cmap_waterfall g)
                       (power_scale self) (power_offset self) GL_CMAP_MODE_BILINEAR,
                     GlBegin GL_QUADS,
                     GlTexCoord2f u0 v0, GlVertex2f x0 y0,
                     GlTexCoord2f u1 v0, GlVertex2f x1 y0,
                     GlTexCoord2f u1 v1, GlVertex2f x1 y1,
                     GlTexCoord2f u0 v1, GlVertex2f x0 y1,
                     GlEnd,
                     Fosphor_gl_cmap_disable])
      else Inr [])"

definition draw_histogram ::
  "config \<Rightarrow> fosphor_gl_state option \<Rightarrow> fosphor_render \<Rightarrow> float \<Rightarrow> fault + call list" where
  "draw_histogram c gp render tw =
     (if options render AND FRO_HISTO c \<noteq> 0 then
        (let x0 = fst (priv_x render); x1 = snd (priv_x render);
             y0 = fst (priv_y_histo render); y1 = snd (priv_y_histo render);
             u0 = fadd (fadd (flit (1 / 2)) tw) (fmul (fsub (flit 1) tw) (freq_start render));
             u1 = fadd (fadd (flit (1 / 2)) tw) (fmul (fsub (flit 1) tw) (freq_stop render));
             v0 = flit 0;
             v1 = flit 1
         in case gp of
              None \<Rightarrow> Inl Segfault
            | Some g \<Rightarrow>
                Inr [Fosphor_gl_cmap_enable (cmap_ctx g) (tex_histogram g) (cmap_histogram g)
                       (flit (11 / 10)) (flit 0) GL_CMAP_MODE_BILINEAR,
                     GlBegin GL_QUADS,
                     GlTexCoord2f u0 v0, GlVertex2f x0 y0,
                     GlTexCoord2f u1 v0, GlVertex2f x1 y0,
                     GlTexCoord2f u1 v1, GlVertex2f x1 y1,
                     GlTexCoord2f u0 v1, GlVertex2f x0 y1,
                     GlEnd,
                     Fosphor_gl_cmap_disable])
      else if options render AND (FRO_LIVE c OR FRO_MAX_HOLD c) \<noteq> 0 then
        (let x0 = fst (priv_x render); x1 = snd (priv_x render);
             y0 = fst (priv_y_histo render); y1 = snd (priv_y_histo render)
         in Inr [GlColor3f (flit 0) (flit 0) (flit (1 / 10)),
                 GlBegin GL_QUADS,
                 GlVertex2f x0 y0,
                 GlVertex2f x1 y0,
                 GlVertex2f x1 y1,
                 GlVertex2f x0 y1,
                 GlEnd])
      else Inr [])"

definition draw_spectrum ::
  "config \<Rightarrow> fosphor \<Rightarrow> fosphor_gl_state option \<Rightarrow> fosphor_render \<Rightarrow> float \<Rightarrow> float
     \<Rightarrow> fault + call list" where
  "draw_spectrum c self gp render tw bw =
     (if options render AND (FRO_LIVE c OR FRO_MAX_HOLD c) \<noteq> 0 then
        (let idx0 = 1 + f2i (cast_oor c)
                      (ceilf (fsub (fmul (freq_start render) (i2f (FOSPHOR_FFT_LEN c - 1)))
                                (flit (1 / 2))));
             idx1 = 1 + f2i (cast_oor c)
                      (floorf (fsub (fmul (freq_stop render) (i2f (FOSPHOR_FFT_LEN c - 1)))
                                 (flit (1 / 2))));
             len = idx1 - idx0 + 1
         in case gp of
              None \<Rightarrow> Inl Segfault
            | Some g \<Rightarrow>
                Inr ([GlPushMatrix,
                      GlTranslatef (fst (priv_x render)) (fst (priv_y_histo render)) (flit 0),
                      GlScalef (fsub (snd (priv_x render)) (fst (priv_x render)))
                        (fsub (snd (priv_y_histo render)) (fst (priv_y_histo render))) (flit 1),
                      GlScalef (flit 1) (power_scale self) (flit 1),
                      GlTranslatef (flit 0) (power_offset self) (flit 0),
                      GlScalef (fdiv (flit 1) (fsub (freq_stop render) (freq_start render)))
                        (flit 1) (flit 1),
                      GlTranslatef (fneg (freq_start render)) (flit 0) (flit 0),
                      GlTranslatef (fmul (flit (1 / 2)) bw) (flit 0) (flit 0),
                      GlScalef (fsub (flit 1) bw) (flit 1) (flit 1),
                      GlTranslatef (flit (1 / 2)) (flit 0) (flit 0),
                      GlScalef (fdiv (flit (1 / 2)) (fsub (flit 1) (fmul (flit 2) tw)))
                        (flit 1) (flit 1),
                      GlBindBuffer GL_ARRAY_BUFFER (vbo_spectrum g),
                      GlVertexPointer 2 GL_FLOAT 0 0,
                      GlEnable GL_BLEND,
                      GlBlendFunc GL_SRC_ALPHA GL_ONE_MINUS_SRC_ALPHA,
                      GlEnable GL_LINE_SMOOTH,
                      GlLineWidth (flit 1)]
                     @ (if options render AND FRO_LIVE c \<noteq> 0 then
                          [GlColor4f (flit 1) (flit 1) (flit 1) (flit (3 / 4)),
                           GlEnableClientState GL_VERTEX_ARRAY,
                           GlDrawArrays GL_LINE_STRIP idx0 len,
                           GlDisableClientState GL_VERTEX_ARRAY]
                        else [])
                     @ (if options render AND FRO_MAX_HOLD c \<noteq> 0 then
                          [GlColor4f (flit 1) (flit 0) (flit 0) (flit (3 / 4)),
                           GlEnableClientState GL_VERTEX_ARRAY,
                           GlDrawArrays GL_LINE_STRIP (idx0 + FOSPHOR_FFT_LEN c) len,
                           GlDisableClientState GL_VERTEX_ARRAY]
                        else [])
                     @ [GlDisable GL_BLEND,
                        GlPopMatrix]))
      else Inr [])"

text \<open>
  One turn of the grid loop, for the line \<open>i\<close>. The frequency label is the text
  the axis formatter has just written to \<open>buf\<close>.
\<close>

definition grid_line ::
  "config \<Rightarrow> fosphor \<Rightarrow> fosphor_gl_state \<Rightarrow> fosphor_render \<Rightarrow> int \<Rightarrow> call list" where
  "grid_line c self g render i =
     (let xv = fadd (fst (priv_x render)) (fmul (i2f (word_of_int i)) (priv_x_div render));
          yv = fadd (fst (priv_y_histo render))
                 (fmul (i2f (word_of_int i)) (priv_y_histo_div render))
      in [GlEnable GL_BLEND,
          GlBlendFunc GL_SRC_ALPHA GL_ONE_MINUS_SRC_ALPHA,
          GlColor4f (flit 0) (flit 0) (flit 0) (flit (1 / 2)),
          GlBegin GL_LINES,
          GlVertex2f (fadd xv (flit (1 / 2))) (fadd (fst (priv_y_histo render)) (flit (1 / 2))),
          GlVertex2f (fadd xv (flit (1 / 2))) (fsub (snd (priv_y_histo render)) (flit (1 / 2))),
          GlEnd,
          GlBegin GL_LINES,
          GlVertex2f (fadd (fst (priv_x render)) (flit (1 / 2))) (fadd yv (flit (1 / 2))),
          GlVertex2f (fsub (snd (priv_x render)) (flit (1 / 2))) (fadd yv (flit (1 / 2))),
          GlEnd,
          GlDisable GL_BLEND,
          Glf_begin (font g) (flit 1) (flit 1) (flit (33 / 100))]
         @ (if options render AND FRO_LABEL_PWR c \<noteq> 0 then
              [Glf_printf_d (font g) (priv_x_label render) GLF_RIGHT yv GLF_CENTER
                 (power_db_ref self - (10 - word_of_int i) * power_db_per_div self)]
            else [])
         @ (if options render AND FRO_LABEL_FREQ c \<noteq> 0 then
              (let xv_ofs = (if i = 0 then flit 5 else if i = 10 then flit (- 5) else flit 0)
               in [Freq_axis_render (i - 5),
                   Glf_printf_s (font g) (fadd xv xv_ofs) GLF_CENTER
                     (priv_y_label render) GLF_CENTER])
            else [])
         @ [Glf_end])"

function grid_loop ::
  "config \<Rightarrow> fosphor \<Rightarrow> fosphor_gl_state \<Rightarrow> fosphor_render \<Rightarrow> int \<Rightarrow> call list" where
  "grid_loop c self g render i =
     (if i < 11 then grid_line c self g render i @ grid_loop c self g render (i + 1)
      else [])"
  by pat_completeness auto
termination
  by (relation "measure (\<lambda>(c, self, g, render, i). nat (11 - i))") auto

declare grid_loop.simps [simp del]

definition draw_grid ::
  "config \<Rightarrow> fosphor \<Rightarrow> fosphor_gl_state option \<Rightarrow> fosphor_render \<Rightarrow> fault + call list" where
  "draw_grid c self gp render =
     (if options render AND (FRO_LIVE c OR FRO_MAX_HOLD c OR FRO_HISTO c) \<noteq> 0 then
        (case gp of
           None \<Rightarrow> Inl Segfault
         | Some g \<Rightarrow> Inr (grid_loop c self g render 0))
      else Inr [])"

definition fosphor_gl_draw ::
  "config \<Rightarrow> fosphor \<Rightarrow> world \<Rightarrow> fosphor_render \<Rightarrow> fault + world" where
  "fosphor_gl_draw c self w render =
     (let gp = deref w (gl self);
          tw = fdiv (flit 1) (i2f (FOSPHOR_FFT_LEN c));
          bw = fdiv (flit 1) (i2f (FOSPHOR_FFT_LEN c - 1))
      in case draw_waterfall c self gp render tw of
           Inl f \<Rightarrow> Inl f
         | Inr cs1 \<Rightarrow>
            (case draw_histogram c gp render tw of
               Inl f \<Rightarrow> Inl f
             | Inr cs2 \<Rightarrow>
                (case draw_spectrum c self gp render tw bw of
                   Inl f \<Rightarrow> Inl f
                 | Inr cs3 \<Rightarrow>
                    (case draw_grid c self gp render of
                       Inl f \<Rightarrow> Inl f
                     | Inr cs5 \<Rightarrow>
                        Inr (emit
                              (cs1 @ cs2 @ cs3
                               @ [Freq_axis_build (frequency_center self) (frequency_span self)]
                               @ cs5
                               @ [GlFinish]) w)))))"

section \<open>Observing a run\<close>

text \<open>The calls a function has issued: what the log of \<open>w'\<close> has beyond that of \<open>w\<close>.\<close>

definition issued :: "world \<Rightarrow> world \<Rightarrow> call list" where
  "issued w w' = drop (length (calls w)) (calls w')"

text \<open>Whether a request has an option set.\<close>

definition requested :: "fosphor_render \<Rightarrow> c_int \<Rightarrow> bool" where
  "requested render flag = (options render AND flag \<noteq> 0)"

text \<open>The calls of a drawing, if it returns.\<close>

definition drawn :: "config \<Rightarrow> fosphor \<Rightarrow> world \<Rightarrow> fosphor_render \<Rightarrow> call list option" where
  "drawn c self w render =
     (case fosphor_gl_draw c self w render of
        Inl f \<Rightarrow> None
      | Inr w' \<Rightarrow> Some (issued w w'))"

subsection \<open>What a drawing shows\<close>

text \<open>
  The log of a drawing is read as OpenGL reads it. A primitive is what stands between
  \<open>glBegin\<close> and \<open>glEnd\<close>: its mode, the texture and LUT the colormap stage has
  bound (if it is enabled), its texture coordinates and its vertices. The other events
  are a \<open>glDrawArrays\<close>, a call of the axis formatter, a printed label (with its
  position, and the number printed on a power label) and \<open>glFinish\<close>.
\<close>

datatype event =
    Prim gl_enum "(nat \<times> nat) option" "(float \<times> float) list" "(float \<times> float) list"
  | Arrays gl_enum c_int c_int
  | Axis_text int
  | Text_d float float c_int
  | Text_s float float
  | Barrier

record scan =
  sc_bound :: "(nat \<times> nat) option"
  sc_block :: "gl_enum option"
  sc_tex :: "(float \<times> float) list"
  sc_vtx :: "(float \<times> float) list"
  sc_out :: "event list"

definition scan_start :: "event list \<Rightarrow> scan" where
  "scan_start evs =
     \<lparr>sc_bound = None, sc_block = None, sc_tex = [], sc_vtx = [], sc_out = evs\<rparr>"

definition scan_step :: "call \<Rightarrow> scan \<Rightarrow> scan" where
  "scan_step cl s =
     (case cl of
        Fosphor_gl_cmap_enable ctx tex lut sc off m \<Rightarrow> s\<lparr>sc_bound := Some (tex, lut)\<rparr>
      | Fosphor_gl_cmap_disable \<Rightarrow> s\<lparr>sc_bound := None\<rparr>
      | GlBegin m \<Rightarrow> s\<lparr>sc_block := Some m, sc_tex := [], sc_vtx := []\<rparr>
      | GlTexCoord2f u v \<Rightarrow> s\<lparr>sc_tex := sc_tex s @ [(u, v)]\<rparr>
      | GlVertex2f x y \<Rightarrow> s\<lparr>sc_vtx := sc_vtx s @ [(x, y)]\<rparr>
      | GlEnd \<Rightarrow>
          (case sc_block s of
             None \<Rightarrow> s
           | Some m \<Rightarrow>
               s\<lparr>sc_block := None, sc_tex := [], sc_vtx := [],
                 sc_out := sc_out s @ [Prim m (sc_bound s) (sc_tex s) (sc_vtx s)]\<rparr>)
      | GlDrawArrays m first n \<Rightarrow> s\<lparr>sc_out := sc_out s @ [Arrays m first n]\<rparr>
      | Freq_axis_render i \<Rightarrow> s\<lparr>sc_out := sc_out s @ [Axis_text i]\<rparr>
      | Glf_printf_d f x ax y ay v \<Rightarrow> s\<lparr>sc_out := sc_out s @ [Text_d x y v]\<rparr>
      | Glf_printf_s f x ax y ay \<Rightarrow> s\<lparr>sc_out := sc_out s @ [Text_s x y]\<rparr>
      | GlFinish \<Rightarrow> s\<lparr>sc_out := sc_out s @ [Barrier]\<rparr>
      | _ \<Rightarrow> s)"

definition events :: "call list \<Rightarrow> event list" where
  "events cs = sc_out (fold scan_step cs (scan_start []))"

text \<open>The layers of a drawing, in the order drawn.\<close>

datatype layer =
    Textured_quad nat nat
  | Flat_quad
  | Polyline c_int c_int
  | Grid_segment
  | Label
  | Finish

definition layer_of :: "event \<Rightarrow> layer list" where
  "layer_of e =
     (case e of
        Prim m b ts vs \<Rightarrow>
          (if m = GL_QUADS then
             (case b of Some (tex, lut) \<Rightarrow> [Textured_quad tex lut] | None \<Rightarrow> [Flat_quad])
           else if m = GL_LINES then [Grid_segment]
           else [])
      | Arrays m first n \<Rightarrow> [Polyline first n]
      | Axis_text i \<Rightarrow> []
      | Text_d x y v \<Rightarrow> [Label]
      | Text_s x y \<Rightarrow> [Label]
      | Barrier \<Rightarrow> [Finish])"

definition layers :: "call list \<Rightarrow> layer list" where
  "layers cs = concat (map layer_of (events cs))"

text \<open>The runs of points drawn as polylines: first index and count.\<close>

definition polyline_of :: "event \<Rightarrow> (c_int \<times> c_int) list" where
  "polyline_of e = (case e of Arrays m first n \<Rightarrow> [(first, n)] | _ \<Rightarrow> [])"

definition polylines :: "call list \<Rightarrow> (c_int \<times> c_int) list" where
  "polylines cs = concat (map polyline_of (events cs))"

text \<open>The textured quads: texture, and the texture coordinates of the four corners.\<close>

definition tex_quad_of :: "event \<Rightarrow> (nat \<times> (float \<times> float) list) list" where
  "tex_quad_of e =
     (case e of
        Prim m b ts vs \<Rightarrow>
          (case b of Some (tex, lut) \<Rightarrow> (if m = GL_QUADS then [(tex, ts)] else []) | None \<Rightarrow> [])
      | _ \<Rightarrow> [])"

definition tex_quads :: "call list \<Rightarrow> (nat \<times> (float \<times> float) list) list" where
  "tex_quads cs = concat (map tex_quad_of (events cs))"

text \<open>The grid: the line segments, the numbers on the power labels, the divisions
  given to the axis formatter, and the horizontal positions of the frequency labels.\<close>

definition segment_of :: "event \<Rightarrow> (float \<times> float) list list" where
  "segment_of e = (case e of Prim m b ts vs \<Rightarrow> (if m = GL_LINES then [vs] else []) | _ \<Rightarrow> [])"

definition segments :: "call list \<Rightarrow> (float \<times> float) list list" where
  "segments cs = concat (map segment_of (events cs))"

definition power_label_of :: "event \<Rightarrow> c_int list" where
  "power_label_of e = (case e of Text_d x y v \<Rightarrow> [v] | _ \<Rightarrow> [])"

definition power_labels :: "call list \<Rightarrow> c_int list" where
  "power_labels cs = concat (map power_label_of (events cs))"

definition freq_label_of :: "event \<Rightarrow> float list" where
  "freq_label_of e = (case e of Text_s x y \<Rightarrow> [x] | _ \<Rightarrow> [])"

definition freq_labels :: "call list \<Rightarrow> float list" where
  "freq_labels cs = concat (map freq_label_of (events cs))"

subsection \<open>The formulas of the specification\<close>

text \<open>
  The first and the last index of the spectrum polyline as the specification words
  them, \<open>1 + ceil(freq_start * (N - 1) - 0.5)\<close> and
  \<open>1 + floor(freq_stop * (N - 1) - 0.5)\<close>, over the reals and the integers: no
  rounding and no wrap-around.
\<close>

definition spec_first_index :: "int \<Rightarrow> real \<Rightarrow> int" where
  "spec_first_index N a = 1 + \<lceil>a * of_int (N - 1) - 1 / 2\<rceil>"

definition spec_last_index :: "int \<Rightarrow> real \<Rightarrow> int" where
  "spec_last_index N b = 1 + \<lfloor>b * of_int (N - 1) - 1 / 2\<rfloor>"

text \<open>
  \<open>idx[0]\<close> and \<open>idx[1]\<close> of \<open>fosphor_gl_draw\<close>, the same two formulas in the
  arithmetic of the program: single precision, and a conversion to \<open>int\<close>.
\<close>

definition first_index :: "config \<Rightarrow> fosphor_render \<Rightarrow> c_int" where
  "first_index c render =
     1 + f2i (cast_oor c)
           (ceilf (fsub (fmul (freq_start render) (i2f (FOSPHOR_FFT_LEN c - 1))) (flit (1 / 2))))"

definition last_index :: "config \<Rightarrow> fosphor_render \<Rightarrow> c_int" where
  "last_index c render =
     1 + f2i (cast_oor c)
           (floorf (fsub (fmul (freq_stop render) (i2f (FOSPHOR_FFT_LEN c - 1))) (flit (1 / 2))))"

text \<open>
  The horizontal texture coordinate \<open>u = 0.5 + texel_width + (1 - texel_width) * f\<close>
  with \<open>texel_width = 1 / FFT_length\<close>.
\<close>

definition texel_width :: "config \<Rightarrow> float" where
  "texel_width c = fdiv (flit 1) (i2f (FOSPHOR_FFT_LEN c))"

definition tex_u :: "config \<Rightarrow> float \<Rightarrow> float" where
  "tex_u c f = fadd (fadd (flit (1 / 2)) (texel_width c)) (fmul (fsub (flit 1) (texel_width c)) f)"

text \<open>The positions of grid line \<open>i\<close>: \<open>x\<close> of the vertical and \<open>y\<close> of the
  horizontal one.\<close>

definition grid_x :: "fosphor_render \<Rightarrow> int \<Rightarrow> float" where
  "grid_x render i = fadd (fst (priv_x render)) (fmul (i2f (word_of_int i)) (priv_x_div render))"

definition grid_y :: "fosphor_render \<Rightarrow> int \<Rightarrow> float" where
  "grid_y render i =
     fadd (fst (priv_y_histo render)) (fmul (i2f (word_of_int i)) (priv_y_histo_div render))"

subsection \<open>The events of each part of a drawing\<close>

definition waterfall_events :: "config \<Rightarrow> fosphor_gl_state \<Rightarrow> fosphor_render \<Rightarrow> event list" where
  "waterfall_events c g render =
     (if options render AND FRO_WATERFALL c \<noteq> 0 then
        [Prim GL_QUADS (Some (tex_waterfall g, cmap_waterfall g))
           [(tex_u c (freq_start render),
             fsub (fdiv (i2f (priv_wf_pos render)) (flit 1024)) (wf_span render)),
            (tex_u c (freq_stop render),
             fsub (fdiv (i2f (priv_wf_pos render)) (flit 1024)) (wf_span render)),
            (tex_u c (freq_stop render), fdiv (i2f (priv_wf_pos render)) (flit 1024)),
            (tex_u c (freq_start render), fdiv (i2f (priv_wf_pos render)) (flit 1024))]
           [(fst (priv_x render), fst (priv_y_wf render)),
            (snd (priv_x render), fst (priv_y_wf render)),
            (snd (priv_x render), snd (priv_y_wf render)),
            (fst (priv_x render), snd (priv_y_wf render))]]
      else [])"

definition histogram_events :: "config \<Rightarrow> fosphor_gl_state \<Rightarrow> fosphor_render \<Rightarrow> event list" where
  "histogram_events c g render =
     (if options render AND FRO_HISTO c \<noteq> 0 then
        [Prim GL_QUADS (Some (tex_histogram g, cmap_histogram g))
           [(tex_u c (freq_start render), flit 0),
            (tex_u c (freq_stop render), flit 0),
            (tex_u c (freq_stop render), flit 1),
            (tex_u c (freq_start render), flit 1)]
           [(fst (priv_x render), fst (priv_y_histo render)),
            (snd (priv_x render), fst (priv_y_histo render)),
            (snd (priv_x render), snd (priv_y_histo render)),
            (fst (priv_x render), snd (priv_y_histo render))]]
      else if options render AND (FRO_LIVE c OR FRO_MAX_HOLD c) \<noteq> 0 then
        [Prim GL_QUADS None []
           [(fst (priv_x render), fst (priv_y_histo render)),
            (snd (priv_x render), fst (priv_y_histo render)),
            (snd (priv_x render), snd (priv_y_histo render)),
            (fst (priv_x render), snd (priv_y_histo render))]]
      else [])"

definition spectrum_events :: "config \<Rightarrow> fosphor_render \<Rightarrow> event list" where
  "spectrum_events c render =
     (if options render AND FRO_LIVE c \<noteq> 0 then
        [Arrays GL_LINE_STRIP (first_index c render)
           (last_index c render - first_index c render + 1)]
      else [])
     @ (if options render AND FRO_MAX_HOLD c \<noteq> 0 then
          [Arrays GL_LINE_STRIP (first_index c render + FOSPHOR_FFT_LEN c)
             (last_index c render - first_index c render + 1)]
        else [])"

definition grid_line_events :: "config \<Rightarrow> fosphor \<Rightarrow> fosphor_render \<Rightarrow> int \<Rightarrow> event list" where
  "grid_line_events c self render i =
     [Prim GL_LINES None []
        [(fadd (grid_x render i) (flit (1 / 2)), fadd (fst (priv_y_histo render)) (flit (1 / 2))),
         (fadd (grid_x render i) (flit (1 / 2)), fsub (snd (priv_y_histo render)) (flit (1 / 2)))],
      Prim GL_LINES None []
        [(fadd (fst (priv_x render)) (flit (1 / 2)), fadd (grid_y render i) (flit (1 / 2))),
         (fsub (snd (priv_x render)) (flit (1 / 2)), fadd (grid_y render i) (flit (1 / 2)))]]
     @ (if options render AND FRO_LABEL_PWR c \<noteq> 0 then
          [Text_d (priv_x_label render) (grid_y render i)
             (power_db_ref self - (10 - word_of_int i) * power_db_per_div self)]
        else [])
     @ (if options render AND FRO_LABEL_FREQ c \<noteq> 0 then
          [Axis_text (i - 5),
           Text_s (fadd (grid_x render i)
                     (if i = 0 then flit 5 else if i = 10 then flit (- 5) else flit 0))
             (priv_y_label render)]
        else [])"

definition grid_events :: "config \<Rightarrow> fosphor \<Rightarrow> fosphor_render \<Rightarrow> event list" where
  "grid_events c self render =
     (if options render AND (FRO_LIVE c OR FRO_MAX_HOLD c OR FRO_HISTO c) \<noteq> 0 then
        concat (map (grid_line_events c self render) [0..10])
      else [])"

definition draw_events ::
  "config \<Rightarrow> fosphor \<Rightarrow> fosphor_gl_state \<Rightarrow> fosphor_render \<Rightarrow> event list" where
  "draw_events c self g render =
     waterfall_events c g render @ histogram_events c g render @ spectrum_events c render
     @ grid_events c self render @ [Barrier]"

subsection \<open>Objects made and released\<close>

datatype obj = State_obj nat | Font_obj nat | Cmap_obj nat | Texture_obj nat | Buffer_obj nat

definition created :: "call \<Rightarrow> obj list" where
  "created cl =
     (case cl of
        Malloc p \<Rightarrow> (case p of None \<Rightarrow> [] | Some a \<Rightarrow> [State_obj a])
      | Glf_alloc sz p \<Rightarrow> (case p of None \<Rightarrow> [] | Some a \<Rightarrow> [Font_obj a])
      | Fosphor_gl_cmap_init p \<Rightarrow> (case p of None \<Rightarrow> [] | Some a \<Rightarrow> [Cmap_obj a])
      | Fosphor_gl_cmap_generate gen n rv t \<Rightarrow> (if t = 0 then [] else [Texture_obj t])
      | GlGenTextures t \<Rightarrow> [Texture_obj t]
      | GlGenBuffers b \<Rightarrow> [Buffer_obj b]
      | _ \<Rightarrow> [])"

definition released :: "call \<Rightarrow> obj list" where
  "released cl =
     (case cl of
        Free a \<Rightarrow> [State_obj a]
      | Glf_free p \<Rightarrow> (case p of None \<Rightarrow> [] | Some a \<Rightarrow> [Font_obj a])
      | Fosphor_gl_cmap_release p \<Rightarrow> (case p of None \<Rightarrow> [] | Some a \<Rightarrow> [Cmap_obj a])
      | GlDeleteTextures t \<Rightarrow> (if t = 0 then [] else [Texture_obj t])
      | GlDeleteBuffers b \<Rightarrow> (if b = 0 then [] else [Buffer_obj b])
      | _ \<Rightarrow> [])"

definition creations :: "call list \<Rightarrow> obj list" where
  "creations cs = concat (map created cs)"

definition releases :: "call list \<Rightarrow> obj list" where
  "releases cs = concat (map released cs)"

text \<open>Striking a name or a pointer from the books: 0 and NULL name nothing.\<close>

definition del_name :: "nat \<Rightarrow> nat list \<Rightarrow> nat list" where
  "del_name n xs = (if n = 0 then xs else removeAll n xs)"

definition del_ptr :: "nat option \<Rightarrow> nat list \<Rightarrow> nat list" where
  "del_ptr p xs = (case p of None \<Rightarrow> xs | Some a \<Rightarrow> removeAll a xs)"

text \<open>What is resident in a world.\<close>

definition resident ::
  "world \<Rightarrow> (nat \<times> fosphor_gl_state) list \<times> nat list \<times> nat list \<times> nat list \<times> nat list" where
  "resident w = (heap w, textures w, buffers w, fonts w, cmap_ctxs w)"

text \<open>
  The two phases of the life of a renderer. Constructed: the host-side resources
  exist (font, colormap context, the two LUTs) and the deferred initialisation is
  still to come. GpuReady: the flag is set and the three GPU objects exist.
\<close>

definition host_ready :: "world \<Rightarrow> fosphor \<Rightarrow> bool" where
  "host_ready w self =
     (case deref w (gl self) of
        None \<Rightarrow> False
      | Some g \<Rightarrow>
          init_complete g = 0
        \<and> (case font g of None \<Rightarrow> False | Some p \<Rightarrow> p \<in> set (fonts w))
        \<and> (case cmap_ctx g of None \<Rightarrow> False | Some p \<Rightarrow> p \<in> set (cmap_ctxs w))
        \<and> cmap_waterfall g \<in> set (textures w)
        \<and> cmap_histogram g \<in> set (textures w)
        \<and> cmap_waterfall g \<noteq> cmap_histogram g)"

definition gpu_ready :: "world \<Rightarrow> fosphor \<Rightarrow> bool" where
  "gpu_ready w self =
     (case deref w (gl self) of
        None \<Rightarrow> False
      | Some g \<Rightarrow>
          init_complete g \<noteq> 0
        \<and> tex_waterfall g \<in> set (textures w)
        \<and> tex_histogram g \<in> set (textures w)
        \<and> vbo_spectrum g \<in> set (buffers w))"

text \<open>
  The failure kinds of the specification, the first step of \<open>fosphor_gl_init\<close> that
  fails under given outcomes, and the value returned for it.
\<close>

datatype failure_kind = OutOfMemory | ResourceMissing | FontLoadError | ColormapError

definition failed_step :: "init_outcome \<Rightarrow> failure_kind option" where
  "failed_step oc =
     (if \<not> malloc_ok oc \<or> \<not> glf_alloc_ok oc then Some OutOfMemory
      else if \<not> resource_found oc then Some ResourceMissing
      else if glf_load_rv oc \<noteq> 0 then Some FontLoadError
      else if \<not> cmap_init_ok oc \<or> gen_waterfall_rv oc \<noteq> 0 \<or> gen_histogram_rv oc \<noteq> 0
        then Some ColormapError
      else None)"

definition failure_code :: "init_outcome \<Rightarrow> failure_kind \<Rightarrow> c_int" where
  "failure_code oc k =
     (case k of
        OutOfMemory \<Rightarrow> - ENOMEM
      | ResourceMissing \<Rightarrow> - ENOENT
      | FontLoadError \<Rightarrow> glf_load_rv oc
      | ColormapError \<Rightarrow>
          (if cmap_init_ok oc then 0 else 1) OR gen_waterfall_rv oc OR gen_histogram_rv oc)"

text \<open>
  A client that asks for shared names one after the other; each request comes with
  the driver's answer to a mapping of the buffer, should one be asked.
\<close>

fun get_shared_ids ::
  "config \<Rightarrow> fosphor \<Rightarrow> world \<Rightarrow> (bool \<times> fosphor_gl_id) list \<Rightarrow> fault + nat list \<times> world" where
  "get_shared_ids c self w [] = Inr ([], w)"
| "get_shared_ids c self w ((map_ok, ident) # rest) =
     (case fosphor_gl_get_shared_id c map_ok self w ident of
        Inl f \<Rightarrow> Inl f
      | Inr (h, w') \<Rightarrow>
         (case get_shared_ids c self w' rest of
            Inl f \<Rightarrow> Inl f
          | Inr (hs, w'') \<Rightarrow> Inr (h # hs, w'')))"

text \<open>The name a renderer holds for a shared resource.\<close>

definition shared_name :: "world \<Rightarrow> fosphor \<Rightarrow> fosphor_gl_id \<Rightarrow> nat" where
  "shared_name w self ident =
     (case deref w (gl self) of
        None \<Rightarrow> 0
      | Some g \<Rightarrow>
         (case ident of
            GL_ID_TEX_WATERFALL \<Rightarrow> tex_waterfall g
          | GL_ID_TEX_HISTOGRAM \<Rightarrow> tex_histogram g
          | GL_ID_VBO_SPECTRUM \<Rightarrow> vbo_spectrum g
          | GL_ID_OTHER n \<Rightarrow> 0))"

section \<open>A concrete setting\<close>

text \<open>
  An instance of the constants: the FFT length 1024 and six distinct one-bit option
  masks; an out-of-range conversion delivers the most negative \<open>int\<close>, as x86 does.
\<close>

definition cfg1024 :: config where
  "cfg1024 =
     \<lparr>FOSPHOR_FFT_LEN = 1024, FRO_LIVE = 1, FRO_MAX_HOLD = 2, FRO_HISTO = 4,
      FRO_WATERFALL = 8, FRO_LABEL_PWR = 32, FRO_LABEL_FREQ = 16,
      cast_oor = 2147483648\<rparr>"

text \<open>A renderer whose GPU objects exist, in a world that holds nothing else.\<close>

definition gl_ready :: fosphor_gl_state where
  "gl_ready =
     \<lparr>init_complete = 1, font = Some 1, cmap_ctx = Some 1, cmap_waterfall = 1,
      cmap_histogram = 2, tex_waterfall = 3, tex_histogram = 4, vbo_spectrum = 1\<rparr>"

definition world_ready :: world where
  "world_ready =
     \<lparr>heap = [(1, gl_ready)], textures = [1, 2, 3, 4], buffers = [1], fonts = [1],
      cmap_ctxs = [1], calls = []\<rparr>"

definition self_ready :: fosphor where
  "self_ready =
     \<lparr>gl = Some 1, power_db_ref = 0, power_db_per_div = 10,
      power_scale = Finite (1 / 128), power_offset = Finite 128,
      frequency_center = 100000000, frequency_span = 2000000\<rparr>"

text \<open>A request for every layer over the full frequency window, the waterfall at
  row 5 with a span of 10.\<close>

definition render_all :: fosphor_render where
  "render_all =
     \<lparr>options = 63, freq_start = Finite 0, freq_stop = Finite 1, wf_span = Finite 10,
      priv_wf_pos = 5, priv_x_div = Finite 64, priv_y_histo_div = Finite 32,
      priv_x = (Finite 48, Finite 688), priv_y_histo = (Finite 16, Finite 336),
      priv_y_wf = (Finite 352, Finite 608), priv_x_label = Finite 40,
      priv_y_label = Finite 8\<rparr>"


definition render_scroll :: fosphor_render where
  "render_scroll = render_all\<lparr>options := 8, priv_wf_pos := 1023, wf_span := flit (1 / 10)\<rparr>"

text \<open>A request for the live polyline alone, and one for both polylines over the
  window from 0 to \<open>17409 / 32768\<close>, a single-precision value.\<close>

definition render_live :: fosphor_render where
  "render_live = render_all\<lparr>options := 1\<rparr>"

definition render_stop :: fosphor_render where
  "render_stop = render_all\<lparr>options := 3, freq_stop := Finite (17409 / 32768)\<rparr>"

text \<open>An empty world, a renderer that was never initialised, a short FFT length,
  and outcomes under which every step of the initialisation succeeds.\<close>

definition world_empty :: world where
  "world_empty =
     \<lparr>heap = [], textures = [], buffers = [], fonts = [], cmap_ctxs = [], calls = []\<rparr>"

definition self_new :: fosphor where
  "self_new = self_ready\<lparr>gl := None\<rparr>"

definition cfg32 :: config where
  "cfg32 = cfg1024\<lparr>FOSPHOR_FFT_LEN := 32\<rparr>"

definition all_ok :: init_outcome where
  "all_ok =
     \<lparr>malloc_ok = True, glf_alloc_ok = True, resource_found = True, glf_load_rv = 0,
      cmap_init_ok = True, gen_waterfall_rv = 0, gen_waterfall_partial = False,
      gen_histogram_rv = 0, gen_histogram_partial = False\<rparr>"

text \<open>A renderer after \<open>fosphor_gl_init\<close>, its GPU objects still to be made.\<close>

definition gl_constructed :: fosphor_gl_state where
  "gl_constructed =
     \<lparr>init_complete = 0, font = Some 1, cmap_ctx = Some 1, cmap_waterfall = 1,
      cmap_histogram = 2, tex_waterfall = 0, tex_histogram = 0, vbo_spectrum = 0\<rparr>"

definition world_constructed :: world where
  "world_constructed =
     \<lparr>heap = [(1, gl_constructed)], textures = [1, 2], buffers = [], fonts = [1],
      cmap_ctxs = [1], calls = []\<rparr>"

section \<open>Properties\<close>

subsection \<open>Rounding to single precision\<close>

lemma pow2_powi: "pow2 q = 2 powi q"
  by (simp add: pow2_def power_int_def inverse_eq_divide power_one_over)

lemma pow2_pos: "0 < pow2 q"
  by (simp add: pow2_powi)

lemma pow2_add: "pow2 (a + b) = pow2 a * pow2 b"
  by (simp add: pow2_powi power_int_add)

lemma pow2_nonneg_int: "0 \<le> q \<Longrightarrow> pow2 q = of_int (2 ^ nat q)"
  by (simp add: pow2_def)

lemma pow2_mono: "a \<le> b \<Longrightarrow> pow2 a \<le> pow2 b"
  by (simp add: pow2_powi power_int_increasing)

lemma round_even_of_int: "round_even (of_int k) = k"
  by (simp add: round_even_def)

lemma ulp_exp_found:
  "a < pow2 (q + 24) \<Longrightarrow> q0 \<le> q \<Longrightarrow> q < q0 + int k
     \<Longrightarrow> \<exists>q'. ulp_exp k q0 a = Some q' \<and> q0 \<le> q' \<and> q' \<le> q"
proof (induction k arbitrary: q0)
  case 0
  then show ?case by simp
next
  case (Suc k)
  show ?case
  proof (cases "a < pow2 (q0 + 24)")
    case True
    with Suc.prems show ?thesis by simp
  next
    case False
    have "q0 \<noteq> q"
      using False Suc.prems(1) by auto
    with Suc.prems have "q0 + 1 \<le> q" "q < (q0 + 1) + int k"
      by auto
    from Suc.IH [OF Suc.prems(1) this] False show ?thesis
      by auto
  qed
qed

lemma ulp_exp_range:
  "ulp_exp k q0 a = Some q \<Longrightarrow> q0 \<le> q \<and> q < q0 + int k \<and> a < pow2 (q + 24)"
proof (induction k arbitrary: q0)
  case 0
  then show ?case by simp
next
  case (Suc k)
  show ?case
  proof (cases "a < pow2 (q0 + 24)")
    case True
    with Suc.prems show ?thesis by simp
  next
    case False
    with Suc.prems have "ulp_exp k (q0 + 1) a = Some q"
      by simp
    from Suc.IH [OF this] show ?thesis
      by auto
  qed
qed

lemma rnd32_exact:
  assumes m: "\<bar>m\<bar> < 2 ^ 24" and q: "- 149 \<le> q" "q \<le> 104"
  shows "rnd32 (of_int m * pow2 q) = Finite (of_int m * pow2 q)"
proof -
  let ?x = "of_int m * pow2 q :: real"
  have "\<bar>of_int m :: real\<bar> < 2 ^ 24"
    using m by (metis of_int_abs of_int_less_numeral_power_cancel_iff)
  then have lt: "\<bar>?x\<bar> < pow2 (q + 24)"
    using pow2_pos [of q] by (simp add: pow2_add abs_mult pow2_def [of 24])
  from ulp_exp_found [OF lt, of "- 149" 254] q
  obtain q' where q': "ulp_exp 254 (- 149) \<bar>?x\<bar> = Some q'" "- 149 \<le> q'" "q' \<le> q"
    by auto
  have "pow2 q = pow2 (q - q') * pow2 q'"
    using pow2_add [of "q - q'" q'] by simp
  then have "?x / pow2 q' = of_int m * pow2 (q - q')"
    using pow2_pos [of q'] by simp
  also have "\<dots> = of_int (m * 2 ^ nat (q - q'))"
    using q' by (simp add: pow2_nonneg_int)
  finally have "round_even (?x / pow2 q') = m * 2 ^ nat (q - q')"
    by (simp only: round_even_of_int)
  then have "of_int (round_even (?x / pow2 q')) * pow2 q' = of_int m * pow2 (q - q') * pow2 q'"
    using q' by (simp add: pow2_nonneg_int)
  also have "\<dots> = ?x"
    using pow2_add [of "q - q'" q'] by simp
  finally have y: "of_int (round_even (?x / pow2 q')) * pow2 q' = ?x" .
  have "pow2 (q + 24) \<le> pow2 128"
    using q by (intro pow2_mono) simp
  then have "\<bar>?x\<bar> < 2 ^ 128"
    using lt by (simp add: pow2_def)
  with q' y show ?thesis
    by (simp add: rnd32_def Let_def)
qed

lemma rnd32_int: "\<bar>m\<bar> < 2 ^ 24 \<Longrightarrow> rnd32 (of_int m) = Finite (of_int m)"
  using rnd32_exact [of m 0] by (simp add: pow2_def)

lemma rnd32_half_int: "\<bar>m\<bar> < 2 ^ 24 \<Longrightarrow> rnd32 (of_int m / 2) = Finite (of_int m / 2)"
  using rnd32_exact [of m "- 1"] by (simp add: pow2_def)

lemma rnd32_idem:
  assumes "rnd32 x = Finite y"
  shows "rnd32 y = Finite y"
proof -
  from assms obtain q where q: "ulp_exp 254 (- 149) \<bar>x\<bar> = Some q"
    by (auto simp: rnd32_def split: option.splits)
  define m where "m = round_even (x / pow2 q)"
  from assms q have y: "y = of_int m * pow2 q" and fin: "\<bar>y\<bar> < 2 ^ 128"
    by (auto simp: rnd32_def Let_def m_def split: if_splits)
  from ulp_exp_range [OF q] have rq: "- 149 \<le> q" "q \<le> 104" and lt: "\<bar>x\<bar> < pow2 (q + 24)"
    by auto
  have "\<bar>x / pow2 q\<bar> < 2 ^ 24"
    using lt pow2_pos [of q] by (simp add: pow2_add pow2_def [of 24] pos_divide_less_eq abs_of_pos)
  then have t: "- (2 ^ 24) < x / pow2 q" "x / pow2 q < 2 ^ 24"
    by (simp_all only: abs_less_iff) linarith+
  define f where "f = \<lfloor>x / pow2 q\<rfloor>"
  have "- (2 ^ 24) \<le> f" "f < 2 ^ 24"
    using t by (simp_all add: f_def le_floor_iff floor_less_iff)
  moreover have "m = f \<or> m = f + 1"
    by (simp add: m_def f_def round_even_def Let_def)
  ultimately have m_le: "\<bar>m\<bar> \<le> 2 ^ 24"
    by linarith
  show ?thesis
  proof (cases "\<bar>m\<bar> < 2 ^ 24")
    case True
    from rnd32_exact [OF True rq] y show ?thesis
      by simp
  next
    case False
    with m_le have am: "\<bar>m\<bar> = 2 ^ 24"
      by simp
    then have "\<bar>y\<bar> = 2 ^ 24 * pow2 q"
      using pow2_pos [of q] by (simp add: y abs_mult)
    then have ay: "\<bar>y\<bar> = pow2 (q + 24)"
      by (simp add: pow2_add pow2_def [of 24])
    have "q < 104"
    proof (rule ccontr)
      assume "\<not> q < 104"
      then have "pow2 128 \<le> pow2 (q + 24)"
        by (intro pow2_mono) simp
      with fin ay show False
        by (simp add: pow2_def)
    qed
    with rq have rq': "- 149 \<le> q + 1" "q + 1 \<le> 104"
      by auto
    define h where "h = m div 2"
    from am have "m = 2 ^ 24 \<or> m = - (2 ^ 24)"
      by linarith
    then have m2: "m = 2 * h" and ah: "\<bar>h\<bar> < 2 ^ 24"
      unfolding h_def by auto
    have "y = of_int h * pow2 (q + 1)"
      by (simp add: y m2 pow2_add pow2_def [of 1])
    with rnd32_exact [OF ah rq'] show ?thesis
      by simp
  qed
qed

text \<open>
  The error of a rounding: half a unit in the last place, which is at most
  \<open>\<bar>x\<bar> / 2 ^ 24\<close> for a normal and \<open>1 / 2 ^ 150\<close> for a subnormal result.
\<close>

lemma round_even_error: "\<bar>of_int (round_even z) - z\<bar> \<le> 1 / 2"
  unfolding round_even_def Let_def by (auto simp: abs_le_iff)

lemma ulp_exp_least:
  "ulp_exp k q0 a = Some q \<Longrightarrow> q = q0 \<or> pow2 (q + 23) \<le> a"
proof (induction k arbitrary: q0)
  case 0
  then show ?case by simp
next
  case (Suc k)
  show ?case
  proof (cases "a < pow2 (q0 + 24)")
    case True
    with Suc.prems show ?thesis by simp
  next
    case False
    with Suc.prems have "ulp_exp k (q0 + 1) a = Some q"
      by simp
    from Suc.IH [OF this] have "q = q0 + 1 \<or> pow2 (q + 23) \<le> a" .
    then show ?thesis
    proof
      assume "q = q0 + 1"
      then have "pow2 (q + 23) = pow2 (q0 + 24)"
        by (simp add: add.commute add.left_commute)
      with False show ?thesis by simp
    qed simp
  qed
qed

lemma rnd32_error:
  assumes x: "\<bar>x\<bar> \<le> 2 ^ 24"
  shows "\<exists>y. rnd32 x = Finite y \<and> \<bar>y - x\<bar> \<le> \<bar>x\<bar> / 2 ^ 24 + 1 / 2 ^ 150"
proof -
  have "\<bar>x\<bar> < pow2 (1 + 24)"
    using x by (simp add: pow2_def)
  from ulp_exp_found [OF this, of "- 149" 254]
  obtain q where q: "ulp_exp 254 (- 149) \<bar>x\<bar> = Some q" "- 149 \<le> q" "q \<le> 1"
    by auto
  define y where "y = of_int (round_even (x / pow2 q)) * pow2 q"
  have "y - x = (of_int (round_even (x / pow2 q)) - x / pow2 q) * pow2 q"
    using pow2_pos [of q] by (simp add: y_def algebra_simps)
  then have "\<bar>y - x\<bar> = \<bar>of_int (round_even (x / pow2 q)) - x / pow2 q\<bar> * pow2 q"
    using pow2_pos [of q] by (simp add: abs_mult)
  also have "\<dots> \<le> 1 / 2 * pow2 q"
    using round_even_error [of "x / pow2 q"] pow2_pos [of q]
    by (intro mult_right_mono) simp_all
  finally have e: "\<bar>y - x\<bar> \<le> pow2 q / 2"
    by simp
  have b: "pow2 q / 2 \<le> \<bar>x\<bar> / 2 ^ 24 + 1 / 2 ^ 150"
  proof (cases "q = - 149")
    case True
    then have "pow2 q / 2 = 1 / 2 ^ 150"
      by (simp add: pow2_def)
    then show ?thesis by simp
  next
    case False
    with ulp_exp_least [OF q(1)] have "pow2 (q + 23) \<le> \<bar>x\<bar>"
      by simp
    moreover have "pow2 (q + 23) = pow2 q * 2 ^ 23"
      by (simp add: pow2_add pow2_def [of 23])
    ultimately have "pow2 q / 2 \<le> \<bar>x\<bar> / 2 ^ 24"
      by simp
    then show ?thesis
      by (simp add: add_increasing2)
  qed
  have "pow2 q \<le> pow2 1"
    using q by (intro pow2_mono) simp
  then have "pow2 q / 2 \<le> 1"
    by (simp add: pow2_def)
  with e x have "\<bar>y\<bar> \<le> 2 ^ 24 + 1"
    by linarith
  then have "\<bar>y\<bar> < 2 ^ 128"
    by simp
  with q e b show ?thesis
    by (simp add: rnd32_def Let_def y_def)
qed


lemma fadd_zero: "fadd (fadd a b) (flit 0) = fadd a b"
proof -
  have z: "flit 0 = Finite 0"
    using rnd32_int [of 0] by (simp add: flit_def)
  show ?thesis
  proof (cases "fadd a b")
    case (Finite y)
    then have "rnd32 y = Finite y"
      by (cases a; cases b) (auto dest: rnd32_idem)
    with Finite z show ?thesis by simp
  next
    case NonFinite
    then show ?thesis by simp
  qed
qed

lemma flit_int: "\<bar>m\<bar> < 2 ^ 24 \<Longrightarrow> flit (of_int m) = Finite (of_int m)"
  by (simp add: flit_def rnd32_int)

lemma flit_half: "flit (1 / 2) = Finite (1 / 2)"
  using rnd32_half_int [of 1] by (simp add: flit_def)

lemma flit_1024: "flit 1024 = Finite 1024"
  using rnd32_int [of 1024] by (simp add: flit_def)

lemma i2f_exact: "\<bar>sint i\<bar> < 2 ^ 24 \<Longrightarrow> i2f i = Finite (of_int (sint i))"
  unfolding i2f_def by (rule rnd32_int)

subsection \<open>The calls of a drawing\<close>

lemma issued_emit: "issued w (emit cs w) = cs"
  by (simp add: issued_def emit_def)

lemma draw_waterfall_Some: "\<exists>cs. draw_waterfall c self (Some g) render tw = Inr cs"
  by (simp add: draw_waterfall_def Let_def)

lemma draw_histogram_Some: "\<exists>cs. draw_histogram c (Some g) render tw = Inr cs"
  by (simp add: draw_histogram_def Let_def)

lemma draw_spectrum_Some: "\<exists>cs. draw_spectrum c self (Some g) render tw bw = Inr cs"
  by (simp add: draw_spectrum_def Let_def)

lemma draw_grid_Some: "\<exists>cs. draw_grid c self (Some g) render = Inr cs"
  by (simp add: draw_grid_def)

lemma draw_parts:
  assumes "draw_waterfall c self (deref w (gl self)) render
             (fdiv (flit 1) (i2f (FOSPHOR_FFT_LEN c))) = Inr cs1"
    and "draw_histogram c (deref w (gl self)) render
             (fdiv (flit 1) (i2f (FOSPHOR_FFT_LEN c))) = Inr cs2"
    and "draw_spectrum c self (deref w (gl self)) render
             (fdiv (flit 1) (i2f (FOSPHOR_FFT_LEN c)))
             (fdiv (flit 1) (i2f (FOSPHOR_FFT_LEN c - 1))) = Inr cs3"
    and "draw_grid c self (deref w (gl self)) render = Inr cs5"
  shows "fosphor_gl_draw c self w render =
           Inr (emit (cs1 @ cs2 @ cs3
                      @ [Freq_axis_build (frequency_center self) (frequency_span self)]
                      @ cs5 @ [GlFinish]) w)"
  using assms by (simp add: fosphor_gl_draw_def Let_def)

lemma draw_no_layer_parts:
  assumes "options render = 0"
  shows "draw_waterfall c self gp render tw = Inr []"
    and "draw_histogram c gp render tw = Inr []"
    and "draw_spectrum c self gp render tw bw = Inr []"
    and "draw_grid c self gp render = Inr []"
  using assms
  by (simp_all add: draw_waterfall_def draw_histogram_def draw_spectrum_def draw_grid_def)

lemma fft_len_1024: "FOSPHOR_FFT_LEN cfg1024 = 1024"
  by (simp add: cfg1024_def)

lemma deref_world_ready: "deref world_ready (gl self_ready) = Some gl_ready"
  by (simp add: deref_def world_ready_def self_ready_def)

subsection \<open>The events of a drawing\<close>

lemma scan_waterfall:
  assumes "draw_waterfall c self (Some g) render (texel_width c) = Inr cs"
  shows "fold scan_step cs (scan_start evs) = scan_start (evs @ waterfall_events c g render)"
  using assms
  by (auto simp: draw_waterfall_def waterfall_events_def tex_u_def Let_def scan_step_def
      scan_start_def split: if_splits)

lemma scan_histogram:
  assumes "draw_histogram c (Some g) render (texel_width c) = Inr cs"
  shows "fold scan_step cs (scan_start evs) = scan_start (evs @ histogram_events c g render)"
  using assms
  by (auto simp: draw_histogram_def histogram_events_def tex_u_def Let_def scan_step_def
      scan_start_def split: if_splits)

lemma flag_or: "(x AND (a OR b) = 0) = (x AND a = 0 \<and> x AND b = 0)" for x :: c_int
  by (simp add: bit.conj_disj_distrib or_eq_0_iff)

lemma scan_spectrum:
  assumes "draw_spectrum c self (Some g) render tw bw = Inr cs"
  shows "fold scan_step cs (scan_start evs) = scan_start (evs @ spectrum_events c render)"
  using assms
  by (auto simp: draw_spectrum_def spectrum_events_def Let_def scan_step_def scan_start_def
      first_index_def last_index_def flag_or split: if_splits)

lemma scan_grid_line:
  "fold scan_step (grid_line c self g render i) (scan_start evs) =
     scan_start (evs @ grid_line_events c self render i)"
  by (simp add: grid_line_def grid_line_events_def Let_def scan_step_def scan_start_def
      grid_x_def grid_y_def)

lemma scan_grid_lines:
  "fold scan_step (concat (map (grid_line c self g render) is)) (scan_start evs) =
     scan_start (evs @ concat (map (grid_line_events c self render) is))"
  by (induction "is" arbitrary: evs) (simp_all add: scan_grid_line)

lemma grid_loop_upto:
  "grid_loop c self g render i = concat (map (grid_line c self g render) [i..10])"
proof (induction c self g render i rule: grid_loop.induct)
  case (1 c self g render i)
  show ?case
  proof (cases "i < 11")
    case True
    then have "[i..10] = i # [i + 1..10]"
      by (simp add: upto_rec1)
    with True "1" show ?thesis
      by (simp add: grid_loop.simps [of c self g render i])
  next
    case False
    then show ?thesis
      by (simp add: grid_loop.simps [of c self g render i])
  qed
qed

lemma scan_grid:
  assumes "draw_grid c self (Some g) render = Inr cs"
  shows "fold scan_step cs (scan_start evs) = scan_start (evs @ grid_events c self render)"
  using assms
  by (auto simp: draw_grid_def grid_events_def grid_loop_upto scan_grid_lines split: if_splits)

lemma draw_events_eq:
  assumes "deref w (gl self) = Some g"
  shows "\<exists>w'. fosphor_gl_draw c self w render = Inr w'
           \<and> events (issued w w') = draw_events c self g render
           \<and> resident w' = resident w"
proof -
  let ?tw = "fdiv (flit 1) (i2f (FOSPHOR_FFT_LEN c))"
  let ?bw = "fdiv (flit 1) (i2f (FOSPHOR_FFT_LEN c - 1))"
  obtain cs1 cs2 cs3 cs5 where
    parts: "draw_waterfall c self (Some g) render ?tw = Inr cs1"
      "draw_histogram c (Some g) render ?tw = Inr cs2"
      "draw_spectrum c self (Some g) render ?tw ?bw = Inr cs3"
      "draw_grid c self (Some g) render = Inr cs5"
    using draw_waterfall_Some [of c self g render ?tw]
      draw_histogram_Some [of c g render ?tw]
      draw_spectrum_Some [of c self g render ?tw ?bw]
      draw_grid_Some [of c self g render]
    by blast
  let ?cs = "cs1 @ cs2 @ cs3
             @ [Freq_axis_build (frequency_center self) (frequency_span self)] @ cs5
             @ [GlFinish]"
  have d: "fosphor_gl_draw c self w render = Inr (emit ?cs w)"
    using draw_parts [of c self w render cs1 cs2 cs3 cs5] parts assms by simp
  have tail: "fold scan_step
                [Freq_axis_build (frequency_center self) (frequency_span self)] (scan_start evs)
              = scan_start evs"
    "fold scan_step [GlFinish] (scan_start evs) = scan_start (evs @ [Barrier])" for evs
    by (simp_all add: scan_step_def scan_start_def)
  have "fold scan_step ?cs (scan_start []) = scan_start (draw_events c self g render)"
    using parts
    by (simp only: fold_append o_apply scan_waterfall [unfolded texel_width_def]
        scan_histogram [unfolded texel_width_def] scan_spectrum scan_grid tail draw_events_def
        append_Nil append_assoc)
  then have "events ?cs = draw_events c self g render"
    by (simp add: events_def scan_start_def)
  moreover have "resident (emit ?cs w) = resident w"
    by (simp add: resident_def emit_def)
  ultimately show ?thesis
    using d by (simp add: issued_emit)
qed

subsection \<open>The full frequency window\<close>

lemma sint_of_int_32: "- (2 ^ 31) \<le> k \<Longrightarrow> k < 2 ^ 31 \<Longrightarrow> sint (word_of_int k :: c_int) = k"
  by (simp add: sint_sbintrunc' signed_take_bit_int_eq_self)

lemma sint_eq_32: "sint i = k \<Longrightarrow> i = word_of_int k" for i :: c_int
  by auto

lemma sint_pred_32: "- (2 ^ 31) < sint n \<Longrightarrow> sint (n - 1) = sint n - 1" for n :: c_int
  using sint_lt [of n] by (simp add: sint_word_diff signed_take_bit_int_eq_self)

lemma i2f_of_int: "\<bar>k\<bar> < 2 ^ 24 \<Longrightarrow> i2f (word_of_int k) = Finite (of_int k)"
  using i2f_exact [of "word_of_int k"] by (simp add: sint_of_int_32 del: of_int_sint)

lemma full_window_indices:
  assumes fs: "freq_start render = Finite 0" and fe: "freq_stop render = Finite 1"
    and n: "1 \<le> sint (FOSPHOR_FFT_LEN c)" "sint (FOSPHOR_FFT_LEN c) \<le> 2 ^ 23"
  shows "first_index c render = 1" and "last_index c render = FOSPHOR_FFT_LEN c - 1"
proof -
  define k where "k = sint (FOSPHOR_FFT_LEN c)"
  have k: "1 \<le> k" "k \<le> 2 ^ 23"
    using n by (simp_all add: k_def)
  have s1: "sint (FOSPHOR_FFT_LEN c - 1) = k - 1"
    using n by (simp add: k_def sint_pred_32)
  have f1: "i2f (FOSPHOR_FFT_LEN c - 1) = Finite (of_int (k - 1))"
    using i2f_exact [of "FOSPHOR_FFT_LEN c - 1"] k by (simp only: s1) simp
  have half: "flit (1 / 2) = Finite (1 / 2)"
    by (rule flit_half)
  have z: "rnd32 0 = Finite 0"
    using rnd32_int [of 0] by simp
  have mh: "rnd32 (- (1 / 2)) = Finite (- (1 / 2))"
    using rnd32_half_int [of "- 1"] by simp
  have ce: "\<lceil>- (1 / 2) :: real\<rceil> = 0"
    by (simp add: ceiling_eq_iff)
  have "ceilf (fsub (fmul (freq_start render) (i2f (FOSPHOR_FFT_LEN c - 1))) (flit (1 / 2)))
          = Finite 0"
    by (simp add: fs f1 half z mh ce del: of_int_diff)
  then show "first_index c render = 1"
    by (simp add: first_index_def)
  have p: "rnd32 (of_int (k - 1)) = Finite (of_int (k - 1))"
    using rnd32_int [of "k - 1"] k by simp
  have "(of_int (k - 1) :: real) - 1 / 2 = of_int (2 * k - 3) / 2"
    by simp
  moreover have "rnd32 (of_int (2 * k - 3) / 2) = Finite (of_int (2 * k - 3) / 2)"
    using rnd32_half_int [of "2 * k - 3"] k by simp
  ultimately have d: "rnd32 (of_int (k - 1) - 1 / 2) = Finite (of_int (2 * k - 3) / 2)"
    by (simp only:)
  have fl: "\<lfloor>(of_int (2 * k - 3) :: real) / 2\<rfloor> = k - 2"
    by (simp add: floor_eq_iff) 
  have "floorf (fsub (fmul (freq_stop render) (i2f (FOSPHOR_FFT_LEN c - 1))) (flit (1 / 2)))
          = Finite (of_int (k - 2))"
    using p d fl by (simp add: fe f1 half del: of_int_diff of_int_mult)
  then have "last_index c render = 1 + word_of_int (k - 2)"
    using k by (simp add: last_index_def Let_def del: of_int_diff) 
  also have "\<dots> = word_of_int k - 1"
    by simp
  also have "word_of_int k = FOSPHOR_FFT_LEN c"
    by (simp add: k_def)
  finally show "last_index c render = FOSPHOR_FFT_LEN c - 1" .
qed

subsection \<open>The indices of the polyline and the exact formulas\<close>

text \<open>
  For a frequency \<open>a\<close> from 0 to 1 and an FFT length \<open>N\<close> from 1 to \<open>2 ^ 23\<close>
  the operand of \<open>ceilf\<close> and \<open>floorf\<close> is finite: the product \<open>a * (N - 1)\<close>
  rounded, less one half, rounded again. It is less than \<open>N / 2 ^ 23\<close> away from the
  exact \<open>a * (N - 1) - 1 / 2\<close>.
\<close>

lemma index_operand:
  fixes N :: int
  assumes a: "0 \<le> a" "a \<le> 1"
    and n: "sint (FOSPHOR_FFT_LEN c) = N" "1 \<le> N" "N \<le> 2 ^ 23"
  shows "\<exists>p s. rnd32 (a * of_int (N - 1)) = Finite p \<and> rnd32 (p - 1 / 2) = Finite s
           \<and> fsub (fmul (Finite a) (i2f (FOSPHOR_FFT_LEN c - 1))) (flit (1 / 2)) = Finite s
           \<and> \<bar>s - (a * of_int (N - 1) - 1 / 2)\<bar> < of_int N / 2 ^ 23"
proof -
  define M :: real where "M = of_int (N - 1)"
  have M: "0 \<le> M" "M \<le> 2 ^ 23 - 1"
    using n by (simp_all add: M_def)
  have s1: "sint (FOSPHOR_FFT_LEN c - 1) = N - 1"
    using n by (simp add: sint_pred_32)
  have f1: "i2f (FOSPHOR_FFT_LEN c - 1) = Finite M"
    using i2f_exact [of "FOSPHOR_FFT_LEN c - 1"] n by (simp only: s1 M_def) simp
  have am: "0 \<le> a * M" "a * M \<le> M"
    using a M by (simp_all add: mult_left_le_one_le)
  then have "\<bar>a * M\<bar> \<le> 2 ^ 24"
    using M by simp
  from rnd32_error [OF this] obtain p
    where p: "rnd32 (a * M) = Finite p" "\<bar>p - a * M\<bar> \<le> \<bar>a * M\<bar> / 2 ^ 24 + 1 / 2 ^ 150"
    by blast
  have e1: "\<bar>p - a * M\<bar> \<le> M / 2 ^ 24 + 1 / 2 ^ 150"
    using p(2) am by simp
  have "\<bar>p - 1 / 2\<bar> \<le> M + M / 2 ^ 24 + 1 / 2 ^ 150 + 1 / 2"
    using e1 am by linarith
  then have ph: "\<bar>p - 1 / 2\<bar> \<le> M + M / 2 ^ 24 + 1 / 2 ^ 150 + 1 / 2" .
  then have "\<bar>p - 1 / 2\<bar> \<le> 2 ^ 24"
    using M by simp
  from rnd32_error [OF this] obtain s
    where s: "rnd32 (p - 1 / 2) = Finite s"
      "\<bar>s - (p - 1 / 2)\<bar> \<le> \<bar>p - 1 / 2\<bar> / 2 ^ 24 + 1 / 2 ^ 150"
    by blast
  have "\<bar>p - 1 / 2\<bar> / 2 ^ 24 \<le> (M + M / 2 ^ 24 + 1 / 2 ^ 150 + 1 / 2) / 2 ^ 24"
    using ph by (simp add: divide_right_mono)
  with s(2) have e2: "\<bar>s - (p - 1 / 2)\<bar> \<le> (M + M / 2 ^ 24 + 1 / 2 ^ 150 + 1 / 2) / 2 ^ 24 + 1 / 2 ^ 150"
    by linarith
  have "\<bar>s - (a * M - 1 / 2)\<bar> \<le> \<bar>s - (p - 1 / 2)\<bar> + \<bar>p - a * M\<bar>"
    by linarith
  with e1 e2 have "\<bar>s - (a * M - 1 / 2)\<bar>
      \<le> (M + M / 2 ^ 24 + 1 / 2 ^ 150 + 1 / 2) / 2 ^ 24 + 1 / 2 ^ 150 + (M / 2 ^ 24 + 1 / 2 ^ 150)"
    by linarith
  also have "\<dots> < (M + 1) / 2 ^ 23"
    using M by (simp add: field_simps)
  also have "M + 1 = of_int N"
    by (simp add: M_def)
  finally have b: "\<bar>s - (a * M - 1 / 2)\<bar> < of_int N / 2 ^ 23" .
  have "fsub (fmul (Finite a) (i2f (FOSPHOR_FFT_LEN c - 1))) (flit (1 / 2)) = Finite s"
    by (simp add: f1 flit_half p s)
  with p s b show ?thesis
    unfolding M_def by blast
qed


lemma f2i_of_int: "- (2 ^ 31) \<le> k \<Longrightarrow> k < 2 ^ 31 \<Longrightarrow> f2i oor (Finite (of_int k)) = word_of_int k"
  by (simp add: Let_def)

lemma sint_succ_of_int_32:
  "- (2 ^ 31) \<le> 1 + k \<Longrightarrow> 1 + k < 2 ^ 31 \<Longrightarrow> sint (1 + word_of_int k :: c_int) = 1 + k"
  using sint_of_int_32 [of "1 + k"] by simp

lemma operand_range:
  fixes N :: int and a s :: real
  assumes a: "0 \<le> a" "a \<le> 1" and n: "1 \<le> N" "N \<le> 2 ^ 23"
    and s: "\<bar>s - (a * of_int (N - 1) - 1 / 2)\<bar> < of_int N / 2 ^ 23"
  shows "\<bar>s - (a * of_int (N - 1) - 1 / 2)\<bar> < 1" and "- 3 / 2 < s" and "s < of_int N - 1 / 2"
proof -
  have "(of_int N :: real) \<le> 2 ^ 23"
    using n by (metis of_int_le_numeral_power_cancel_iff)
  then have "(of_int N :: real) / 2 ^ 23 \<le> 1"
    by simp
  with s show b: "\<bar>s - (a * of_int (N - 1) - 1 / 2)\<bar> < 1"
    by linarith
  have "0 \<le> a * of_int (N - 1)" "a * of_int (N - 1) \<le> (of_int (N - 1) :: real)"
    using a n by (simp_all add: mult_left_le_one_le)
  with b show "- 3 / 2 < s" and "s < of_int N - 1 / 2"
    by (simp_all add: abs_less_iff)
qed

lemma first_index_value:
  fixes N :: int
  assumes fs: "freq_start render = Finite a" and a: "0 \<le> a" "a \<le> 1"
    and n: "sint (FOSPHOR_FFT_LEN c) = N" "1 \<le> N" "N \<le> 2 ^ 23"
  shows "\<exists>p s. rnd32 (a * of_int (N - 1)) = Finite p \<and> rnd32 (p - 1 / 2) = Finite s
           \<and> sint (first_index c render) = 1 + \<lceil>s\<rceil>
           \<and> \<bar>s - (a * of_int (N - 1) - 1 / 2)\<bar> < of_int N / 2 ^ 23"
proof -
  from index_operand [OF a n] obtain p s
    where p: "rnd32 (a * of_int (N - 1)) = Finite p" "rnd32 (p - 1 / 2) = Finite s"
      and v: "fsub (fmul (Finite a) (i2f (FOSPHOR_FFT_LEN c - 1))) (flit (1 / 2)) = Finite s"
      and b: "\<bar>s - (a * of_int (N - 1) - 1 / 2)\<bar> < of_int N / 2 ^ 23"
    by blast
  from operand_range [OF a n(2,3) b] have "- 3 / 2 < s" "s < of_int N - 1 / 2"
    by simp_all
  then have r: "- 1 \<le> \<lceil>s\<rceil>" "\<lceil>s\<rceil> \<le> N"
    by (simp_all add: le_ceiling_iff ceiling_le_iff)
  define k where "k = \<lceil>s\<rceil>"
  have "- (2 ^ 31) \<le> k" "k < 2 ^ 31" "- (2 ^ 31) \<le> 1 + k" "1 + k < 2 ^ 31"
    using r n unfolding k_def [symmetric] by simp_all
  then have r': "- (2 ^ 31) \<le> \<lceil>s\<rceil>" "\<lceil>s\<rceil> < 2 ^ 31" "- (2 ^ 31) \<le> 1 + \<lceil>s\<rceil>" "1 + \<lceil>s\<rceil> < 2 ^ 31"
    unfolding k_def .
  have "first_index c render = 1 + word_of_int \<lceil>s\<rceil>"
    unfolding first_index_def fs v ceilf.simps by (simp only: f2i_of_int [OF r'(1,2)])
  then have "sint (first_index c render) = 1 + \<lceil>s\<rceil>"
    by (simp only: sint_succ_of_int_32 [OF r'(3,4)])
  with p b show ?thesis
    by blast
qed

lemma last_index_value:
  fixes N :: int
  assumes fe: "freq_stop render = Finite b" and a: "0 \<le> b" "b \<le> 1"
    and n: "sint (FOSPHOR_FFT_LEN c) = N" "1 \<le> N" "N \<le> 2 ^ 23"
  shows "\<exists>p s. rnd32 (b * of_int (N - 1)) = Finite p \<and> rnd32 (p - 1 / 2) = Finite s
           \<and> sint (last_index c render) = 1 + \<lfloor>s\<rfloor>
           \<and> \<bar>s - (b * of_int (N - 1) - 1 / 2)\<bar> < of_int N / 2 ^ 23"
proof -
  from index_operand [OF a n] obtain p s
    where p: "rnd32 (b * of_int (N - 1)) = Finite p" "rnd32 (p - 1 / 2) = Finite s"
      and v: "fsub (fmul (Finite b) (i2f (FOSPHOR_FFT_LEN c - 1))) (flit (1 / 2)) = Finite s"
      and b: "\<bar>s - (b * of_int (N - 1) - 1 / 2)\<bar> < of_int N / 2 ^ 23"
    by blast
  from operand_range [OF a n(2,3) b] have "- 3 / 2 < s" "s < of_int N - 1 / 2"
    by simp_all
  then have r: "- 2 \<le> \<lfloor>s\<rfloor>" "\<lfloor>s\<rfloor> \<le> N"
    by (simp_all add: le_floor_iff floor_le_iff)
  define k where "k = \<lfloor>s\<rfloor>"
  have "- (2 ^ 31) \<le> k" "k < 2 ^ 31" "- (2 ^ 31) \<le> 1 + k" "1 + k < 2 ^ 31"
    using r n unfolding k_def [symmetric] by simp_all
  then have r': "- (2 ^ 31) \<le> \<lfloor>s\<rfloor>" "\<lfloor>s\<rfloor> < 2 ^ 31" "- (2 ^ 31) \<le> 1 + \<lfloor>s\<rfloor>" "1 + \<lfloor>s\<rfloor> < 2 ^ 31"
    unfolding k_def .
  have "last_index c render = 1 + word_of_int \<lfloor>s\<rfloor>"
    unfolding last_index_def fe v floorf.simps by (simp only: f2i_of_int [OF r'(1,2)])
  then have "sint (last_index c render) = 1 + \<lfloor>s\<rfloor>"
    by (simp only: sint_succ_of_int_32 [OF r'(3,4)])
  with p b show ?thesis
    by blast
qed

lemma ceiling_near: "\<bar>s - x\<bar> < 1 \<Longrightarrow> \<bar>\<lceil>s\<rceil> - \<lceil>x\<rceil>\<bar> \<le> 1" for s x :: real
  by linarith

lemma floor_near: "\<bar>s - x\<bar> < 1 \<Longrightarrow> \<bar>\<lfloor>s\<rfloor> - \<lfloor>x\<rfloor>\<bar> \<le> 1" for s x :: real
  by linarith


lemma sint_run_32:
  fixes i0 i1 n :: c_int and N :: int
  assumes "sint n = N" "1 \<le> N" "N \<le> 2 ^ 23"
    and "0 \<le> sint i0" "sint i0 \<le> 1 + N" "- 1 \<le> sint i1" "sint i1 \<le> 1 + N"
  shows "sint (i1 - i0 + 1) = sint i1 - sint i0 + 1" and "sint (i0 + n) = sint i0 + N"
proof -
  have "i1 - i0 + 1 = word_of_int (sint i1 - sint i0 + 1)"
    by simp
  moreover have "- (2 ^ 31) \<le> sint i1 - sint i0 + 1" "sint i1 - sint i0 + 1 < 2 ^ 31"
    using assms by simp_all
  ultimately show "sint (i1 - i0 + 1) = sint i1 - sint i0 + 1"
    by (simp only: sint_of_int_32)
  have "i0 + n = word_of_int (sint i0 + N)"
    using assms(1) by auto
  moreover have "- (2 ^ 31) \<le> sint i0 + N" "sint i0 + N < 2 ^ 31"
    using assms by simp_all
  ultimately show "sint (i0 + n) = sint i0 + N"
    by (simp only: sint_of_int_32)
qed

subsection \<open>What the events show\<close>

lemma drawn_events:
  assumes "deref w (gl self) = Some g"
  shows "map_option events (drawn c self w render) = Some (draw_events c self g render)"
  using draw_events_eq [OF assms, of c render] by (auto simp: drawn_def)

lemma concat_map_concat:
  "concat (map f (concat (map h xs))) = concat (map (\<lambda>x. concat (map f (h x))) xs)"
  by (induction xs) simp_all

lemma concat_map_Nil: "concat (map (\<lambda>x. []) xs) = []"
  by (induction xs) simp_all

lemma requested_or:
  "(options render AND (a OR b) \<noteq> 0) = (requested render a \<or> requested render b)"
  by (auto simp: requested_def flag_or)

lemma requested_or3:
  "(options render AND (a OR b OR d) \<noteq> 0) =
     (requested render a \<or> requested render b \<or> requested render d)"
  by (auto simp: requested_def flag_or)

lemma grid_events_proj:
  "concat (map f (grid_events c self render)) =
     (if requested render (FRO_LIVE c) \<or> requested render (FRO_MAX_HOLD c)
         \<or> requested render (FRO_HISTO c) then
        concat (map (\<lambda>i. concat (map f (grid_line_events c self render i))) [0..10])
      else [])"
  unfolding grid_events_def requested_or3 by (simp only: concat_map_concat if_distrib [of "\<lambda>xs. concat (map f xs)"] list.map concat.simps)

lemma polylines_grid_line: "concat (map polyline_of (grid_line_events c self render i)) = []"
  unfolding grid_line_events_def by (auto simp: polyline_of_def)

lemma polylines_draw:
  "concat (map polyline_of (draw_events c self g render)) =
     (if requested render (FRO_LIVE c) then
        [(first_index c render, last_index c render - first_index c render + 1)]
      else [])
     @ (if requested render (FRO_MAX_HOLD c) then
          [(first_index c render + FOSPHOR_FFT_LEN c,
            last_index c render - first_index c render + 1)]
        else [])"
proof -
  have w: "concat (map polyline_of (waterfall_events c g render)) = []"
    by (auto simp: waterfall_events_def polyline_of_def)
  have h: "concat (map polyline_of (histogram_events c g render)) = []"
    by (auto simp: histogram_events_def polyline_of_def)
  have gr: "concat (map polyline_of (grid_events c self render)) = []"
    unfolding grid_events_proj polylines_grid_line by (simp only: concat_map_Nil if_cancel)
  have s: "concat (map polyline_of (spectrum_events c render)) =
     (if requested render (FRO_LIVE c) then
        [(first_index c render, last_index c render - first_index c render + 1)]
      else [])
     @ (if requested render (FRO_MAX_HOLD c) then
          [(first_index c render + FOSPHOR_FFT_LEN c,
            last_index c render - first_index c render + 1)]
        else [])"
    by (simp add: spectrum_events_def polyline_of_def requested_def)
  show ?thesis
    unfolding draw_events_def map_append concat_append w h s gr
    by (simp add: polyline_of_def)
qed

lemma layers_grid_line:
  "concat (map layer_of (grid_line_events c self render i)) =
     [Grid_segment, Grid_segment]
     @ (if requested render (FRO_LABEL_PWR c) then [Label] else [])
     @ (if requested render (FRO_LABEL_FREQ c) then [Label] else [])"
  by (simp add: grid_line_events_def layer_of_def requested_def)

lemma const_upto_0_10: "map (\<lambda>i. k) [0..10::int] = replicate 11 k"
  by (simp add: map_replicate_const)

lemma layers_draw:
  "concat (map layer_of (draw_events c self g render)) =
     (if requested render (FRO_WATERFALL c) then
        [Textured_quad (tex_waterfall g) (cmap_waterfall g)]
      else [])
     @ (if requested render (FRO_HISTO c) then
          [Textured_quad (tex_histogram g) (cmap_histogram g)]
        else if requested render (FRO_LIVE c) \<or> requested render (FRO_MAX_HOLD c) then
          [Flat_quad]
        else [])
     @ (if requested render (FRO_LIVE c) then
          [Polyline (first_index c render) (last_index c render - first_index c render + 1)]
        else [])
     @ (if requested render (FRO_MAX_HOLD c) then
          [Polyline (first_index c render + FOSPHOR_FFT_LEN c)
             (last_index c render - first_index c render + 1)]
        else [])
     @ (if requested render (FRO_LIVE c) \<or> requested render (FRO_MAX_HOLD c)
           \<or> requested render (FRO_HISTO c) then
          concat (replicate 11
            ([Grid_segment, Grid_segment]
             @ (if requested render (FRO_LABEL_PWR c) then [Label] else [])
             @ (if requested render (FRO_LABEL_FREQ c) then [Label] else [])))
        else [])
     @ [Finish]"
proof -
  have gr: "concat (map layer_of (grid_events c self render)) =
     (if requested render (FRO_LIVE c) \<or> requested render (FRO_MAX_HOLD c)
           \<or> requested render (FRO_HISTO c) then
          concat (replicate 11
            ([Grid_segment, Grid_segment]
             @ (if requested render (FRO_LABEL_PWR c) then [Label] else [])
             @ (if requested render (FRO_LABEL_FREQ c) then [Label] else [])))
        else [])"
    unfolding grid_events_proj layers_grid_line const_upto_0_10 ..
  have w: "concat (map layer_of (waterfall_events c g render)) =
     (if requested render (FRO_WATERFALL c) then
        [Textured_quad (tex_waterfall g) (cmap_waterfall g)]
      else [])"
    by (simp add: waterfall_events_def layer_of_def requested_def)
  have h: "concat (map layer_of (histogram_events c g render)) =
     (if requested render (FRO_HISTO c) then
          [Textured_quad (tex_histogram g) (cmap_histogram g)]
        else if requested render (FRO_LIVE c) \<or> requested render (FRO_MAX_HOLD c) then
          [Flat_quad]
        else [])"
    unfolding histogram_events_def requested_or by (simp add: layer_of_def requested_def)
  have s: "concat (map layer_of (spectrum_events c render)) =
     (if requested render (FRO_LIVE c) then
          [Polyline (first_index c render) (last_index c render - first_index c render + 1)]
        else [])
     @ (if requested render (FRO_MAX_HOLD c) then
          [Polyline (first_index c render + FOSPHOR_FFT_LEN c)
             (last_index c render - first_index c render + 1)]
        else [])"
    by (simp add: spectrum_events_def layer_of_def requested_def)
  show ?thesis
    unfolding draw_events_def map_append concat_append w h s gr
    by (simp add: layer_of_def)
qed

lemma concat_map_single: "concat (map (\<lambda>x. [h x]) xs) = map h xs"
  by (induction xs) simp_all

lemma tex_quads_draw:
  "concat (map tex_quad_of (draw_events c self g render)) =
     (if requested render (FRO_WATERFALL c) then
        [(tex_waterfall g,
          [(tex_u c (freq_start render),
            fsub (fdiv (i2f (priv_wf_pos render)) (flit 1024)) (wf_span render)),
           (tex_u c (freq_stop render),
            fsub (fdiv (i2f (priv_wf_pos render)) (flit 1024)) (wf_span render)),
           (tex_u c (freq_stop render), fdiv (i2f (priv_wf_pos render)) (flit 1024)),
           (tex_u c (freq_start render), fdiv (i2f (priv_wf_pos render)) (flit 1024))])]
      else [])
     @ (if requested render (FRO_HISTO c) then
          [(tex_histogram g,
            [(tex_u c (freq_start render), flit 0),
             (tex_u c (freq_stop render), flit 0),
             (tex_u c (freq_stop render), flit 1),
             (tex_u c (freq_start render), flit 1)])]
        else [])"
proof -
  have gl: "concat (map tex_quad_of (grid_line_events c self render i)) = []" for i
    unfolding grid_line_events_def by (auto simp: tex_quad_of_def)
  have gr: "concat (map tex_quad_of (grid_events c self render)) = []"
    unfolding grid_events_proj gl by (simp only: concat_map_Nil if_cancel)
  have s: "concat (map tex_quad_of (spectrum_events c render)) = []"
    by (auto simp: spectrum_events_def tex_quad_of_def)
  have w: "concat (map tex_quad_of (waterfall_events c g render)) =
     (if requested render (FRO_WATERFALL c) then
        [(tex_waterfall g,
          [(tex_u c (freq_start render),
            fsub (fdiv (i2f (priv_wf_pos render)) (flit 1024)) (wf_span render)),
           (tex_u c (freq_stop render),
            fsub (fdiv (i2f (priv_wf_pos render)) (flit 1024)) (wf_span render)),
           (tex_u c (freq_stop render), fdiv (i2f (priv_wf_pos render)) (flit 1024)),
           (tex_u c (freq_start render), fdiv (i2f (priv_wf_pos render)) (flit 1024))])]
      else [])"
    by (simp add: waterfall_events_def tex_quad_of_def requested_def)
  have h: "concat (map tex_quad_of (histogram_events c g render)) =
     (if requested render (FRO_HISTO c) then
          [(tex_histogram g,
            [(tex_u c (freq_start render), flit 0),
             (tex_u c (freq_stop render), flit 0),
             (tex_u c (freq_stop render), flit 1),
             (tex_u c (freq_start render), flit 1)])]
        else [])"
    by (simp add: histogram_events_def tex_quad_of_def requested_def)
  show ?thesis
    unfolding draw_events_def map_append concat_append w h s gr
    by (simp add: tex_quad_of_def)
qed

lemma segments_draw:
  "concat (map segment_of (draw_events c self g render)) =
     (if requested render (FRO_LIVE c) \<or> requested render (FRO_MAX_HOLD c)
         \<or> requested render (FRO_HISTO c) then
        concat (map (\<lambda>i.
          [[(fadd (grid_x render i) (flit (1 / 2)),
             fadd (fst (priv_y_histo render)) (flit (1 / 2))),
            (fadd (grid_x render i) (flit (1 / 2)),
             fsub (snd (priv_y_histo render)) (flit (1 / 2)))],
           [(fadd (fst (priv_x render)) (flit (1 / 2)), fadd (grid_y render i) (flit (1 / 2))),
            (fsub (snd (priv_x render)) (flit (1 / 2)), fadd (grid_y render i) (flit (1 / 2)))]])
          [0..10])
      else [])"
proof -
  have gl: "concat (map segment_of (grid_line_events c self render i)) =
          [[(fadd (grid_x render i) (flit (1 / 2)),
             fadd (fst (priv_y_histo render)) (flit (1 / 2))),
            (fadd (grid_x render i) (flit (1 / 2)),
             fsub (snd (priv_y_histo render)) (flit (1 / 2)))],
           [(fadd (fst (priv_x render)) (flit (1 / 2)), fadd (grid_y render i) (flit (1 / 2))),
            (fsub (snd (priv_x render)) (flit (1 / 2)), fadd (grid_y render i) (flit (1 / 2)))]]"
    for i
    unfolding grid_line_events_def by (auto simp: segment_of_def)
  have s: "concat (map segment_of (spectrum_events c render)) = []"
    by (auto simp: spectrum_events_def segment_of_def)
  have w: "concat (map segment_of (waterfall_events c g render)) = []"
    by (auto simp: waterfall_events_def segment_of_def)
  have h: "concat (map segment_of (histogram_events c g render)) = []"
    by (auto simp: histogram_events_def segment_of_def)
  show ?thesis
    unfolding draw_events_def map_append concat_append w h s grid_events_proj gl
    by (simp add: segment_of_def)
qed

lemma power_labels_draw:
  "concat (map power_label_of (draw_events c self g render)) =
     (if (requested render (FRO_LIVE c) \<or> requested render (FRO_MAX_HOLD c)
          \<or> requested render (FRO_HISTO c)) \<and> requested render (FRO_LABEL_PWR c) then
        map (\<lambda>i. power_db_ref self - (10 - word_of_int i) * power_db_per_div self) [0..10]
      else [])"
proof -
  have gl: "concat (map power_label_of (grid_line_events c self render i)) =
          (if requested render (FRO_LABEL_PWR c) then
             [power_db_ref self - (10 - word_of_int i) * power_db_per_div self]
           else [])"
    for i
    unfolding grid_line_events_def by (auto simp: power_label_of_def requested_def)
  have s: "concat (map power_label_of (spectrum_events c render)) = []"
    by (auto simp: spectrum_events_def power_label_of_def)
  have w: "concat (map power_label_of (waterfall_events c g render)) = []"
    by (auto simp: waterfall_events_def power_label_of_def)
  have h: "concat (map power_label_of (histogram_events c g render)) = []"
    by (auto simp: histogram_events_def power_label_of_def)
  show ?thesis
    unfolding draw_events_def map_append concat_append w h s grid_events_proj gl
    by (simp add: power_label_of_def concat_map_single concat_map_Nil)
qed

lemma freq_labels_draw:
  "concat (map freq_label_of (draw_events c self g render)) =
     (if (requested render (FRO_LIVE c) \<or> requested render (FRO_MAX_HOLD c)
          \<or> requested render (FRO_HISTO c)) \<and> requested render (FRO_LABEL_FREQ c) then
        map (\<lambda>i. fadd (grid_x render i)
                   (if i = 0 then flit 5 else if i = 10 then flit (- 5) else flit 0)) [0..10]
      else [])"
proof -
  have gl: "concat (map freq_label_of (grid_line_events c self render i)) =
          (if requested render (FRO_LABEL_FREQ c) then
             [fadd (grid_x render i)
                (if i = 0 then flit 5 else if i = 10 then flit (- 5) else flit 0)]
           else [])"
    for i
    unfolding grid_line_events_def by (auto simp: freq_label_of_def requested_def)
  have s: "concat (map freq_label_of (spectrum_events c render)) = []"
    by (auto simp: spectrum_events_def freq_label_of_def)
  have w: "concat (map freq_label_of (waterfall_events c g render)) = []"
    by (auto simp: waterfall_events_def freq_label_of_def)
  have h: "concat (map freq_label_of (histogram_events c g render)) = []"
    by (auto simp: histogram_events_def freq_label_of_def)
  show ?thesis
    unfolding draw_events_def map_append concat_append w h s grid_events_proj gl
    by (simp add: freq_label_of_def concat_map_single concat_map_Nil)
qed

lemma grid_x_zero: "fadd (grid_x render i) (flit 0) = grid_x render i"
  unfolding grid_x_def by (rule fadd_zero)

lemma freq_label_positions:
  "map (\<lambda>i. fadd (grid_x render i)
              (if i = 0 then flit 5 else if i = 10 then flit (- 5) else flit 0)) [0..10]
   = map (\<lambda>i. if i = 0 then fadd (grid_x render 0) (Finite 5)
               else if i = 10 then fadd (grid_x render 10) (Finite (- 5))
               else grid_x render i) [0..10]"
proof -
  have "flit 5 = Finite 5" "flit (- 5) = Finite (- 5)"
    using flit_int [of 5] flit_int [of "- 5"] by simp_all
  then show ?thesis
    by (intro map_cong) (auto simp: grid_x_zero)
qed

lemma label_value_int:
  fixes r d :: c_int
  assumes "- (2 ^ 31) \<le> sint r - (10 - i) * sint d" "sint r - (10 - i) * sint d < 2 ^ 31"
  shows "sint (r - (10 - word_of_int i) * d) = sint r - (10 - i) * sint d"
proof -
  have "r - (10 - word_of_int i) * d = word_of_int (sint r - (10 - i) * sint d)"
    by simp
  then show ?thesis
    using sint_of_int_32 [OF assms] by simp
qed

subsection \<open>The completion barrier\<close>

text \<open>
  C8. Every call of \<open>fosphor_gl_draw\<close> on a renderer whose state structure is live,
  whatever the request, and every call with no option set, returns, and the last call
  it has issued is \<open>glFinish\<close>.
\<close>

theorem draw_ends_with_barrier:
  assumes "deref w (gl self) \<noteq> None \<or> options render = 0"
  shows "\<exists>w' cs. fosphor_gl_draw c self w render = Inr w'
           \<and> issued w w' = cs @ [GlFinish]
           \<and> last (calls w') = GlFinish"
proof -
  let ?tw = "fdiv (flit 1) (i2f (FOSPHOR_FFT_LEN c))"
  let ?bw = "fdiv (flit 1) (i2f (FOSPHOR_FFT_LEN c - 1))"
  let ?gp = "deref w (gl self)"
  have "\<exists>cs1 cs2 cs3 cs5.
          draw_waterfall c self ?gp render ?tw = Inr cs1
        \<and> draw_histogram c ?gp render ?tw = Inr cs2
        \<and> draw_spectrum c self ?gp render ?tw ?bw = Inr cs3
        \<and> draw_grid c self ?gp render = Inr cs5"
  proof (cases "options render = 0")
    case True
    then show ?thesis
      by (simp add: draw_no_layer_parts)
  next
    case False
    with assms obtain g where "?gp = Some g"
      by auto
    then show ?thesis
      using draw_waterfall_Some [of c self g render ?tw]
        draw_histogram_Some [of c g render ?tw]
        draw_spectrum_Some [of c self g render ?tw ?bw]
        draw_grid_Some [of c self g render]
      by auto
  qed
  then obtain cs1 cs2 cs3 cs5 where
    parts: "draw_waterfall c self ?gp render ?tw = Inr cs1"
      "draw_histogram c ?gp render ?tw = Inr cs2"
      "draw_spectrum c self ?gp render ?tw ?bw = Inr cs3"
      "draw_grid c self ?gp render = Inr cs5"
    by blast
  let ?cs = "cs1 @ cs2 @ cs3
             @ [Freq_axis_build (frequency_center self) (frequency_span self)] @ cs5"
  have "fosphor_gl_draw c self w render = Inr (emit (?cs @ [GlFinish]) w)"
    using draw_parts [OF parts] by simp
  moreover have "issued w (emit (?cs @ [GlFinish]) w) = ?cs @ [GlFinish]"
    by (rule issued_emit)
  moreover have "last (calls (emit (?cs @ [GlFinish]) w)) = GlFinish"
    by (simp add: emit_def)
  ultimately show ?thesis
    by blast
qed

theorem draw_ends_with_barrier_witness:
  "deref world_ready (gl self_ready) = Some gl_ready
   \<and> (\<exists>w' cs. fosphor_gl_draw cfg1024 self_ready world_ready render_all = Inr w'
         \<and> issued world_ready w' = cs @ [GlFinish]
         \<and> last (calls w') = GlFinish)"
proof -
  have h: "deref world_ready (gl self_ready) \<noteq> None \<or> options render_all = 0"
    by (simp add: deref_world_ready)
  show ?thesis
    using draw_ends_with_barrier [OF h, of cfg1024] deref_world_ready by simp
qed

subsection \<open>The spectrum polylines\<close>

lemma drawn_proj:
  assumes "deref w (gl self) = Some g" and "\<And>cs. p cs = q (events cs)"
  shows "map_option p (drawn c self w render) = Some (q (draw_events c self g render))"
proof -
  from drawn_events [OF assms(1), of c render]
  obtain cs where "drawn c self w render = Some cs" "events cs = draw_events c self g render"
    by (cases "drawn c self w render") auto
  then show ?thesis
    by (simp add: assms(2))
qed

lemma drawn_polylines:
  assumes "deref w (gl self) = Some g"
  shows "map_option polylines (drawn c self w render) =
           Some ((if requested render (FRO_LIVE c) then
                    [(first_index c render, last_index c render - first_index c render + 1)]
                  else [])
                 @ (if requested render (FRO_MAX_HOLD c) then
                      [(first_index c render + FOSPHOR_FFT_LEN c,
                        last_index c render - first_index c render + 1)]
                    else []))"
  using drawn_proj [OF assms, of polylines "\<lambda>evs. concat (map polyline_of evs)" c render]
  by (simp only: polylines_def polylines_draw)

lemma requested_all:
  "requested render_all (FRO_LIVE cfg1024)" "requested render_all (FRO_MAX_HOLD cfg1024)"
  "requested render_all (FRO_HISTO cfg1024)" "requested render_all (FRO_WATERFALL cfg1024)"
  "requested render_all (FRO_LABEL_PWR cfg1024)" "requested render_all (FRO_LABEL_FREQ cfg1024)"
  by (simp_all add: requested_def render_all_def cfg1024_def)

text \<open>
  C1, as the code has it. On a live renderer, for \<open>freq_start = a\<close> and
  \<open>freq_stop = b\<close> from 0 to 1 and an FFT length \<open>N\<close> from 1 to \<open>2 ^ 23\<close>, the
  polylines drawn are, in this order, the live one (if requested) from the index
  \<open>i0\<close> and the max-hold one (if requested) from \<open>i0 + N\<close>, both of
  \<open>i1 - i0 + 1\<close> points, none of these sums wrapping around, where
  \<open>i0 = 1 + \<lceil>s0\<rceil>\<close> and \<open>i1 = 1 + \<lfloor>s1\<rfloor>\<close> for the single-precision values \<open>s0\<close> of
  \<open>a * (N - 1) - 0.5\<close> and \<open>s1\<close> of \<open>b * (N - 1) - 0.5\<close>: the product rounded, less
  one half, rounded again. \<open>s0\<close> and \<open>s1\<close> are less than \<open>N / 2 ^ 23\<close> away from
  the exact values, so that each index is at most one away from the formula of the
  specification in exact arithmetic, and equal to it where the two operations are
  exact. For the full window \<open>a = 0\<close>, \<open>b = 1\<close> the run is from index 1 to index
  \<open>N - 1\<close>.
\<close>

theorem spectrum_polyline_run:
  fixes N :: int
  assumes g: "deref w (gl self) = Some g"
    and fs: "freq_start render = Finite a" and a: "0 \<le> a" "a \<le> 1"
    and fe: "freq_stop render = Finite b" and b: "0 \<le> b" "b \<le> 1"
    and n: "sint (FOSPHOR_FFT_LEN c) = N" "1 \<le> N" "N \<le> 2 ^ 23"
  shows "\<exists>p0 s0 p1 s1 i0 i1.
           rnd32 (a * of_int (N - 1)) = Finite p0 \<and> rnd32 (p0 - 1 / 2) = Finite s0
         \<and> rnd32 (b * of_int (N - 1)) = Finite p1 \<and> rnd32 (p1 - 1 / 2) = Finite s1
         \<and> sint i0 = 1 + \<lceil>s0\<rceil> \<and> sint i1 = 1 + \<lfloor>s1\<rfloor>
         \<and> map_option polylines (drawn c self w render) =
             Some ((if requested render (FRO_LIVE c) then [(i0, i1 - i0 + 1)] else [])
                   @ (if requested render (FRO_MAX_HOLD c) then
                        [(i0 + FOSPHOR_FFT_LEN c, i1 - i0 + 1)]
                      else []))
         \<and> sint (i1 - i0 + 1) = sint i1 - sint i0 + 1
         \<and> sint (i0 + FOSPHOR_FFT_LEN c) = sint i0 + N
         \<and> \<bar>s0 - (a * of_int (N - 1) - 1 / 2)\<bar> < of_int N / 2 ^ 23
         \<and> \<bar>s1 - (b * of_int (N - 1) - 1 / 2)\<bar> < of_int N / 2 ^ 23
         \<and> \<bar>sint i0 - spec_first_index N a\<bar> \<le> 1
         \<and> \<bar>sint i1 - spec_last_index N b\<bar> \<le> 1
         \<and> (p0 = a * of_int (N - 1) \<and> s0 = p0 - 1 / 2 \<longrightarrow> sint i0 = spec_first_index N a)
         \<and> (p1 = b * of_int (N - 1) \<and> s1 = p1 - 1 / 2 \<longrightarrow> sint i1 = spec_last_index N b)
         \<and> (a = 0 \<and> b = 1 \<longrightarrow> sint i0 = 1 \<and> sint i1 = N - 1)"
proof -
  from first_index_value [OF fs a n] obtain p0 s0
    where p0: "rnd32 (a * of_int (N - 1)) = Finite p0" "rnd32 (p0 - 1 / 2) = Finite s0"
      and i0: "sint (first_index c render) = 1 + \<lceil>s0\<rceil>"
      and e0: "\<bar>s0 - (a * of_int (N - 1) - 1 / 2)\<bar> < of_int N / 2 ^ 23"
    by blast
  from last_index_value [OF fe b n] obtain p1 s1
    where p1: "rnd32 (b * of_int (N - 1)) = Finite p1" "rnd32 (p1 - 1 / 2) = Finite s1"
      and i1: "sint (last_index c render) = 1 + \<lfloor>s1\<rfloor>"
      and e1: "\<bar>s1 - (b * of_int (N - 1) - 1 / 2)\<bar> < of_int N / 2 ^ 23"
    by blast
  note r0 = operand_range [OF a n(2,3) e0]
  note r1 = operand_range [OF b n(2,3) e1]
  have c0: "- 1 \<le> \<lceil>s0\<rceil>" "\<lceil>s0\<rceil> \<le> N"
    using r0(2,3) by (simp_all add: le_ceiling_iff ceiling_le_iff)
  have c1: "- 2 \<le> \<lfloor>s1\<rfloor>" "\<lfloor>s1\<rfloor> \<le> N"
    using r1(2,3) by (simp_all add: le_floor_iff floor_le_iff)
  have w: "sint (last_index c render - first_index c render + 1)
             = sint (last_index c render) - sint (first_index c render) + 1"
    "sint (first_index c render + FOSPHOR_FFT_LEN c) = sint (first_index c render) + N"
    using sint_run_32 [OF n, of "first_index c render" "last_index c render"] c0 c1
    by (simp_all add: i0 i1)
  have d0: "\<bar>sint (first_index c render) - spec_first_index N a\<bar> \<le> 1"
    using ceiling_near [OF r0(1)] by (simp add: i0 spec_first_index_def)
  have d1: "\<bar>sint (last_index c render) - spec_last_index N b\<bar> \<le> 1"
    using floor_near [OF r1(1)] by (simp add: i1 spec_last_index_def)
  have x0: "p0 = a * of_int (N - 1) \<and> s0 = p0 - 1 / 2
              \<longrightarrow> sint (first_index c render) = spec_first_index N a"
    by (simp add: i0 spec_first_index_def)
  have x1: "p1 = b * of_int (N - 1) \<and> s1 = p1 - 1 / 2
              \<longrightarrow> sint (last_index c render) = spec_last_index N b"
    by (simp add: i1 spec_last_index_def)
  have fw: "a = 0 \<and> b = 1 \<longrightarrow> sint (first_index c render) = 1 \<and> sint (last_index c render) = N - 1"
  proof
    assume "a = 0 \<and> b = 1"
    with fs fe have "freq_start render = Finite 0" "freq_stop render = Finite 1"
      by simp_all
    from full_window_indices [OF this] n
    have "first_index c render = 1" "last_index c render = FOSPHOR_FFT_LEN c - 1"
      by simp_all
    then show "sint (first_index c render) = 1 \<and> sint (last_index c render) = N - 1"
      using n by (simp add: sint_pred_32)
  qed
  from drawn_polylines [OF g, of c render] p0 p1 i0 i1 w e0 e1 d0 d1 x0 x1 fw
  show ?thesis
    by blast
qed


text \<open>The full window at the FFT length 1024: the live run is 1 to 1023, the max-hold
  run starts at 1025.\<close>

theorem spectrum_polyline_run_witness:
  "deref world_ready (gl self_ready) = Some gl_ready
   \<and> freq_start render_all = Finite 0 \<and> freq_stop render_all = Finite 1
   \<and> (0 :: real) \<le> 0 \<and> (0 :: real) \<le> 1 \<and> (1 :: real) \<le> 1
   \<and> sint (FOSPHOR_FFT_LEN cfg1024) = 1024 \<and> (1 :: int) \<le> 1024 \<and> (1024 :: int) \<le> 2 ^ 23
   \<and> map_option polylines (drawn cfg1024 self_ready world_ready render_all)
       = Some [(1, 1023), (1025, 1023)]"
proof -
  have h: "freq_start render_all = Finite 0" "freq_stop render_all = Finite 1"
    "sint (FOSPHOR_FFT_LEN cfg1024) = 1024"
    by (simp_all add: render_all_def cfg1024_def)
  have n: "FOSPHOR_FFT_LEN cfg1024 = 1024"
    by (simp add: cfg1024_def)
  have r: "(0 :: real) \<le> 0" "(0 :: real) \<le> 1" "(1 :: real) \<le> 1"
    "(1 :: int) \<le> 1024" "(1024 :: int) \<le> 2 ^ 23"
    by simp_all
  from spectrum_polyline_run
    [OF deref_world_ready h(1) r(1) r(2) h(2) r(2) r(3) h(3) r(4) r(5)]
  obtain i0 i1 :: c_int
    where d: "map_option polylines (drawn cfg1024 self_ready world_ready render_all) =
             Some ((if requested render_all (FRO_LIVE cfg1024) then [(i0, i1 - i0 + 1)] else [])
                   @ (if requested render_all (FRO_MAX_HOLD cfg1024) then
                        [(i0 + FOSPHOR_FFT_LEN cfg1024, i1 - i0 + 1)]
                      else []))"
      and i: "sint i0 = 1" "sint i1 = 1024 - 1"
    by auto
  from i have "i0 = 1" "i1 = 1023"
    by (auto dest: sint_eq_32)
  with d n have "map_option polylines (drawn cfg1024 self_ready world_ready render_all)
       = Some [(1, 1023), (1025, 1023)]"
    by (simp add: requested_all)
  with h deref_world_ready show ?thesis
    by simp
qed

lemma requested_stop:
  "requested render_stop (FRO_LIVE cfg1024)" "requested render_stop (FRO_MAX_HOLD cfg1024)"
  by (simp_all add: requested_def render_stop_def render_all_def cfg1024_def)

lemma stop_product: "rnd32 (17809407 / 32768) = Finite (1087 / 2)"
  by code_simp

lemma stop_indices:
  "first_index cfg1024 render_stop = 1" "last_index cfg1024 render_stop = 544"
proof -
  have f: "i2f (FOSPHOR_FFT_LEN cfg1024 - 1) = Finite 1023"
    using i2f_of_int [of 1023] by (simp add: cfg1024_def)
  have z: "rnd32 0 = Finite 0"
    using rnd32_int [of 0] by simp
  have mh: "rnd32 (- (1 / 2)) = Finite (- (1 / 2))"
    using rnd32_half_int [of "- 1"] by simp
  have ce: "\<lceil>- (1 / 2) :: real\<rceil> = 0"
    by (simp add: ceiling_eq_iff)
  show "first_index cfg1024 render_stop = 1"
    by (simp add: first_index_def render_stop_def render_all_def f flit_half z mh ce)
  have t: "rnd32 543 = Finite 543"
    using rnd32_int [of 543] by simp
  show "last_index cfg1024 render_stop = 544"
    by (simp add: last_index_def render_stop_def render_all_def f flit_half stop_product t)
qed

text \<open>
  C1 as stated, in exact arithmetic, fails at the FFT length 1024 for the window from
  0 to \<open>17409 / 32768\<close>: the product \<open>17409 / 32768 * 1023 = 543.49997\<close> lies half
  way between two single-precision values and rounds to \<open>543.5\<close>, so that the last
  index is 544 and 544 points are drawn, where the exact formulas give the last index
  543 and 543 points.
\<close>

theorem rounded_stop_counterexample:
  "map_option polylines (drawn cfg1024 self_ready world_ready render_stop)
     = Some [(1, 544), (1025, 544)]
   \<and> requested render_stop (FRO_LIVE cfg1024) \<and> requested render_stop (FRO_MAX_HOLD cfg1024)
   \<and> sint (FOSPHOR_FFT_LEN cfg1024) = 1024
   \<and> freq_start render_stop = Finite 0 \<and> freq_stop render_stop = Finite (17409 / 32768)
   \<and> is_f32 (freq_stop render_stop)
   \<and> spec_first_index 1024 0 = 1 \<and> spec_last_index 1024 (17409 / 32768) = 543
   \<and> spec_last_index 1024 (17409 / 32768) - spec_first_index 1024 0 + 1 = 543"
proof -
  have p: "map_option polylines (drawn cfg1024 self_ready world_ready render_stop)
     = Some [(1, 544), (1025, 544)]"
    unfolding drawn_polylines [OF deref_world_ready, of cfg1024 render_stop] stop_indices
      fft_len_1024
    by (simp add: requested_stop)
  have r: "rnd32 (17409 / 32768) = Finite (17409 / 32768)"
    using rnd32_exact [of 17409 "- 15"] by (simp add: pow2_def)
  have s: "spec_first_index 1024 0 = 1" "spec_last_index 1024 (17409 / 32768) = 543"
    by (simp_all add: spec_first_index_def spec_last_index_def ceiling_eq_iff floor_eq_iff)
  have h: "sint (FOSPHOR_FFT_LEN cfg1024) = 1024"
    "freq_start render_stop = Finite 0" "freq_stop render_stop = Finite (17409 / 32768)"
    by (simp_all add: render_stop_def render_all_def cfg1024_def)
  from p r s h requested_stop show ?thesis
    by simp
qed

subsection \<open>The order of the layers\<close>

lemma drawn_layers:
  assumes "deref w (gl self) = Some g"
  shows "map_option layers (drawn c self w render) =
     Some ((if requested render (FRO_WATERFALL c) then
              [Textured_quad (tex_waterfall g) (cmap_waterfall g)]
            else [])
           @ (if requested render (FRO_HISTO c) then
                [Textured_quad (tex_histogram g) (cmap_histogram g)]
              else if requested render (FRO_LIVE c) \<or> requested render (FRO_MAX_HOLD c) then
                [Flat_quad]
              else [])
           @ (if requested render (FRO_LIVE c) then
                [Polyline (first_index c render)
                   (last_index c render - first_index c render + 1)]
              else [])
           @ (if requested render (FRO_MAX_HOLD c) then
                [Polyline (first_index c render + FOSPHOR_FFT_LEN c)
                   (last_index c render - first_index c render + 1)]
              else [])
           @ (if requested render (FRO_LIVE c) \<or> requested render (FRO_MAX_HOLD c)
                 \<or> requested render (FRO_HISTO c) then
                concat (replicate 11
                  ([Grid_segment, Grid_segment]
                   @ (if requested render (FRO_LABEL_PWR c) then [Label] else [])
                   @ (if requested render (FRO_LABEL_FREQ c) then [Label] else [])))
              else [])
           @ [Finish])"
  using drawn_proj [OF assms, of layers "\<lambda>evs. concat (map layer_of evs)" c render]
  by (simp only: layers_def layers_draw)






text \<open>
  A label needs its own option: for the live polyline alone the drawing is the flat
  quad, the polyline and the 22 segments of the grid, with no label.
\<close>

lemma requested_live:
  "requested render_live (FRO_LIVE cfg1024)"
  "\<not> requested render_live (FRO_MAX_HOLD cfg1024)"
  "\<not> requested render_live (FRO_HISTO cfg1024)"
  "\<not> requested render_live (FRO_WATERFALL cfg1024)"
  "\<not> requested render_live (FRO_LABEL_PWR cfg1024)"
  "\<not> requested render_live (FRO_LABEL_FREQ cfg1024)"
  by (simp_all add: requested_def render_live_def render_all_def cfg1024_def)

lemma live_alone_layers:
  "map_option layers (drawn cfg1024 self_ready world_ready render_live) =
     Some ([Flat_quad, Polyline 1 1023] @ replicate 22 Grid_segment @ [Finish])"
proof -
  have "first_index cfg1024 render_live = 1" "last_index cfg1024 render_live = 1023"
    using full_window_indices [of render_live cfg1024]
    by (simp_all add: render_live_def render_all_def cfg1024_def)
  then show ?thesis
    unfolding drawn_layers [OF deref_world_ready, of cfg1024 render_live]
    by (simp add: requested_live eval_nat_numeral)
qed

subsection \<open>Texture coordinates\<close>

lemma drawn_tex_quads:
  assumes "deref w (gl self) = Some g"
  shows "map_option tex_quads (drawn c self w render) =
     Some ((if requested render (FRO_WATERFALL c) then
        [(tex_waterfall g,
          [(tex_u c (freq_start render),
            fsub (fdiv (i2f (priv_wf_pos render)) (flit 1024)) (wf_span render)),
           (tex_u c (freq_stop render),
            fsub (fdiv (i2f (priv_wf_pos render)) (flit 1024)) (wf_span render)),
           (tex_u c (freq_stop render), fdiv (i2f (priv_wf_pos render)) (flit 1024)),
           (tex_u c (freq_start render), fdiv (i2f (priv_wf_pos render)) (flit 1024))])]
      else [])
     @ (if requested render (FRO_HISTO c) then
          [(tex_histogram g,
            [(tex_u c (freq_start render), flit 0),
             (tex_u c (freq_stop render), flit 0),
             (tex_u c (freq_stop render), flit 1),
             (tex_u c (freq_start render), flit 1)])]
        else []))"
  using drawn_proj [OF assms, of tex_quads "\<lambda>evs. concat (map tex_quad_of evs)" c render]
  by (simp only: tex_quads_def tex_quads_draw)

lemma v_end_exact:
  assumes "\<bar>sint p\<bar> < 2 ^ 24"
  shows "fdiv (i2f p) (flit 1024) = Finite (of_int (sint p) / 1024)"
proof -
  have "rnd32 (of_int (sint p) * pow2 (- 10)) = Finite (of_int (sint p) * pow2 (- 10))"
    using assms by (intro rnd32_exact) simp_all
  then have "rnd32 (of_int (sint p) / 1024) = Finite (of_int (sint p) / 1024)"
    by (simp add: pow2_def)
  then show ?thesis
    by (simp add: i2f_exact [OF assms] flit_1024 del: of_int_sint)
qed

text \<open>
  C6, as the code has it. On a live renderer the textured quads are the waterfall quad
  and the histogram quad (each if requested), and the horizontal texture coordinates of
  both are \<open>tex_u\<close> of \<open>freq_start\<close> and of \<open>freq_stop\<close>. The vertical coordinates
  of the waterfall quad are \<open>v_end = (float)write_position / 1024\<close>, which is exact for
  a position below \<open>2 ^ 24\<close>, and \<open>v_start = v_end - span\<close> in single precision, with no
  clamp and no reduction to the ring. Where the difference \<open>v_end - span\<close> is a single
  precision value, \<open>v_start\<close> is that difference and \<open>v_end - v_start\<close> is the span,
  negative \<open>v_start\<close> included; otherwise \<open>v_start\<close> is the difference rounded.
\<close>

theorem texture_coordinates:
  assumes "deref w (gl self) = Some g"
  shows "map_option tex_quads (drawn c self w render) =
     Some ((if requested render (FRO_WATERFALL c) then
        [(tex_waterfall g,
          [(tex_u c (freq_start render),
            fsub (fdiv (i2f (priv_wf_pos render)) (flit 1024)) (wf_span render)),
           (tex_u c (freq_stop render),
            fsub (fdiv (i2f (priv_wf_pos render)) (flit 1024)) (wf_span render)),
           (tex_u c (freq_stop render), fdiv (i2f (priv_wf_pos render)) (flit 1024)),
           (tex_u c (freq_start render), fdiv (i2f (priv_wf_pos render)) (flit 1024))])]
      else [])
     @ (if requested render (FRO_HISTO c) then
          [(tex_histogram g,
            [(tex_u c (freq_start render), flit 0),
             (tex_u c (freq_stop render), flit 0),
             (tex_u c (freq_stop render), flit 1),
             (tex_u c (freq_start render), flit 1)])]
        else []))
   \<and> (\<bar>sint (priv_wf_pos render)\<bar> < 2 ^ 24 \<longrightarrow>
        fdiv (i2f (priv_wf_pos render)) (flit 1024)
          = Finite (of_int (sint (priv_wf_pos render)) / 1024))
   \<and> (\<forall>a b. fdiv (i2f (priv_wf_pos render)) (flit 1024) = Finite a
          \<and> wf_span render = Finite b \<and> is_f32 (Finite (a - b)) \<longrightarrow>
        fsub (fdiv (i2f (priv_wf_pos render)) (flit 1024)) (wf_span render) = Finite (a - b)
        \<and> a - (a - b) = b)"
  using drawn_tex_quads [OF assms, of c render] v_end_exact [of "priv_wf_pos render"]
  by auto

lemma requested_scroll:
  "\<not> requested render_scroll (FRO_HISTO cfg1024)"
  "requested render_scroll (FRO_WATERFALL cfg1024)"
  by (simp_all add: requested_def render_scroll_def render_all_def cfg1024_def)

lemma tenth: "flit (1 / 10) = Finite (13421773 / 134217728)"
  unfolding flit_def by code_simp

lemma scroll_v_start: "rnd32 (120664883 / 134217728) = Finite (7541555 / 8388608)"
  by code_simp

lemma scroll_diff: "rnd32 (838861 / 8388608) = Finite (838861 / 8388608)"
  by code_simp

text \<open>
  C6 as stated fails at the write position 1023 with the span \<open>0.1f\<close>: \<open>v_end\<close> is
  \<open>1023 / 1024\<close>, the difference is rounded to \<open>v_start = 7541555 / 2 ^ 23\<close>, and
  \<open>v_end - v_start = 838861 / 2 ^ 23\<close> (exactly, and in single precision) is not the
  span \<open>13421773 / 2 ^ 27\<close>.
\<close>

theorem scroll_span_counterexample:
  "map_option tex_quads (drawn cfg1024 self_ready world_ready render_scroll) =
     Some [(3,
       [(tex_u cfg1024 (Finite 0), Finite (7541555 / 8388608)),
        (tex_u cfg1024 (Finite 1), Finite (7541555 / 8388608)),
        (tex_u cfg1024 (Finite 1), Finite (1023 / 1024)),
        (tex_u cfg1024 (Finite 0), Finite (1023 / 1024))])]
   \<and> wf_span render_scroll = Finite (13421773 / 134217728)
   \<and> fsub (Finite (1023 / 1024)) (Finite (7541555 / 8388608)) = Finite (838861 / 8388608)
   \<and> (838861 / 8388608 :: real) \<noteq> 13421773 / 134217728"
proof -
  have p: "priv_wf_pos render_scroll = 1023" "wf_span render_scroll = Finite (13421773 / 134217728)"
    "freq_start render_scroll = Finite 0" "freq_stop render_scroll = Finite 1"
    by (simp_all add: render_scroll_def render_all_def tenth)
  have ve: "fdiv (i2f (1023 :: c_int)) (flit 1024) = Finite (1023 / 1024)"
    using v_end_exact [of 1023] by simp
  have "map_option tex_quads (drawn cfg1024 self_ready world_ready render_scroll) =
     Some [(3,
       [(tex_u cfg1024 (Finite 0), Finite (7541555 / 8388608)),
        (tex_u cfg1024 (Finite 1), Finite (7541555 / 8388608)),
        (tex_u cfg1024 (Finite 1), Finite (1023 / 1024)),
        (tex_u cfg1024 (Finite 0), Finite (1023 / 1024))])]"
    unfolding drawn_tex_quads [OF deref_world_ready, of cfg1024 render_scroll] p ve
    by (simp add: requested_scroll gl_ready_def scroll_v_start)
  then show ?thesis
    by (simp add: p scroll_diff)
qed

text \<open>The write position 5 with the span 10: \<open>v_start\<close> is \<open>5 / 1024 - 10\<close>.\<close>

theorem texture_coordinates_witness:
  "deref world_ready (gl self_ready) = Some gl_ready
   \<and> \<bar>sint (priv_wf_pos render_all)\<bar> < 2 ^ 24
   \<and> fdiv (i2f (priv_wf_pos render_all)) (flit 1024) = Finite (5 / 1024)
   \<and> wf_span render_all = Finite 10
   \<and> is_f32 (Finite (5 / 1024 - 10))
   \<and> fsub (fdiv (i2f (priv_wf_pos render_all)) (flit 1024)) (wf_span render_all)
       = Finite (5 / 1024 - 10)
   \<and> map_option (map fst) (map_option tex_quads (drawn cfg1024 self_ready world_ready render_all))
       = Some [3, 4]"
proof -
  have p: "priv_wf_pos render_all = 5" "wf_span render_all = Finite 10"
    by (simp_all add: render_all_def)
  have f: "is_f32 (Finite (5 / 1024 - 10))"
    using rnd32_exact [of "- 10235" "- 10"] by (simp add: pow2_def)
  from texture_coordinates [OF deref_world_ready, of cfg1024 render_all]
  have q: "map_option tex_quads (drawn cfg1024 self_ready world_ready render_all) =
     Some ((if requested render_all (FRO_WATERFALL cfg1024) then
        [(tex_waterfall gl_ready,
          [(tex_u cfg1024 (freq_start render_all),
            fsub (fdiv (i2f (priv_wf_pos render_all)) (flit 1024)) (wf_span render_all)),
           (tex_u cfg1024 (freq_stop render_all),
            fsub (fdiv (i2f (priv_wf_pos render_all)) (flit 1024)) (wf_span render_all)),
           (tex_u cfg1024 (freq_stop render_all), fdiv (i2f (priv_wf_pos render_all)) (flit 1024)),
           (tex_u cfg1024 (freq_start render_all), fdiv (i2f (priv_wf_pos render_all)) (flit 1024))])]
      else [])
     @ (if requested render_all (FRO_HISTO cfg1024) then
          [(tex_histogram gl_ready,
            [(tex_u cfg1024 (freq_start render_all), flit 0),
             (tex_u cfg1024 (freq_stop render_all), flit 0),
             (tex_u cfg1024 (freq_stop render_all), flit 1),
             (tex_u cfg1024 (freq_start render_all), flit 1)])]
        else []))"
    and e: "\<bar>sint (priv_wf_pos render_all)\<bar> < 2 ^ 24 \<longrightarrow>
        fdiv (i2f (priv_wf_pos render_all)) (flit 1024)
          = Finite (of_int (sint (priv_wf_pos render_all)) / 1024)"
    and x: "\<forall>a b. fdiv (i2f (priv_wf_pos render_all)) (flit 1024) = Finite a
          \<and> wf_span render_all = Finite b \<and> is_f32 (Finite (a - b)) \<longrightarrow>
        fsub (fdiv (i2f (priv_wf_pos render_all)) (flit 1024)) (wf_span render_all) = Finite (a - b)
        \<and> a - (a - b) = b"
    by blast+
  have ve: "fdiv (i2f (priv_wf_pos render_all)) (flit 1024) = Finite (5 / 1024)"
    using e by (simp add: p)
  have vs: "fsub (fdiv (i2f (priv_wf_pos render_all)) (flit 1024)) (wf_span render_all)
       = Finite (5 / 1024 - 10)"
    using x ve p(2) f by blast
  have "map_option (map fst) (map_option tex_quads (drawn cfg1024 self_ready world_ready render_all))
       = Some [3, 4]"
    unfolding q by (simp add: requested_all gl_ready_def)
  with deref_world_ready ve vs f p show ?thesis
    by simp
qed

subsection \<open>The grid\<close>

lemma drawn_segments:
  assumes "deref w (gl self) = Some g"
  shows "map_option segments (drawn c self w render) =
     Some (if requested render (FRO_LIVE c) \<or> requested render (FRO_MAX_HOLD c)
              \<or> requested render (FRO_HISTO c) then
        concat (map (\<lambda>i.
          [[(fadd (grid_x render i) (flit (1 / 2)),
             fadd (fst (priv_y_histo render)) (flit (1 / 2))),
            (fadd (grid_x render i) (flit (1 / 2)),
             fsub (snd (priv_y_histo render)) (flit (1 / 2)))],
           [(fadd (fst (priv_x render)) (flit (1 / 2)), fadd (grid_y render i) (flit (1 / 2))),
            (fsub (snd (priv_x render)) (flit (1 / 2)), fadd (grid_y render i) (flit (1 / 2)))]])
          [0..10])
      else [])"
  using drawn_proj [OF assms, of segments "\<lambda>evs. concat (map segment_of evs)" c render]
  by (simp only: segments_def segments_draw)

lemma drawn_power_labels:
  assumes "deref w (gl self) = Some g"
  shows "map_option power_labels (drawn c self w render) =
     Some (if (requested render (FRO_LIVE c) \<or> requested render (FRO_MAX_HOLD c)
               \<or> requested render (FRO_HISTO c)) \<and> requested render (FRO_LABEL_PWR c) then
        map (\<lambda>i. power_db_ref self - (10 - word_of_int i) * power_db_per_div self) [0..10]
      else [])"
  using drawn_proj [OF assms, of power_labels "\<lambda>evs. concat (map power_label_of evs)" c render]
  by (simp only: power_labels_def power_labels_draw)

lemma drawn_freq_labels:
  assumes "deref w (gl self) = Some g"
  shows "map_option freq_labels (drawn c self w render) =
     Some (if (requested render (FRO_LIVE c) \<or> requested render (FRO_MAX_HOLD c)
               \<or> requested render (FRO_HISTO c)) \<and> requested render (FRO_LABEL_FREQ c) then
        map (\<lambda>i. if i = 0 then fadd (grid_x render 0) (Finite 5)
                  else if i = 10 then fadd (grid_x render 10) (Finite (- 5))
                  else grid_x render i) [0..10]
      else [])"
  using drawn_proj [OF assms, of freq_labels "\<lambda>evs. concat (map freq_label_of evs)" c render]
  by (simp only: freq_labels_def freq_labels_draw freq_label_positions)

lemma length_upto_0_10: "length [0..10::int] = 11"
  by simp

lemma length_concat_pairs: "length (concat (map (\<lambda>i. [h i, k i]) xs)) = 2 * length xs"
  by (induction xs) simp_all

text \<open>
  C7. Whenever the grid is drawn (live, max-hold or histogram requested, on a live
  renderer), whatever the viewport: the line segments are, for \<open>i\<close> from 0 to 10, the
  vertical one at \<open>grid_x i\<close> and the horizontal one at \<open>grid_y i\<close>, 22 in all; the
  power labels, when enabled, show \<open>db_ref - (10 - i) * db_per_div\<close> for \<open>i\<close> from 0 to
  10 (the integer of that value where it fits an \<open>int\<close>); and the frequency labels, when
  enabled, stand at \<open>grid_x i\<close>, moved by \<open>+5\<close> for line 0 and by \<open>-5\<close> for line 10
  and not moved for the lines 1 to 9.
\<close>

theorem grid_lines_and_labels:
  assumes "deref w (gl self) = Some g"
    and "requested render (FRO_LIVE c) \<or> requested render (FRO_MAX_HOLD c)
         \<or> requested render (FRO_HISTO c)"
  shows "map_option segments (drawn c self w render) =
     Some (concat (map (\<lambda>i.
          [[(fadd (grid_x render i) (flit (1 / 2)),
             fadd (fst (priv_y_histo render)) (flit (1 / 2))),
            (fadd (grid_x render i) (flit (1 / 2)),
             fsub (snd (priv_y_histo render)) (flit (1 / 2)))],
           [(fadd (fst (priv_x render)) (flit (1 / 2)), fadd (grid_y render i) (flit (1 / 2))),
            (fsub (snd (priv_x render)) (flit (1 / 2)), fadd (grid_y render i) (flit (1 / 2)))]])
          [0..10]))
   \<and> map_option (length \<circ> segments) (drawn c self w render) = Some (2 * 11)
   \<and> map_option power_labels (drawn c self w render) =
       Some (if requested render (FRO_LABEL_PWR c) then
               map (\<lambda>i. power_db_ref self - (10 - word_of_int i) * power_db_per_div self)
                 [0..10]
             else [])
   \<and> (\<forall>i. - (2 ^ 31) \<le> sint (power_db_ref self) - (10 - i) * sint (power_db_per_div self)
          \<and> sint (power_db_ref self) - (10 - i) * sint (power_db_per_div self) < 2 ^ 31 \<longrightarrow>
        sint (power_db_ref self - (10 - word_of_int i) * power_db_per_div self)
          = sint (power_db_ref self) - (10 - i) * sint (power_db_per_div self))
   \<and> map_option freq_labels (drawn c self w render) =
       Some (if requested render (FRO_LABEL_FREQ c) then
               map (\<lambda>i. if i = 0 then fadd (grid_x render 0) (Finite 5)
                         else if i = 10 then fadd (grid_x render 10) (Finite (- 5))
                         else grid_x render i) [0..10]
             else [])"
proof -
  let ?segs = "concat (map (\<lambda>i.
          [[(fadd (grid_x render i) (flit (1 / 2)),
             fadd (fst (priv_y_histo render)) (flit (1 / 2))),
            (fadd (grid_x render i) (flit (1 / 2)),
             fsub (snd (priv_y_histo render)) (flit (1 / 2)))],
           [(fadd (fst (priv_x render)) (flit (1 / 2)), fadd (grid_y render i) (flit (1 / 2))),
            (fsub (snd (priv_x render)) (flit (1 / 2)), fadd (grid_y render i) (flit (1 / 2)))]])
          [0..10])"
  have s: "map_option segments (drawn c self w render) = Some ?segs"
    using drawn_segments [OF assms(1), of c render] assms(2) by simp
  have "length ?segs = 2 * 11"
    unfolding length_concat_pairs length_upto_0_10 ..
  then have n: "map_option (length \<circ> segments) (drawn c self w render) = Some (2 * 11)"
    using s by (cases "drawn c self w render") auto
  show ?thesis
    using s n drawn_power_labels [OF assms(1), of c render]
      drawn_freq_labels [OF assms(1), of c render] assms(2)
      label_value_int [of "power_db_ref self" _ "power_db_per_div self"]
    by simp
qed

lemma upto_0_10: "[0..10::int] = [0, 1, 2, 3, 4, 5, 6, 7, 8, 9, 10]"
  by code_simp

lemma rnd32_numeral: "numeral k < (2 ^ 24 :: int) \<Longrightarrow> rnd32 (numeral k) = Finite (numeral k)"
  using rnd32_int [of "numeral k"] by simp

lemma grid_x_val:
  assumes "0 \<le> i" "i \<le> 10"
  shows "grid_x render_all i = Finite (of_int (48 + 64 * i))"
proof -
  have "i2f (word_of_int i) = Finite (of_int i)"
    using assms by (intro i2f_of_int) simp
  moreover have "rnd32 (of_int (i * 64)) = Finite (of_int (i * 64))"
    using assms by (intro rnd32_int) simp
  moreover have "rnd32 (of_int (48 + 64 * i)) = Finite (of_int (48 + 64 * i))"
    using assms by (intro rnd32_int) simp
  ultimately show ?thesis
    by (simp add: grid_x_def render_all_def mult.commute)
qed

lemma grid_x_all:
  "map (\<lambda>i. if i = 0 then fadd (grid_x render_all 0) (Finite 5)
             else if i = 10 then fadd (grid_x render_all 10) (Finite (- 5))
             else grid_x render_all i) [0, 1, 2, 3, 4, 5, 6, 7, 8, 9, 10]
   = [Finite 53, Finite 112, Finite 176, Finite 240, Finite 304, Finite 368, Finite 432,
      Finite 496, Finite 560, Finite 624, Finite 683]"
  by (simp add: grid_x_val rnd32_numeral)

text \<open>The full request: 22 segments, power labels from -100 to 0 in steps of 10,
  frequency labels at 48 + 5, 112, ..., 624 and 688 - 5.\<close>

theorem grid_lines_and_labels_witness:
  "deref world_ready (gl self_ready) = Some gl_ready
   \<and> requested render_all (FRO_LIVE cfg1024)
   \<and> map_option (length \<circ> segments) (drawn cfg1024 self_ready world_ready render_all) = Some 22
   \<and> map_option power_labels (drawn cfg1024 self_ready world_ready render_all) =
       Some [- 100, - 90, - 80, - 70, - 60, - 50, - 40, - 30, - 20, - 10, 0]
   \<and> - (2 ^ 31) \<le> sint (power_db_ref self_ready) - (10 - 3) * sint (power_db_per_div self_ready)
   \<and> sint (power_db_ref self_ready) - (10 - 3) * sint (power_db_per_div self_ready) < 2 ^ 31
   \<and> sint (power_db_ref self_ready - (10 - word_of_int 3) * power_db_per_div self_ready) = - 70
   \<and> map_option freq_labels (drawn cfg1024 self_ready world_ready render_all) =
       Some [Finite 53, Finite 112, Finite 176, Finite 240, Finite 304, Finite 368, Finite 432,
             Finite 496, Finite 560, Finite 624, Finite 683]"
proof -
  have r: "requested render_all (FRO_LIVE cfg1024) \<or> requested render_all (FRO_MAX_HOLD cfg1024)
         \<or> requested render_all (FRO_HISTO cfg1024)"
    by (simp add: requested_all)
  have p: "power_db_ref self_ready = 0" "power_db_per_div self_ready = 10"
    by (simp_all add: self_ready_def)
  from grid_lines_and_labels [OF deref_world_ready r]
  have n: "map_option (length \<circ> segments) (drawn cfg1024 self_ready world_ready render_all)
             = Some (2 * 11)"
    and l: "map_option power_labels (drawn cfg1024 self_ready world_ready render_all) =
       Some (if requested render_all (FRO_LABEL_PWR cfg1024) then
               map (\<lambda>i. power_db_ref self_ready
                          - (10 - word_of_int i) * power_db_per_div self_ready) [0..10]
             else [])"
    and v: "\<forall>i. - (2 ^ 31) \<le> sint (power_db_ref self_ready)
                     - (10 - i) * sint (power_db_per_div self_ready)
          \<and> sint (power_db_ref self_ready) - (10 - i) * sint (power_db_per_div self_ready)
              < 2 ^ 31 \<longrightarrow>
        sint (power_db_ref self_ready - (10 - word_of_int i) * power_db_per_div self_ready)
          = sint (power_db_ref self_ready) - (10 - i) * sint (power_db_per_div self_ready)"
    and f: "map_option freq_labels (drawn cfg1024 self_ready world_ready render_all) =
       Some (if requested render_all (FRO_LABEL_FREQ cfg1024) then
               map (\<lambda>i. if i = 0 then fadd (grid_x render_all 0) (Finite 5)
                         else if i = 10 then fadd (grid_x render_all 10) (Finite (- 5))
                         else grid_x render_all i) [0..10]
             else [])"
    by blast+
  have b: "- (2 ^ 31) \<le> sint (power_db_ref self_ready) - (10 - 3) * sint (power_db_per_div self_ready)"
    "sint (power_db_ref self_ready) - (10 - 3) * sint (power_db_per_div self_ready) < 2 ^ 31"
    by (simp_all add: p)
  from v b have v3: "sint (power_db_ref self_ready
                           - (10 - word_of_int 3) * power_db_per_div self_ready) = - 70"
    by (simp add: p)
  have l': "map_option power_labels (drawn cfg1024 self_ready world_ready render_all) =
       Some [- 100, - 90, - 80, - 70, - 60, - 50, - 40, - 30, - 20, - 10, 0]"
    unfolding l upto_0_10 p by (simp add: requested_all)
  have f': "map_option freq_labels (drawn cfg1024 self_ready world_ready render_all) =
       Some [Finite 53, Finite 112, Finite 176, Finite 240, Finite 304, Finite 368, Finite 432,
             Finite 496, Finite 560, Finite 624, Finite 683]"
    unfolding f upto_0_10 by (simp only: requested_all if_True grid_x_all)
  from n have n': "map_option (length \<circ> segments) (drawn cfg1024 self_ready world_ready render_all)
             = Some 22"
    by simp
  show ?thesis
    using deref_world_ready requested_all(1) n' l' b v3 f' by blast
qed

subsection \<open>Names, pointers and the heap\<close>

lemma fold_max_init: "a \<le> fold max xs (a::nat)"
proof (induction xs arbitrary: a)
  case Nil
  show ?case by simp
next
  case (Cons x xs)
  have "a \<le> max x a" by simp
  also have "\<dots> \<le> fold max xs (max x a)" by (rule Cons.IH)
  finally show ?case by simp
qed

lemma fold_max_elem: "x \<in> set xs \<Longrightarrow> x \<le> fold max xs (a::nat)"
proof (induction xs arbitrary: a)
  case Nil
  then show ?case by simp
next
  case (Cons y ys)
  show ?case
  proof (cases "x = y")
    case True
    have "x \<le> max y a" using True by simp
    also have "\<dots> \<le> fold max ys (max y a)" by (rule fold_max_init)
    finally show ?thesis by simp
  next
    case False
    with Cons.prems have "x \<in> set ys" by simp
    from Cons.IH [OF this] show ?thesis by simp
  qed
qed

lemma fresh_notin: "fresh xs \<notin> set xs"
proof
  assume "fresh xs \<in> set xs"
  from fold_max_elem [OF this, of 0] show False
    by (simp add: fresh_def)
qed

lemma fresh_pos: "fresh xs \<noteq> 0"
  by (simp add: fresh_def)

lemma removeAll_fresh: "removeAll (fresh xs) (xs @ [fresh xs]) = xs"
  using fresh_notin [of xs] by simp

lemma map_of_map_entry:
  "map_of (AList.map_entry a f h) a = map_option f (map_of h a)"
  by (induction h) auto

lemma delete_absent: "a \<notin> fst ` set h \<Longrightarrow> AList.delete a h = h"
  by (induction h) auto

lemma fst_map_entry: "map fst (AList.map_entry a f h) = map fst h"
  by (induction h) auto

lemma deref_store:
  "deref (store a f w) (Some a) = map_option f (deref w (Some a))"
  by (simp add: deref_def store_def map_of_map_entry)

lemma deref_emit: "deref (emit cs w) p = deref w p"
  by (simp add: deref_def emit_def split: option.splits)

lemma creations_Cons: "creations (cl # cs) = created cl @ creations cs"
  by (simp add: creations_def)

lemma creations_append: "creations (xs @ ys) = creations xs @ creations ys"
  by (simp add: creations_def)

lemma creations_Nil: "creations [] = []"
  by (simp add: creations_def)

lemma created_sub_image: "created (GlTexSubImage2D t l x y cw ch f ty) = []"
  by (simp add: created_def)

lemma creations_tex_clear_x: "creations (tex_clear_x width height y x) = []"
proof (induction width height y x rule: tex_clear_x.induct)
  case (1 width height y x)
  show ?case
  proof (cases "x < width")
    case True
    with "1" show ?thesis
      by (simp add: tex_clear_x.simps [of width height y x] creations_Cons created_sub_image
          Let_def)
  next
    case False
    then show ?thesis
      by (simp add: tex_clear_x.simps [of width height y x] creations_Nil)
  qed
qed

lemma creations_tex_clear_y: "creations (tex_clear_y width height y) = []"
proof (induction width height y rule: tex_clear_y.induct)
  case (1 width height y)
  show ?case
  proof (cases "y < height")
    case True
    with "1" show ?thesis
      by (simp add: tex_clear_y.simps [of width height y] creations_append
          creations_tex_clear_x)
  next
    case False
    then show ?thesis
      by (simp add: tex_clear_y.simps [of width height y] creations_Nil)
  qed
qed

subsection \<open>The deferred initialisation\<close>

lemma deferred_init_done:
  assumes "deref w (gl self) = Some g" "init_complete g \<noteq> 0"
  shows "gl_deferred_init c map_ok self w = Inr w"
  using assms by (auto simp: gl_deferred_init_def deref_def split: option.splits)

lemma deferred_init_abort:
  assumes "deref w (gl self) = Some g" "init_complete g = 0"
  shows "gl_deferred_init c False self w = Inl Abort"
  using assms
  by (auto simp: gl_deferred_init_def deref_def gl_vbo_clear_def Let_def split: option.splits prod.splits)

lemma deferred_init_fresh:
  assumes "gl self = Some a" "map_of (heap w) a = Some g" "init_complete g = 0"
  shows "\<exists>w'. gl_deferred_init c True self w = Inr w'
     \<and> map_of (heap w') a =
         Some (g\<lparr>init_complete := 1, tex_waterfall := fresh (textures w),
                 tex_histogram := fresh (textures w @ [fresh (textures w)]),
                 vbo_spectrum := fresh (buffers w)\<rparr>)
     \<and> map fst (heap w') = map fst (heap w)
     \<and> textures w' = textures w @ [fresh (textures w), fresh (textures w @ [fresh (textures w)])]
     \<and> buffers w' = buffers w @ [fresh (buffers w)]
     \<and> fonts w' = fonts w \<and> cmap_ctxs w' = cmap_ctxs w
     \<and> creations (issued w w') =
         [Texture_obj (fresh (textures w)),
          Texture_obj (fresh (textures w @ [fresh (textures w)])),
          Buffer_obj (fresh (buffers w))]"
  using assms
  by (simp add: gl_deferred_init_def Let_def glGenTextures_def glGenBuffers_def gl_vbo_clear_def
      gl_tex2d_float_clear_def emit_def store_def map_of_map_entry fst_map_entry issued_def
      creations_append creations_Cons creations_Nil creations_tex_clear_y created_def)

lemma deferred_init_returns:
  assumes "deref w (gl self) = Some g" and "map_ok \<or> init_complete g \<noteq> 0"
  shows "\<exists>w'. gl_deferred_init c map_ok self w = Inr w'
           \<and> (\<exists>g'. deref w' (gl self) = Some g' \<and> init_complete g' \<noteq> 0
                 \<and> (init_complete g \<noteq> 0 \<longrightarrow> w' = w)
                 \<and> (init_complete g = 0 \<longrightarrow>
                      g' = g\<lparr>init_complete := 1, tex_waterfall := fresh (textures w),
                              tex_histogram := fresh (textures w @ [fresh (textures w)]),
                              vbo_spectrum := fresh (buffers w)\<rparr>
                    \<and> textures w' =
                        textures w @ [fresh (textures w), fresh (textures w @ [fresh (textures w)])]
                    \<and> buffers w' = buffers w @ [fresh (buffers w)]
                    \<and> creations (issued w w') =
                        [Texture_obj (fresh (textures w)),
                         Texture_obj (fresh (textures w @ [fresh (textures w)])),
                         Buffer_obj (fresh (buffers w))]))"
proof (cases "init_complete g = 0")
  case True
  with assms have m: "map_ok" by simp
  from assms(1) obtain a where a: "gl self = Some a" "map_of (heap w) a = Some g"
    by (auto simp: deref_def split: option.splits)
  from deferred_init_fresh [OF a True, of c] m a(1) True show ?thesis
    by (auto simp: deref_def)
next
  case False
  with deferred_init_done [OF assms(1) False, of c map_ok] assms(1) show ?thesis
    by auto
qed

text \<open>
  C9. For an id that is none of the three enumerators, on a live renderer whose
  deferred initialisation is done or can map its buffer,
  \<open>fosphor_gl_get_shared_id\<close> returns, and returns 0.
\<close>

theorem unknown_id_zero:
  assumes "deref w (gl self) = Some g" and "map_ok \<or> init_complete g \<noteq> 0"
  shows "\<exists>w'. fosphor_gl_get_shared_id c map_ok self w (GL_ID_OTHER n) = Inr (0, w')"
  using deferred_init_returns [OF assms, of c]
  by (auto simp: fosphor_gl_get_shared_id_def)

lemma deref_world_constructed: "deref world_constructed (gl self_ready) = Some gl_constructed"
  by (simp add: deref_def world_constructed_def self_ready_def)

text \<open>The id 7 on a renderer that has just been constructed.\<close>

theorem unknown_id_zero_witness:
  "deref world_constructed (gl self_ready) = Some gl_constructed
   \<and> (\<exists>w'. fosphor_gl_get_shared_id cfg32 True self_ready world_constructed (GL_ID_OTHER 7)
              = Inr (0, w'))"
  using unknown_id_zero [OF deref_world_constructed, of True cfg32 7] deref_world_constructed
  by simp

lemma get_shared_id_returns:
  assumes "deref w (gl self) = Some g" and "map_ok \<or> init_complete g \<noteq> 0"
  shows "\<exists>w'. gl_deferred_init c map_ok self w = Inr w'
           \<and> fosphor_gl_get_shared_id c map_ok self w ident = Inr (shared_name w' self ident, w')"
proof -
  from deferred_init_returns [OF assms, of c]
  obtain w' g' where "gl_deferred_init c map_ok self w = Inr w'" "deref w' (gl self) = Some g'"
    by blast
  then show ?thesis
    by (cases ident) (simp_all add: fosphor_gl_get_shared_id_def shared_name_def)
qed

text \<open>
  C10. For every id, the unknown ones included, a call of
  \<open>fosphor_gl_get_shared_id\<close> on a live renderer (whose deferred initialisation is
  done or can map its buffer) returns and leaves the renderer GpuReady: the flag is
  set and the three GPU objects exist. Where the flag was not set before, the call has
  made exactly the two textures and the buffer.
\<close>

theorem shared_id_makes_gpu_ready:
  assumes "deref w (gl self) = Some g" and "map_ok \<or> init_complete g \<noteq> 0"
    and "init_complete g = 0 \<or> gpu_ready w self"
  shows "\<exists>h w'. fosphor_gl_get_shared_id c map_ok self w ident = Inr (h, w')
           \<and> gpu_ready w' self
           \<and> (init_complete g = 0 \<longrightarrow>
                creations (issued w w') =
                  [Texture_obj (fresh (textures w)),
                   Texture_obj (fresh (textures w @ [fresh (textures w)])),
                   Buffer_obj (fresh (buffers w))])"
proof -
  from deferred_init_returns [OF assms(1,2), of c]
  obtain w' g' where d: "gl_deferred_init c map_ok self w = Inr w'"
    and g': "deref w' (gl self) = Some g'" "init_complete g' \<noteq> 0"
    and old: "init_complete g \<noteq> 0 \<longrightarrow> w' = w"
    and new: "init_complete g = 0 \<longrightarrow>
                      g' = g\<lparr>init_complete := 1, tex_waterfall := fresh (textures w),
                              tex_histogram := fresh (textures w @ [fresh (textures w)]),
                              vbo_spectrum := fresh (buffers w)\<rparr>
                    \<and> textures w' =
                        textures w @ [fresh (textures w), fresh (textures w @ [fresh (textures w)])]
                    \<and> buffers w' = buffers w @ [fresh (buffers w)]
                    \<and> creations (issued w w') =
                        [Texture_obj (fresh (textures w)),
                         Texture_obj (fresh (textures w @ [fresh (textures w)])),
                         Buffer_obj (fresh (buffers w))]"
    by blast
  have r: "gpu_ready w' self"
  proof (cases "init_complete g = 0")
    case True
    with new g' show ?thesis
      by (simp add: gpu_ready_def)
  next
    case False
    with old assms(3) show ?thesis
      by simp
  qed
  from get_shared_id_returns [OF assms(1,2), of c ident] d
  have "fosphor_gl_get_shared_id c map_ok self w ident = Inr (shared_name w' self ident, w')"
    by simp
  with r new show ?thesis
    by blast
qed

text \<open>The unknown id 7 on a renderer that has just been constructed: the textures
  3 and 4 and the buffer 1 are made.\<close>

theorem shared_id_makes_gpu_ready_witness:
  "deref world_constructed (gl self_ready) = Some gl_constructed
   \<and> init_complete gl_constructed = 0
   \<and> (\<exists>h w'. fosphor_gl_get_shared_id cfg32 True self_ready world_constructed (GL_ID_OTHER 7)
                = Inr (h, w')
         \<and> gpu_ready w' self_ready
         \<and> creations (issued world_constructed w') = [Texture_obj 3, Texture_obj 4, Buffer_obj 1])"
proof -
  have i: "init_complete gl_constructed = 0"
    by (simp add: gl_constructed_def)
  have f: "fresh (textures world_constructed) = 3"
    "fresh (textures world_constructed @ [3]) = 4" "fresh (buffers world_constructed) = 1"
    by (simp_all add: world_constructed_def fresh_def)
  from shared_id_makes_gpu_ready [OF deref_world_constructed, of True cfg32 "GL_ID_OTHER 7"] i
  show ?thesis
    by (simp add: deref_world_constructed f)
qed

lemma get_shared_id_stable:
  assumes "deref w (gl self) = Some g" and "init_complete g \<noteq> 0"
  shows "fosphor_gl_get_shared_id c map_ok self w ident = Inr (shared_name w self ident, w)"
  using get_shared_id_returns [of w self g map_ok c ident] assms
    deferred_init_done [OF assms, of c map_ok]
  by simp

lemma get_shared_ids_stable:
  assumes "deref w (gl self) = Some g" and "init_complete g \<noteq> 0"
  shows "get_shared_ids c self w reqs = Inr (map (\<lambda>r. shared_name w self (snd r)) reqs, w)"
proof (induction reqs)
  case Nil
  show ?case by simp
next
  case (Cons r reqs)
  obtain ok i where r: "r = (ok, i)"
    by (cases r)
  show ?case
    by (simp add: r get_shared_id_stable [OF assms] Cons.IH)
qed

text \<open>
  C3. On a renderer that has just been constructed, the first call of
  \<open>fosphor_gl_get_shared_id\<close>, for any id, makes the two textures and the buffer,
  once, and returns the name the renderer now holds for the id. Every sequence of later
  calls, in any order of ids and whatever the driver would answer, leaves the world as
  it is (no call is issued, so nothing is made) and returns for each id the name held
  after the first call.
\<close>

theorem shared_id_idempotent:
  assumes "deref w (gl self) = Some g" and "init_complete g = 0"
  shows "\<exists>h1 w1. fosphor_gl_get_shared_id c True self w id1 = Inr (h1, w1)
           \<and> creations (issued w w1) =
               [Texture_obj (fresh (textures w)),
                Texture_obj (fresh (textures w @ [fresh (textures w)])),
                Buffer_obj (fresh (buffers w))]
           \<and> h1 = shared_name w1 self id1
           \<and> (\<forall>reqs. get_shared_ids c self w1 reqs
                         = Inr (map (\<lambda>r. shared_name w1 self (snd r)) reqs, w1))"
proof -
  have m: "True \<or> init_complete g \<noteq> 0"
    by simp
  from deferred_init_returns [OF assms(1) m, of c] assms(2)
  obtain w1 g1 where d: "gl_deferred_init c True self w = Inr w1"
    and g1: "deref w1 (gl self) = Some g1" "init_complete g1 \<noteq> 0"
    and cr: "creations (issued w w1) =
               [Texture_obj (fresh (textures w)),
                Texture_obj (fresh (textures w @ [fresh (textures w)])),
                Buffer_obj (fresh (buffers w))]"
    by auto
  from get_shared_id_returns [OF assms(1) m, of c id1] d
  have "fosphor_gl_get_shared_id c True self w id1 = Inr (shared_name w1 self id1, w1)"
    by simp
  with cr get_shared_ids_stable [OF g1, of c] show ?thesis
    by blast
qed

text \<open>A first call for the buffer, then calls for the histogram texture, the buffer
  and the waterfall texture.\<close>

theorem shared_id_idempotent_witness:
  "deref world_constructed (gl self_ready) = Some gl_constructed
   \<and> init_complete gl_constructed = 0
   \<and> (\<exists>h1 w1. fosphor_gl_get_shared_id cfg32 True self_ready world_constructed
                  GL_ID_VBO_SPECTRUM = Inr (h1, w1)
         \<and> creations (issued world_constructed w1) = [Texture_obj 3, Texture_obj 4, Buffer_obj 1]
         \<and> h1 = shared_name w1 self_ready GL_ID_VBO_SPECTRUM
         \<and> get_shared_ids cfg32 self_ready w1
              [(False, GL_ID_TEX_HISTOGRAM), (True, GL_ID_VBO_SPECTRUM), (False, GL_ID_TEX_WATERFALL)]
             = Inr ([shared_name w1 self_ready GL_ID_TEX_HISTOGRAM, h1,
                     shared_name w1 self_ready GL_ID_TEX_WATERFALL], w1))"
proof -
  have i: "init_complete gl_constructed = 0"
    by (simp add: gl_constructed_def)
  have f: "fresh (textures world_constructed) = 3"
    "fresh (textures world_constructed @ [3]) = 4" "fresh (buffers world_constructed) = 1"
    by (simp_all add: world_constructed_def fresh_def)
  from shared_id_idempotent [OF deref_world_constructed i, of cfg32 GL_ID_VBO_SPECTRUM]
  obtain h1 w1 where
    a: "fosphor_gl_get_shared_id cfg32 True self_ready world_constructed GL_ID_VBO_SPECTRUM
          = Inr (h1, w1)"
    and b: "creations (issued world_constructed w1) =
               [Texture_obj (fresh (textures world_constructed)),
                Texture_obj (fresh (textures world_constructed
                                    @ [fresh (textures world_constructed)])),
                Buffer_obj (fresh (buffers world_constructed))]"
    and h: "h1 = shared_name w1 self_ready GL_ID_VBO_SPECTRUM"
    and r: "\<forall>reqs. get_shared_ids cfg32 self_ready w1 reqs
                         = Inr (map (\<lambda>r. shared_name w1 self_ready (snd r)) reqs, w1)"
    by blast
  from r have "get_shared_ids cfg32 self_ready w1
              [(False, GL_ID_TEX_HISTOGRAM), (True, GL_ID_VBO_SPECTRUM), (False, GL_ID_TEX_WATERFALL)]
             = Inr (map (\<lambda>r. shared_name w1 self_ready (snd r))
                      [(False, GL_ID_TEX_HISTOGRAM), (True, GL_ID_VBO_SPECTRUM),
                       (False, GL_ID_TEX_WATERFALL)], w1)"
    by blast
  then have "get_shared_ids cfg32 self_ready w1
              [(False, GL_ID_TEX_HISTOGRAM), (True, GL_ID_VBO_SPECTRUM), (False, GL_ID_TEX_WATERFALL)]
             = Inr ([shared_name w1 self_ready GL_ID_TEX_HISTOGRAM, h1,
                     shared_name w1 self_ready GL_ID_TEX_WATERFALL], w1)"
    by (simp only: h list.map snd_conv)
  with a b h deref_world_constructed i show ?thesis
    by (simp add: f)
qed

subsection \<open>Release and initialisation\<close>

lemma emit_fields:
  "heap (emit cs w) = heap w" "textures (emit cs w) = textures w"
  "buffers (emit cs w) = buffers w" "fonts (emit cs w) = fonts w"
  "cmap_ctxs (emit cs w) = cmap_ctxs w" "calls (emit cs w) = calls w @ cs"
  by (simp_all add: emit_def)

lemma glDeleteTextures_fields:
  "heap (glDeleteTextures n w) = heap w"
  "textures (glDeleteTextures n w) = del_name n (textures w)"
  "buffers (glDeleteTextures n w) = buffers w" "fonts (glDeleteTextures n w) = fonts w"
  "cmap_ctxs (glDeleteTextures n w) = cmap_ctxs w"
  "calls (glDeleteTextures n w) = calls w @ [GlDeleteTextures n]"
  by (simp_all add: glDeleteTextures_def emit_def del_name_def)

lemma glDeleteBuffers_fields:
  "heap (glDeleteBuffers n w) = heap w" "textures (glDeleteBuffers n w) = textures w"
  "buffers (glDeleteBuffers n w) = del_name n (buffers w)"
  "fonts (glDeleteBuffers n w) = fonts w" "cmap_ctxs (glDeleteBuffers n w) = cmap_ctxs w"
  "calls (glDeleteBuffers n w) = calls w @ [GlDeleteBuffers n]"
  by (simp_all add: glDeleteBuffers_def emit_def del_name_def)

lemma cmap_release_fields:
  "heap (fosphor_gl_cmap_release p w) = heap w"
  "textures (fosphor_gl_cmap_release p w) = textures w"
  "buffers (fosphor_gl_cmap_release p w) = buffers w"
  "fonts (fosphor_gl_cmap_release p w) = fonts w"
  "cmap_ctxs (fosphor_gl_cmap_release p w) = del_ptr p (cmap_ctxs w)"
  "calls (fosphor_gl_cmap_release p w) = calls w @ [Fosphor_gl_cmap_release p]"
  by (simp_all add: fosphor_gl_cmap_release_def emit_def del_ptr_def split: option.splits)

lemma glf_free_fields:
  "heap (glf_free p w) = heap w" "textures (glf_free p w) = textures w"
  "buffers (glf_free p w) = buffers w" "fonts (glf_free p w) = del_ptr p (fonts w)"
  "cmap_ctxs (glf_free p w) = cmap_ctxs w" "calls (glf_free p w) = calls w @ [Glf_free p]"
  by (simp_all add: glf_free_def emit_def del_ptr_def split: option.splits)

lemma free_state_fields:
  "heap (free_state a w) = AList.delete a (heap w)" "textures (free_state a w) = textures w"
  "buffers (free_state a w) = buffers w" "fonts (free_state a w) = fonts w"
  "cmap_ctxs (free_state a w) = cmap_ctxs w" "calls (free_state a w) = calls w @ [Free a]"
  by (simp_all add: free_state_def emit_def)

lemmas release_fields =
  glDeleteTextures_fields glDeleteBuffers_fields cmap_release_fields glf_free_fields
  free_state_fields

lemma release_null: "gl self = None \<Longrightarrow> fosphor_gl_release self w = Inr (self, w)"
  by (simp add: fosphor_gl_release_def)

lemma release_live:
  assumes "gl self = Some a" "map_of (heap w) a = Some g"
  shows "\<exists>w'. fosphor_gl_release self w = Inr (self\<lparr>gl := None\<rparr>, w')
     \<and> issued w w' =
         [GlDeleteBuffers (vbo_spectrum g),
          GlDeleteTextures (tex_histogram g),
          GlDeleteTextures (tex_waterfall g),
          GlDeleteTextures (cmap_histogram g),
          GlDeleteTextures (cmap_waterfall g),
          Fosphor_gl_cmap_release (cmap_ctx g),
          Glf_free (font g),
          Free a]
     \<and> heap w' = AList.delete a (heap w)
     \<and> textures w' =
         del_name (cmap_waterfall g) (del_name (cmap_histogram g)
           (del_name (tex_waterfall g) (del_name (tex_histogram g) (textures w))))
     \<and> buffers w' = del_name (vbo_spectrum g) (buffers w)
     \<and> cmap_ctxs w' = del_ptr (cmap_ctx g) (cmap_ctxs w)
     \<and> fonts w' = del_ptr (font g) (fonts w)"
  using assms
  by (simp add: fosphor_gl_release_def Let_def release_fields issued_def)

lemma fresh_key: "fresh (map fst h) \<notin> fst ` set h"
  using fresh_notin [of "map fst h"] by simp

lemma map_of_append_fresh:
  "map_of (h @ [(fresh (map fst h), v)]) (fresh (map fst h)) = Some v"
proof -
  have "map_of h (fresh (map fst h)) = None"
    using fresh_key [of h] by (simp add: map_of_eq_None_iff)
  then show ?thesis
    by (simp add: map_add_def)
qed

lemma delete_append_absent: "a \<notin> fst ` set h \<Longrightarrow> AList.delete a (h @ [(a, v)]) = h"
  by (induction h) auto

lemma delete_append_fresh: "AList.delete (fresh (map fst h)) (h @ [(fresh (map fst h), v)]) = h"
  by (rule delete_append_absent [OF fresh_key])

lemma delete_map_entry: "AList.delete a (AList.map_entry a f h) = AList.delete a h"
  by (induction h) auto

lemma del_name_zero: "del_name 0 xs = xs"
  by (simp add: del_name_def)

lemma del_name_fresh: "del_name (fresh xs) (xs @ [fresh xs]) = xs"
  by (simp add: del_name_def fresh_pos fresh_notin)

lemma del_ptr_None: "del_ptr None xs = xs"
  by (simp add: del_ptr_def)

lemma del_ptr_fresh: "del_ptr (Some (fresh xs)) (xs @ [fresh xs]) = xs"
  by (simp add: del_ptr_def fresh_notin)

lemma init_no_memory:
  assumes "\<not> malloc_ok oc"
  shows "\<exists>w'. fosphor_gl_init oc self w = Inr (- ENOMEM, self, w') \<and> resident w' = resident w"
  using assms by (simp add: fosphor_gl_init_def malloc_state_def resident_def emit_def)

lemma init_no_font:
  assumes "malloc_ok oc" "\<not> glf_alloc_ok oc"
  shows "\<exists>w'. fosphor_gl_init oc self w = Inr (- ENOMEM, self\<lparr>gl := None\<rparr>, w')
           \<and> resident w' = resident w"
proof -
  let ?a = "fresh (map fst (heap w))"
  let ?s = "self\<lparr>gl := Some ?a\<rparr>"
  obtain wk where i: "fosphor_gl_init oc self w = init_error (- ENOMEM) ?s wk"
    and k: "heap wk = AList.map_entry ?a (\<lambda>g. g\<lparr>font := None\<rparr>)
                       (AList.map_entry ?a (\<lambda>g. zero_state) (heap w @ [(?a, zero_state)]))"
      "textures wk = textures w" "buffers wk = buffers w" "fonts wk = fonts w"
      "cmap_ctxs wk = cmap_ctxs w"
    using assms
    by (simp add: fosphor_gl_init_def malloc_state_def glf_alloc_def Let_def emit_def store_def)
  have m: "map_of (heap wk) ?a = Some zero_state"
    by (simp only: k map_of_map_entry map_of_append_fresh option.map) (simp add: zero_state_def)
  from release_live [of ?s ?a wk zero_state, OF _ m]
  obtain w' where r: "fosphor_gl_release ?s wk = Inr (?s\<lparr>gl := None\<rparr>, w')"
    and f: "heap w' = AList.delete ?a (heap wk)"
      "textures w' =
         del_name (cmap_waterfall zero_state) (del_name (cmap_histogram zero_state)
           (del_name (tex_waterfall zero_state) (del_name (tex_histogram zero_state) (textures wk))))"
      "buffers w' = del_name (vbo_spectrum zero_state) (buffers wk)"
      "cmap_ctxs w' = del_ptr (cmap_ctx zero_state) (cmap_ctxs wk)"
      "fonts w' = del_ptr (font zero_state) (fonts wk)"
    by auto
  have "resident w' = resident w"
    by (simp add: resident_def f k delete_map_entry delete_append_fresh zero_state_def
        del_name_zero del_ptr_None)
  with i r show ?thesis
    by (simp add: init_error_def)
qed

lemma store_fields:
  "heap (store a f w) = AList.map_entry a f (heap w)" "textures (store a f w) = textures w"
  "buffers (store a f w) = buffers w" "fonts (store a f w) = fonts w"
  "cmap_ctxs (store a f w) = cmap_ctxs w" "calls (store a f w) = calls w"
  by (simp_all add: store_def)

lemma malloc_state_ok:
  "fst (malloc_state True w) = Some (fresh (map fst (heap w)))"
  "heap (snd (malloc_state True w)) = heap w @ [(fresh (map fst (heap w)), zero_state)]"
  "textures (snd (malloc_state True w)) = textures w"
  "buffers (snd (malloc_state True w)) = buffers w"
  "fonts (snd (malloc_state True w)) = fonts w"
  "cmap_ctxs (snd (malloc_state True w)) = cmap_ctxs w"
  "calls (snd (malloc_state True w)) = calls w @ [Malloc (Some (fresh (map fst (heap w))))]"
  by (simp_all add: malloc_state_def Let_def emit_def)

lemma glf_alloc_fields:
  "fst (glf_alloc ok sz w) = (if ok then Some (fresh (fonts w)) else None)"
  "heap (snd (glf_alloc ok sz w)) = heap w"
  "textures (snd (glf_alloc ok sz w)) = textures w"
  "buffers (snd (glf_alloc ok sz w)) = buffers w"
  "fonts (snd (glf_alloc ok sz w)) = (if ok then fonts w @ [fresh (fonts w)] else fonts w)"
  "cmap_ctxs (snd (glf_alloc ok sz w)) = cmap_ctxs w"
  "calls (snd (glf_alloc ok sz w)) =
     calls w @ [Glf_alloc sz (if ok then Some (fresh (fonts w)) else None)]"
  by (simp_all add: glf_alloc_def Let_def emit_def)

lemma cmap_init_fields:
  "fst (fosphor_gl_cmap_init ok w) = (if ok then Some (fresh (cmap_ctxs w)) else None)"
  "heap (snd (fosphor_gl_cmap_init ok w)) = heap w"
  "textures (snd (fosphor_gl_cmap_init ok w)) = textures w"
  "buffers (snd (fosphor_gl_cmap_init ok w)) = buffers w"
  "fonts (snd (fosphor_gl_cmap_init ok w)) = fonts w"
  "cmap_ctxs (snd (fosphor_gl_cmap_init ok w)) =
     (if ok then cmap_ctxs w @ [fresh (cmap_ctxs w)] else cmap_ctxs w)"
  "calls (snd (fosphor_gl_cmap_init ok w)) =
     calls w @ [Fosphor_gl_cmap_init (if ok then Some (fresh (cmap_ctxs w)) else None)]"
  by (simp_all add: fosphor_gl_cmap_init_def Let_def emit_def)

lemma cmap_generate_fields:
  "fst (fst (fosphor_gl_cmap_generate rv p gen n w)) = rv"
  "snd (fst (fosphor_gl_cmap_generate rv p gen n w)) =
     (if rv = 0 \<or> p then fresh (textures w) else 0)"
  "heap (snd (fosphor_gl_cmap_generate rv p gen n w)) = heap w"
  "textures (snd (fosphor_gl_cmap_generate rv p gen n w)) =
     (if rv = 0 \<or> p then textures w @ [fresh (textures w)] else textures w)"
  "buffers (snd (fosphor_gl_cmap_generate rv p gen n w)) = buffers w"
  "fonts (snd (fosphor_gl_cmap_generate rv p gen n w)) = fonts w"
  "cmap_ctxs (snd (fosphor_gl_cmap_generate rv p gen n w)) = cmap_ctxs w"
  "calls (snd (fosphor_gl_cmap_generate rv p gen n w)) =
     calls w @ [Fosphor_gl_cmap_generate gen n rv (if rv = 0 \<or> p then fresh (textures w) else 0)]"
  by (simp_all add: fosphor_gl_cmap_generate_def Let_def emit_def)

lemmas init_fields =
  emit_fields store_fields malloc_state_ok glf_alloc_fields cmap_init_fields
  cmap_generate_fields

lemma init_error_resident:
  assumes "gl s = Some a" "map_of (heap wk) a = Some g"
    and "AList.delete a (heap wk) = heap w"
    and "del_name (cmap_waterfall g) (del_name (cmap_histogram g)
           (del_name (tex_waterfall g) (del_name (tex_histogram g) (textures wk)))) = textures w"
    and "del_name (vbo_spectrum g) (buffers wk) = buffers w"
    and "del_ptr (cmap_ctx g) (cmap_ctxs wk) = cmap_ctxs w"
    and "del_ptr (font g) (fonts wk) = fonts w"
  shows "\<exists>w'. init_error rv s wk = Inr (rv, s\<lparr>gl := None\<rparr>, w') \<and> resident w' = resident w"
  using release_live [OF assms(1,2)] assms(3-7)
  by (auto simp: init_error_def resident_def)

lemma del_name_fresh2:
  "del_name (fresh xs) (del_name (fresh (xs @ [fresh xs])) (xs @ [fresh xs, fresh (xs @ [fresh xs])]))
     = xs"
proof -
  have "xs @ [fresh xs, fresh (xs @ [fresh xs])] = (xs @ [fresh xs]) @ [fresh (xs @ [fresh xs])]"
    by simp
  then show ?thesis
    by (simp only: del_name_fresh)
qed

lemma init_colormap_fails:
  assumes "malloc_ok oc" "glf_alloc_ok oc" "resource_found oc" "glf_load_rv oc = 0"
    and "\<not> cmap_init_ok oc \<or> gen_waterfall_rv oc \<noteq> 0 \<or> gen_histogram_rv oc \<noteq> 0"
  shows "\<exists>w'. fosphor_gl_init oc self w =
                Inr ((if cmap_init_ok oc then 0 else 1) OR gen_waterfall_rv oc
                       OR gen_histogram_rv oc,
                     self\<lparr>gl := None\<rparr>, w')
           \<and> resident w' = resident w"
proof -
  let ?a = "fresh (map fst (heap w))"
  let ?rv = "(if cmap_init_ok oc then 0 else 1) OR gen_waterfall_rv oc OR gen_histogram_rv oc"
  have nz: "?rv \<noteq> 0"
    using assms(5) by (auto simp: or_eq_0_iff)
  show ?thesis
    using assms
    by (simp add: or.assoc or_eq_0_iff neq0_conv [symmetric] del: neq0_conv add: fosphor_gl_init_def malloc_state_def Let_def split_beta init_error_def
        fosphor_gl_release_def release_fields init_fields map_of_map_entry map_of_append_fresh
        resident_def delete_map_entry delete_append_fresh del_name_zero del_name_fresh
        del_name_fresh2 del_ptr_None del_ptr_fresh fresh_pos zero_state_def
        del: map_of_append)
qed

lemma deferred_init_books:
  assumes "gl self = Some a" "map_of (heap w) a = Some g" "init_complete g = 0"
  shows "\<exists>w'. gl_deferred_init c True self w = Inr w'
     \<and> AList.delete a (heap w') = AList.delete a (heap w)
     \<and> calls w' = calls w @ issued w w'"
  using assms
  by (simp add: gl_deferred_init_def Let_def glGenTextures_def glGenBuffers_def gl_vbo_clear_def
      gl_tex2d_float_clear_def emit_def store_def delete_map_entry issued_def)

lemma init_resource_missing:
  assumes "malloc_ok oc" "glf_alloc_ok oc" "\<not> resource_found oc"
  shows "\<exists>w'. fosphor_gl_init oc self w = Inr (- ENOENT, self\<lparr>gl := None\<rparr>, w')
           \<and> resident w' = resident w"
  using assms
  by (simp add: fosphor_gl_init_def malloc_state_def Let_def split_beta init_error_def
      fosphor_gl_release_def release_fields init_fields map_of_map_entry map_of_append_fresh
      resident_def delete_map_entry delete_append_fresh del_name_zero del_ptr_None del_ptr_fresh
      zero_state_def del: map_of_append)

lemma init_font_load_fails:
  assumes "malloc_ok oc" "glf_alloc_ok oc" "resource_found oc" "glf_load_rv oc \<noteq> 0"
  shows "\<exists>w'. fosphor_gl_init oc self w = Inr (glf_load_rv oc, self\<lparr>gl := None\<rparr>, w')
           \<and> resident w' = resident w"
  using assms
  by (simp add: fosphor_gl_init_def malloc_state_def Let_def split_beta init_error_def
      fosphor_gl_release_def release_fields init_fields map_of_map_entry map_of_append_fresh
      resident_def delete_map_entry delete_append_fresh del_name_zero del_ptr_None del_ptr_fresh
      zero_state_def del: map_of_append)

lemma init_succeeds:
  assumes "failed_step oc = None"
  shows "\<exists>w1. fosphor_gl_init oc self w =
                Inr (0, self\<lparr>gl := Some (fresh (map fst (heap w)))\<rparr>, w1)
     \<and> map_of (heap w1) (fresh (map fst (heap w))) =
         Some \<lparr>init_complete = 0, font = Some (fresh (fonts w)),
               cmap_ctx = Some (fresh (cmap_ctxs w)),
               cmap_waterfall = fresh (textures w),
               cmap_histogram = fresh (textures w @ [fresh (textures w)]),
               tex_waterfall = 0, tex_histogram = 0, vbo_spectrum = 0\<rparr>
     \<and> AList.delete (fresh (map fst (heap w))) (heap w1) = heap w
     \<and> textures w1 = textures w @ [fresh (textures w), fresh (textures w @ [fresh (textures w)])]
     \<and> buffers w1 = buffers w
     \<and> fonts w1 = fonts w @ [fresh (fonts w)]
     \<and> cmap_ctxs w1 = cmap_ctxs w @ [fresh (cmap_ctxs w)]
     \<and> calls w1 = calls w @
         [Malloc (Some (fresh (map fst (heap w)))),
          Memset_state (fresh (map fst (heap w))),
          Glf_alloc 8 (Some (fresh (fonts w))),
          Resource_get ''DroidSansMonoDotted.ttf'' True,
          Glf_load_face_mem (Some (fresh (fonts w))) 0,
          Fosphor_gl_cmap_init (Some (fresh (cmap_ctxs w))),
          Fosphor_gl_cmap_generate Fosphor_gl_cmap_waterfall 256 0 (fresh (textures w)),
          Fosphor_gl_cmap_generate Fosphor_gl_cmap_histogram 256 0
            (fresh (textures w @ [fresh (textures w)]))]"
proof -
  from assms have ok: "malloc_ok oc" "glf_alloc_ok oc" "resource_found oc" "glf_load_rv oc = 0"
    "cmap_init_ok oc" "gen_waterfall_rv oc = 0" "gen_histogram_rv oc = 0"
    by (auto simp: failed_step_def split: if_splits)
  show ?thesis
    using ok
    by (simp add: fosphor_gl_init_def malloc_state_def Let_def split_beta
        init_fields map_of_map_entry map_of_append_fresh delete_map_entry delete_append_fresh
        fresh_pos zero_state_def del: map_of_append)
qed

lemma host_ready_after_init:
  assumes "gl s = Some a"
    and "map_of (heap w1) a =
         Some \<lparr>init_complete = 0, font = Some p, cmap_ctx = Some q,
               cmap_waterfall = t1, cmap_histogram = t2,
               tex_waterfall = 0, tex_histogram = 0, vbo_spectrum = 0\<rparr>"
    and "t1 \<in> set (textures w1)" "t2 \<in> set (textures w1)" "t1 \<noteq> t2"
    and "p \<in> set (fonts w1)" "q \<in> set (cmap_ctxs w1)"
  shows "host_ready w1 s"
  using assms by (simp add: host_ready_def deref_def)

lemma fresh_append_neq: "fresh (xs @ [fresh xs]) \<noteq> fresh xs"
  using fresh_notin [of "xs @ [fresh xs]"] by auto

text \<open>
  C4. \<open>fosphor_gl_init\<close> always returns. Where no step fails it returns 0 with
  the renderer constructed (font, colormap context and the two LUTs of 256 entries
  exist and are held by the state structure). Where a step fails it returns the code
  of the first failing step (\<open>-ENOMEM\<close> for an allocation, \<open>-ENOENT\<close> for the
  missing font resource, the code of the font loader, or the non-zero combination of
  the colormap results), and what is resident afterwards is what was resident before;
  \<open>self->gl\<close> is NULL unless the state structure itself could not be allocated, in
  which case \<open>self\<close> is untouched.
\<close>

theorem init_result:
  "\<exists>rv self' w'. fosphor_gl_init oc self w = Inr (rv, self', w')
     \<and> (case failed_step oc of
          None \<Rightarrow>
            rv = 0 \<and> host_ready w' self'
            \<and> filter (\<lambda>cl. created cl \<noteq> []) (issued w w') =
                [Malloc (gl self'),
                 Glf_alloc 8 (Some (fresh (fonts w))),
                 Fosphor_gl_cmap_init (Some (fresh (cmap_ctxs w))),
                 Fosphor_gl_cmap_generate Fosphor_gl_cmap_waterfall 256 0 (fresh (textures w)),
                 Fosphor_gl_cmap_generate Fosphor_gl_cmap_histogram 256 0
                   (fresh (textures w @ [fresh (textures w)]))]
        | Some k \<Rightarrow>
            rv = failure_code oc k \<and> rv \<noteq> 0 \<and> resident w' = resident w
            \<and> (if malloc_ok oc then self' = self\<lparr>gl := None\<rparr> else self' = self))"
proof (cases "failed_step oc")
  case None
  let ?a = "fresh (map fst (heap w))"
  from init_succeeds [OF None, of self w]
  obtain w1 where i: "fosphor_gl_init oc self w = Inr (0, self\<lparr>gl := Some ?a\<rparr>, w1)"
    and g: "map_of (heap w1) ?a =
         Some \<lparr>init_complete = 0, font = Some (fresh (fonts w)),
               cmap_ctx = Some (fresh (cmap_ctxs w)),
               cmap_waterfall = fresh (textures w),
               cmap_histogram = fresh (textures w @ [fresh (textures w)]),
               tex_waterfall = 0, tex_histogram = 0, vbo_spectrum = 0\<rparr>"
    and t: "textures w1 = textures w @ [fresh (textures w), fresh (textures w @ [fresh (textures w)])]"
    and f: "fonts w1 = fonts w @ [fresh (fonts w)]"
    and c: "cmap_ctxs w1 = cmap_ctxs w @ [fresh (cmap_ctxs w)]"
    and l: "calls w1 = calls w @
         [Malloc (Some ?a),
          Memset_state ?a,
          Glf_alloc 8 (Some (fresh (fonts w))),
          Resource_get ''DroidSansMonoDotted.ttf'' True,
          Glf_load_face_mem (Some (fresh (fonts w))) 0,
          Fosphor_gl_cmap_init (Some (fresh (cmap_ctxs w))),
          Fosphor_gl_cmap_generate Fosphor_gl_cmap_waterfall 256 0 (fresh (textures w)),
          Fosphor_gl_cmap_generate Fosphor_gl_cmap_histogram 256 0
            (fresh (textures w @ [fresh (textures w)]))]"
    by blast
  have h: "host_ready w1 (self\<lparr>gl := Some ?a\<rparr>)"
    by (rule host_ready_after_init [OF _ g]) (simp_all add: t f c fresh_append_neq [symmetric])
  have "filter (\<lambda>cl. created cl \<noteq> []) (issued w w1) =
                [Malloc (Some ?a),
                 Glf_alloc 8 (Some (fresh (fonts w))),
                 Fosphor_gl_cmap_init (Some (fresh (cmap_ctxs w))),
                 Fosphor_gl_cmap_generate Fosphor_gl_cmap_waterfall 256 0 (fresh (textures w)),
                 Fosphor_gl_cmap_generate Fosphor_gl_cmap_histogram 256 0
                   (fresh (textures w @ [fresh (textures w)]))]"
    by (simp add: issued_def l created_def fresh_pos)
  with i h None show ?thesis
    by simp
next
  case (Some k)
  show ?thesis
  proof (cases "malloc_ok oc")
    case False
    with Some have k: "k = OutOfMemory"
      by (simp add: failed_step_def)
    from init_no_memory [OF False, of self w] False Some show ?thesis
      by (auto simp: k failure_code_def ENOMEM_def)
  next
    case m: True
    show ?thesis
    proof (cases "glf_alloc_ok oc")
      case False
      with Some have k: "k = OutOfMemory"
        by (simp add: failed_step_def)
      from init_no_font [OF m False, of self w] m Some show ?thesis
        by (auto simp: k failure_code_def ENOMEM_def)
    next
      case a: True
      show ?thesis
      proof (cases "resource_found oc")
        case False
        with Some m a have k: "k = ResourceMissing"
          by (simp add: failed_step_def)
        from init_resource_missing [OF m a False, of self w] m Some show ?thesis
          by (auto simp: k failure_code_def ENOENT_def)
      next
        case r: True
        show ?thesis
        proof (cases "glf_load_rv oc = 0")
          case False
          with Some m a r have k: "k = FontLoadError"
            by (simp add: failed_step_def)
          from init_font_load_fails [OF m a r False, of self w] m Some False show ?thesis
            by (auto simp: k failure_code_def)
        next
          case l: True
          with Some m a r have k: "k = ColormapError"
            and b: "\<not> cmap_init_ok oc \<or> gen_waterfall_rv oc \<noteq> 0 \<or> gen_histogram_rv oc \<noteq> 0"
            by (auto simp: failed_step_def split: if_splits)
          have nz: "(if cmap_init_ok oc then 0 else 1) OR gen_waterfall_rv oc
                      OR gen_histogram_rv oc \<noteq> 0"
            using b by (auto simp: or_eq_0_iff)
          from init_colormap_fails [OF m a r l b, of self w] m Some nz show ?thesis
            by (auto simp: k failure_code_def)
        qed
      qed
    qed
  qed
qed

text \<open>Every step succeeding, and the font resource missing, from an empty world.\<close>

theorem init_result_witness:
  "failed_step all_ok = None
   \<and> (\<exists>self' w'. fosphor_gl_init all_ok self_new world_empty = Inr (0, self', w')
          \<and> host_ready w' self')
   \<and> failed_step (all_ok\<lparr>resource_found := False\<rparr>) = Some ResourceMissing
   \<and> malloc_ok (all_ok\<lparr>resource_found := False\<rparr>)
   \<and> (\<exists>w'. fosphor_gl_init (all_ok\<lparr>resource_found := False\<rparr>) self_new world_empty
                = Inr (- 2, self_new, w')
          \<and> resident w' = resident world_empty)"
proof -
  have a: "failed_step all_ok = None"
    by (simp add: failed_step_def all_ok_def)
  have b: "failed_step (all_ok\<lparr>resource_found := False\<rparr>) = Some ResourceMissing"
    "malloc_ok (all_ok\<lparr>resource_found := False\<rparr>)"
    by (simp_all add: failed_step_def all_ok_def)
  have s: "self_new\<lparr>gl := None\<rparr> = self_new"
    by (simp add: self_new_def)
  from init_result [of all_ok self_new world_empty] a
  have 1: "\<exists>self' w'. fosphor_gl_init all_ok self_new world_empty = Inr (0, self', w')
          \<and> host_ready w' self'"
    by auto
  from init_result [of "all_ok\<lparr>resource_found := False\<rparr>" self_new world_empty] b
  have 2: "\<exists>w'. fosphor_gl_init (all_ok\<lparr>resource_found := False\<rparr>) self_new world_empty
                = Inr (- 2, self_new, w')
          \<and> resident w' = resident world_empty"
    by (auto simp: failure_code_def ENOENT_def s)
  from a b 1 2 show ?thesis
    by blast
qed

lemma issued_trans:
  assumes "calls w1 = calls w @ xs" "calls w2 = calls w1 @ ys"
  shows "issued w w2 = xs @ ys"
  using assms by (simp add: issued_def)

lemma releases_release_calls:
  assumes "b \<noteq> 0" "t4 \<noteq> 0" "t3 \<noteq> 0" "t2 \<noteq> 0" "t1 \<noteq> 0"
  shows "releases
           [GlDeleteBuffers b, GlDeleteTextures t4, GlDeleteTextures t3, GlDeleteTextures t2,
            GlDeleteTextures t1, Fosphor_gl_cmap_release (Some q), Glf_free (Some p), Free a]
         = [Buffer_obj b, Texture_obj t4, Texture_obj t3, Texture_obj t2, Texture_obj t1,
            Cmap_obj q, Font_obj p, State_obj a]"
  using assms by (simp add: releases_def released_def)

lemma del_name_fresh4:
  "del_name (fresh xs)
     (del_name (fresh (xs @ [fresh xs]))
        (del_name (fresh (xs @ [fresh xs, fresh (xs @ [fresh xs])]))
           (del_name (fresh (xs @ [fresh xs, fresh (xs @ [fresh xs]),
                                   fresh (xs @ [fresh xs, fresh (xs @ [fresh xs])])]))
              (xs @ [fresh xs, fresh (xs @ [fresh xs]),
                     fresh (xs @ [fresh xs, fresh (xs @ [fresh xs])]),
                     fresh (xs @ [fresh xs, fresh (xs @ [fresh xs]),
                                  fresh (xs @ [fresh xs, fresh (xs @ [fresh xs])])])]))))
   = xs"
proof -
  let ?t1 = "fresh xs"
  let ?t2 = "fresh (xs @ [?t1])"
  let ?t3 = "fresh (xs @ [?t1, ?t2])"
  let ?t4 = "fresh (xs @ [?t1, ?t2, ?t3])"
  have "del_name ?t4 (xs @ [?t1, ?t2, ?t3, ?t4]) = xs @ [?t1, ?t2, ?t3]"
    using del_name_fresh [of "xs @ [?t1, ?t2, ?t3]"] by simp
  moreover have "del_name ?t3 (xs @ [?t1, ?t2, ?t3]) = xs @ [?t1, ?t2]"
    using del_name_fresh [of "xs @ [?t1, ?t2]"] by simp
  moreover have "del_name ?t2 (xs @ [?t1, ?t2]) = xs @ [?t1]"
    using del_name_fresh [of "xs @ [?t1]"] by simp
  ultimately show ?thesis
    by (simp only: del_name_fresh)
qed

lemma map_of_delete_self: "map_of (AList.delete a h) a = None"
  by (induction h) auto

lemma lifecycle:
  assumes "failed_step oc = None"
  shows "\<exists>self1 w1 h w2 w3. fosphor_gl_init oc self w = Inr (0, self1, w1)
           \<and> fosphor_gl_get_shared_id c True self1 w1 ident = Inr (h, w2)
           \<and> fosphor_gl_release self1 w2 = Inr (self1\<lparr>gl := None\<rparr>, w3)
           \<and> length (creations (issued w w2)) = 8
           \<and> releases (issued w2 w3) = rev (creations (issued w w2))
           \<and> resident w3 = resident w"
proof -
  let ?a = "fresh (map fst (heap w))"
  let ?s = "self\<lparr>gl := Some ?a\<rparr>"
  let ?p = "fresh (fonts w)"
  let ?q = "fresh (cmap_ctxs w)"
  let ?t1 = "fresh (textures w)"
  let ?t2 = "fresh (textures w @ [?t1])"
  let ?t3 = "fresh (textures w @ [?t1, ?t2])"
  let ?t4 = "fresh (textures w @ [?t1, ?t2, ?t3])"
  let ?b = "fresh (buffers w)"
  let ?g1 = "\<lparr>init_complete = 0, font = Some ?p, cmap_ctx = Some ?q, cmap_waterfall = ?t1,
              cmap_histogram = ?t2, tex_waterfall = 0, tex_histogram = 0, vbo_spectrum = 0\<rparr>"
  let ?g2 = "?g1\<lparr>init_complete := 1, tex_waterfall := ?t3, tex_histogram := ?t4,
                   vbo_spectrum := ?b\<rparr>"
  let ?xs = "[Malloc (Some ?a), Memset_state ?a, Glf_alloc 8 (Some ?p),
          Resource_get ''DroidSansMonoDotted.ttf'' True, Glf_load_face_mem (Some ?p) 0,
          Fosphor_gl_cmap_init (Some ?q),
          Fosphor_gl_cmap_generate Fosphor_gl_cmap_waterfall 256 0 ?t1,
          Fosphor_gl_cmap_generate Fosphor_gl_cmap_histogram 256 0 ?t2]"
  from init_succeeds [OF assms, of self w]
  obtain w1 where i: "fosphor_gl_init oc self w = Inr (0, ?s, w1)"
    and g1: "map_of (heap w1) ?a = Some ?g1"
    and h1: "AList.delete ?a (heap w1) = heap w"
    and t1: "textures w1 = textures w @ [?t1, ?t2]"
    and b1: "buffers w1 = buffers w"
    and f1: "fonts w1 = fonts w @ [?p]"
    and c1: "cmap_ctxs w1 = cmap_ctxs w @ [?q]"
    and l1: "calls w1 = calls w @ ?xs"
    by blast
  have s: "gl ?s = Some ?a"
    by simp
  have z: "init_complete ?g1 = 0"
    by simp
  from deferred_init_fresh [OF s g1 z, of c]
  obtain w2 where d: "gl_deferred_init c True ?s w1 = Inr w2"
    and g2: "map_of (heap w2) ?a = Some ?g2"
    and t2: "textures w2 = textures w @ [?t1, ?t2, ?t3, ?t4]"
    and b2: "buffers w2 = buffers w @ [?b]"
    and f2: "fonts w2 = fonts w @ [?p]"
    and c2: "cmap_ctxs w2 = cmap_ctxs w @ [?q]"
    and cr: "creations (issued w1 w2) = [Texture_obj ?t3, Texture_obj ?t4, Buffer_obj ?b]"
    by (auto simp: t1 b1 f1 c1)
  from deferred_init_books [OF s g1 z, of c] d
  have h2: "AList.delete ?a (heap w2) = heap w" and l2: "calls w2 = calls w1 @ issued w1 w2"
    by (auto simp: h1)
  have dr: "deref w1 (gl ?s) = Some ?g1"
    by (simp add: deref_def g1)
  from get_shared_id_returns [OF dr, of True c ident] d
  have get: "fosphor_gl_get_shared_id c True ?s w1 ident = Inr (shared_name w2 ?s ident, w2)"
    by simp
  from release_live [OF s g2]
  obtain w3 where r: "fosphor_gl_release ?s w2 = Inr (?s\<lparr>gl := None\<rparr>, w3)"
    and l3: "issued w2 w3 =
         [GlDeleteBuffers ?b, GlDeleteTextures ?t4, GlDeleteTextures ?t3,
          GlDeleteTextures ?t2, GlDeleteTextures ?t1,
          Fosphor_gl_cmap_release (Some ?q), Glf_free (Some ?p), Free ?a]"
    and h3: "heap w3 = AList.delete ?a (heap w2)"
    and t3: "textures w3 = del_name ?t1 (del_name ?t2 (del_name ?t3 (del_name ?t4 (textures w2))))"
    and b3: "buffers w3 = del_name ?b (buffers w2)"
    and c3: "cmap_ctxs w3 = del_ptr (Some ?q) (cmap_ctxs w2)"
    and f3: "fonts w3 = del_ptr (Some ?p) (fonts w2)"
    by auto
  have iw: "issued w w2 = ?xs @ issued w1 w2"
    by (rule issued_trans [OF l1 l2])
  have cx: "creations ?xs =
      [State_obj ?a, Font_obj ?p, Cmap_obj ?q, Texture_obj ?t1, Texture_obj ?t2]"
    by (simp add: creations_def created_def fresh_pos)
  have cs: "creations (issued w w2) =
      [State_obj ?a, Font_obj ?p, Cmap_obj ?q, Texture_obj ?t1, Texture_obj ?t2,
       Texture_obj ?t3, Texture_obj ?t4, Buffer_obj ?b]"
    unfolding iw creations_append cx cr by simp
  have rs: "releases (issued w2 w3) =
      [Buffer_obj ?b, Texture_obj ?t4, Texture_obj ?t3, Texture_obj ?t2, Texture_obj ?t1,
       Cmap_obj ?q, Font_obj ?p, State_obj ?a]"
    unfolding l3 by (rule releases_release_calls) (rule fresh_pos)+
  have res: "resident w3 = resident w"
    unfolding resident_def h3 t3 b3 c3 f3 h2 t2 b2 c2 f2
    by (simp only: del_name_fresh4 del_name_fresh del_ptr_fresh)
  from i get r cs rs res show ?thesis
    by auto
qed

text \<open>
  C5. \<open>fosphor_gl_release\<close> does nothing on a NULL state. On a live state it
  releases, in this order, the spectrum buffer, the histogram and the waterfall
  texture, the histogram and the waterfall LUT, the colormap context, the font and
  the state structure, and sets \<open>self->gl\<close> to NULL, so that a second release right
  after it does nothing and does not fault. After an initialisation and a deferred
  initialisation the order of release is the reverse of the order of creation, and
  what is resident at the end is what was resident at the start.
\<close>

theorem release_order:
  "(gl self = None \<longrightarrow> fosphor_gl_release self w = Inr (self, w))
   \<and> (gl self = Some a \<and> map_of (heap w) a = Some g \<longrightarrow>
        (\<exists>w'. fosphor_gl_release self w = Inr (self\<lparr>gl := None\<rparr>, w')
           \<and> issued w w' =
               [GlDeleteBuffers (vbo_spectrum g),
                GlDeleteTextures (tex_histogram g),
                GlDeleteTextures (tex_waterfall g),
                GlDeleteTextures (cmap_histogram g),
                GlDeleteTextures (cmap_waterfall g),
                Fosphor_gl_cmap_release (cmap_ctx g),
                Glf_free (font g),
                Free a]
           \<and> map_of (heap w') a = None
           \<and> fosphor_gl_release (self\<lparr>gl := None\<rparr>) w' = Inr (self\<lparr>gl := None\<rparr>, w')))
   \<and> (failed_step oc = None \<longrightarrow>
        (\<exists>self1 w1 h w2 w3. fosphor_gl_init oc self w = Inr (0, self1, w1)
           \<and> fosphor_gl_get_shared_id c True self1 w1 ident = Inr (h, w2)
           \<and> fosphor_gl_release self1 w2 = Inr (self1\<lparr>gl := None\<rparr>, w3)
           \<and> length (creations (issued w w2)) = 8
           \<and> releases (issued w2 w3) = rev (creations (issued w w2))
           \<and> resident w3 = resident w))"
proof (intro conjI impI)
  assume "gl self = None"
  then show "fosphor_gl_release self w = Inr (self, w)"
    by (rule release_null)
next
  assume "gl self = Some a \<and> map_of (heap w) a = Some g"
  then have a: "gl self = Some a" "map_of (heap w) a = Some g"
    by simp_all
  from release_live [OF a]
  obtain w' where r: "fosphor_gl_release self w = Inr (self\<lparr>gl := None\<rparr>, w')"
    and l: "issued w w' =
               [GlDeleteBuffers (vbo_spectrum g),
                GlDeleteTextures (tex_histogram g),
                GlDeleteTextures (tex_waterfall g),
                GlDeleteTextures (cmap_histogram g),
                GlDeleteTextures (cmap_waterfall g),
                Fosphor_gl_cmap_release (cmap_ctx g),
                Glf_free (font g),
                Free a]"
    and h: "heap w' = AList.delete a (heap w)"
    by blast
  have "map_of (heap w') a = None"
    by (simp only: h map_of_delete_self)
  moreover have "fosphor_gl_release (self\<lparr>gl := None\<rparr>) w' = Inr (self\<lparr>gl := None\<rparr>, w')"
    by (rule release_null) simp
  ultimately show "\<exists>w'. fosphor_gl_release self w = Inr (self\<lparr>gl := None\<rparr>, w')
           \<and> issued w w' =
               [GlDeleteBuffers (vbo_spectrum g),
                GlDeleteTextures (tex_histogram g),
                GlDeleteTextures (tex_waterfall g),
                GlDeleteTextures (cmap_histogram g),
                GlDeleteTextures (cmap_waterfall g),
                Fosphor_gl_cmap_release (cmap_ctx g),
                Glf_free (font g),
                Free a]
           \<and> map_of (heap w') a = None
           \<and> fosphor_gl_release (self\<lparr>gl := None\<rparr>) w' = Inr (self\<lparr>gl := None\<rparr>, w')"
    using r l by blast
next
  assume "failed_step oc = None"
  then show "\<exists>self1 w1 h w2 w3. fosphor_gl_init oc self w = Inr (0, self1, w1)
           \<and> fosphor_gl_get_shared_id c True self1 w1 ident = Inr (h, w2)
           \<and> fosphor_gl_release self1 w2 = Inr (self1\<lparr>gl := None\<rparr>, w3)
           \<and> length (creations (issued w w2)) = 8
           \<and> releases (issued w2 w3) = rev (creations (issued w w2))
           \<and> resident w3 = resident w"
    by (rule lifecycle)
qed

text \<open>A release of a renderer never initialised, of a ready one followed by a
  second release, and a whole life from an empty world.\<close>

theorem release_order_witness:
  "gl self_new = None
   \<and> fosphor_gl_release self_new world_empty = Inr (self_new, world_empty)
   \<and> gl self_ready = Some 1 \<and> map_of (heap world_ready) 1 = Some gl_ready
   \<and> (\<exists>w'. fosphor_gl_release self_ready world_ready = Inr (self_new, w')
          \<and> issued world_ready w' =
              [GlDeleteBuffers 1, GlDeleteTextures 4, GlDeleteTextures 3, GlDeleteTextures 2,
               GlDeleteTextures 1, Fosphor_gl_cmap_release (Some 1), Glf_free (Some 1), Free 1]
          \<and> map_of (heap w') 1 = None
          \<and> fosphor_gl_release self_new w' = Inr (self_new, w'))
   \<and> failed_step all_ok = None
   \<and> (\<exists>self1 w1 h w2 w3. fosphor_gl_init all_ok self_new world_empty = Inr (0, self1, w1)
          \<and> fosphor_gl_get_shared_id cfg32 True self1 w1 GL_ID_TEX_WATERFALL = Inr (h, w2)
          \<and> fosphor_gl_release self1 w2 = Inr (self1\<lparr>gl := None\<rparr>, w3)
          \<and> length (creations (issued world_empty w2)) = 8
          \<and> releases (issued w2 w3) = rev (creations (issued world_empty w2))
          \<and> resident w3 = resident world_empty)"
proof -
  have n: "gl self_new = None"
    by (simp add: self_new_def)
  have r: "gl self_ready = Some 1" "map_of (heap world_ready) 1 = Some gl_ready"
    by (simp_all add: self_ready_def world_ready_def)
  have o: "failed_step all_ok = None"
    by (simp add: failed_step_def all_ok_def)
  have s: "self_ready\<lparr>gl := None\<rparr> = self_new"
    by (simp add: self_new_def)
  note t = release_order [of self_new world_empty 1 gl_ready all_ok cfg32 GL_ID_TEX_WATERFALL]
  note u = release_order [of self_ready world_ready 1 gl_ready all_ok cfg32 GL_ID_TEX_WATERFALL]
  from t n have 1: "fosphor_gl_release self_new world_empty = Inr (self_new, world_empty)"
    by blast
  from u r have 2: "\<exists>w'. fosphor_gl_release self_ready world_ready = Inr (self_new, w')
          \<and> issued world_ready w' =
              [GlDeleteBuffers 1, GlDeleteTextures 4, GlDeleteTextures 3, GlDeleteTextures 2,
               GlDeleteTextures 1, Fosphor_gl_cmap_release (Some 1), Glf_free (Some 1), Free 1]
          \<and> map_of (heap w') 1 = None
          \<and> fosphor_gl_release self_new w' = Inr (self_new, w')"
    by (simp add: s gl_ready_def)
  from t o have 3: "\<exists>self1 w1 h w2 w3. fosphor_gl_init all_ok self_new world_empty = Inr (0, self1, w1)
          \<and> fosphor_gl_get_shared_id cfg32 True self1 w1 GL_ID_TEX_WATERFALL = Inr (h, w2)
          \<and> fosphor_gl_release self1 w2 = Inr (self1\<lparr>gl := None\<rparr>, w3)
          \<and> length (creations (issued world_empty w2)) = 8
          \<and> releases (issued w2 w3) = rev (creations (issued world_empty w2))
          \<and> resident w3 = resident world_empty"
    by blast
  from n r o 1 2 3 show ?thesis
    by blast
qed

end
